theory Spec2Isabelle
  imports Main "HOL-Library.Word"
begin

unbundle bit_operations_syntax

section \<open>The display driver lcd.c (HD44780 via PCF8574, SSD1306 OLED)\<close>

text \<open>
  A shallow embedding of \<^verbatim>\<open>src/src/gotek/lcd.c\<close>. The driver's statics and the
  peripheral registers it writes are the fields of one state record. What the
  hardware tells the driver (status register reads, the SysTick counter, pin levels,
  interrupts arriving while the foreground spins) is a finite list of observations in
  the same record; a read takes the head of its list, and a read from an empty list
  ends the run with the fault \<open>Env_exhausted\<close>: the driver is still waiting when the
  recorded observations end.
\<close>

subsection \<open>Constants of lcd.c\<close>

type_synonym u8 = "8 word"
type_synonym u32 = "32 word"

text \<open>PCF8574 pin assignment: D7-D6-D5-D4-BL-EN-RW-RS (the C names have a leading
  underscore).\<close>

definition BL :: u8 where "BL = 0x08"
definition EN :: u8 where "EN = 0x04"
definition RW :: u8 where "RW = 0x02"
definition RS :: u8 where "RS = 0x01"

text \<open>HD44780 commands.\<close>

definition CMD_ENTRYMODE :: u8 where "CMD_ENTRYMODE = 0x04"
definition CMD_DISPLAYCTL :: u8 where "CMD_DISPLAYCTL = 0x08"
definition CMD_FUNCTIONSET :: u8 where "CMD_FUNCTIONSET = 0x20"
definition CMD_SETDDRADDR :: u8 where "CMD_SETDDRADDR = 0x80"
definition FS_2LINE :: u8 where "FS_2LINE = 0x08"

definition OLED_ADDR :: u8 where "OLED_ADDR = 0x3c"

definition I2C_ERROR_IRQ :: nat where "I2C_ERROR_IRQ = 34"
definition I2C_EVENT_IRQ :: nat where "I2C_EVENT_IRQ = 33"
definition DMA1_CH4_IRQ :: nat where "DMA1_CH4_IRQ = 14"

text \<open>\<^verbatim>\<open>sizeof(buffer)\<close> for \<^verbatim>\<open>uint32_t buffer[256/4]\<close>.\<close>

definition sizeof_buffer :: nat where "sizeof_buffer = 256"

subsection \<open>Registers as sets of flags\<close>

text \<open>
  The register headers are not part of the sources at hand, so a register value is the
  set of the named bits that are 1 in it: \<^verbatim>\<open>r |= F\<close> inserts \<open>F\<close>, \<^verbatim>\<open>r &= ~F\<close>
  removes it, \<^verbatim>\<open>r = 0\<close> is the empty set, \<^verbatim>\<open>(r & m) != m\<close> is \<open>\<not> m \<subseteq> r\<close>. A field
  macro such as \<^verbatim>\<open>I2C_CR2_FREQ(36)\<close> is a flag that carries its argument.
  \<^verbatim>\<open>I2C_SR1_ERRORS\<close> is a mask of several error bits; they are the flags
  \<open>I2C_SR1_ERROR k\<close>.
\<close>

datatype sr1_flag = I2C_SR1_SB | I2C_SR1_ADDR | I2C_SR1_BTF | I2C_SR1_TXE | I2C_SR1_ERROR nat

fun is_sr1_error :: "sr1_flag \<Rightarrow> bool" where
  "is_sr1_error (I2C_SR1_ERROR k) = True"
| "is_sr1_error f = False"

text \<open>\<^verbatim>\<open>r & I2C_SR1_ERRORS\<close> as a truth value, and \<^verbatim>\<open>r & ~I2C_SR1_ERRORS\<close>.\<close>

definition sr1_has_errors :: "sr1_flag set \<Rightarrow> bool" where
  "sr1_has_errors r = (\<exists>f \<in> r. is_sr1_error f)"

definition sr1_clear_errors :: "sr1_flag set \<Rightarrow> sr1_flag set" where
  "sr1_clear_errors r = Set.filter (\<lambda>f. \<not> is_sr1_error f) r"

datatype cr1_flag = I2C_CR1_PE | I2C_CR1_START | I2C_CR1_STOP | I2C_CR1_SWRST

datatype cr2_flag = I2C_CR2_FREQ nat | I2C_CR2_ITERREN | I2C_CR2_ITEVTEN | I2C_CR2_DMAEN

datatype ccr_flag = I2C_CCR_CCR nat | I2C_CCR_FS

datatype dma_flag = DMA_CCR_MSIZE_8BIT | DMA_CCR_PSIZE_16BIT | DMA_CCR_MINC
  | DMA_CCR_DIR_M2P | DMA_CCR_TCIE | DMA_CCR_EN

datatype apb1_flag = RCC_APB1ENR_I2C2EN | RCC_APB1ENR_other nat

text \<open>The two bus pins of GPIO port B (\<^verbatim>\<open>SCL\<close> is pin 10, \<^verbatim>\<open>SDA\<close> pin 11), and
  the pin configurations lcd.c asks for; all outputs are configured at 2 MHz, and
  \<open>GPO_opendrain\<close> carries the initial level.\<close>

datatype pin = SCL | SDA

datatype pin_mode = GPO_opendrain bool | AFO_opendrain | GPI_pull_down | GPI_pull_up

text \<open>Where a DMA address register points.\<close>

datatype dma_addr = Addr_buffer | Addr_i2c_dr

text \<open>Actions on the hardware whose order matters to a reader of the bus: pin
  reconfigurations, bytes written to the I2C data register by the synchronous
  routines, and STOP requests (\<^verbatim>\<open>i2c->cr1 |= I2C_CR1_STOP\<close>). The hardware clears
  the STOP bit by itself once the condition is on the bus, so the control register
  does not remember that a STOP was asked for; the event does.\<close>

datatype event = Ev_gpio_configure pin pin_mode | Ev_dr_write nat | Ev_stop

subsection \<open>Platform parameters\<close>

text \<open>
  Declared in headers that are not part of the sources at hand, and therefore
  parameters of the model: the SysTick arithmetic (\<^verbatim>\<open>stk_diff\<close>, \<^verbatim>\<open>stk_add\<close>,
  \<^verbatim>\<open>stk_ms\<close>), the interrupt priority \<^verbatim>\<open>I2C_IRQ_PRI\<close>, and the glyph table, which
  is \<^verbatim>\<open>oled_font_7x16\<close> (bytes, 14 per glyph) when lcd.c is compiled with
  \<^verbatim>\<open>font_7x16\<close> and \<^verbatim>\<open>oled_font_8x16\<close> (32-bit words, 4 per glyph) otherwise.
\<close>

datatype font = Font_7x16 "nat \<Rightarrow> u8" | Font_8x16 "nat \<Rightarrow> u32"

record platform =
  stk_diff :: "nat \<Rightarrow> nat \<Rightarrow> nat"
  stk_add :: "nat \<Rightarrow> nat \<Rightarrow> nat"
  stk_ms :: "nat \<Rightarrow> nat"
  I2C_IRQ_PRI :: nat
  oled_font :: font

text \<open>\<^verbatim>\<open>#define DMA_TIMEOUT stk_ms(200)\<close>\<close>

definition DMA_TIMEOUT :: "platform \<Rightarrow> nat" where
  "DMA_TIMEOUT h = stk_ms h 200"

subsection \<open>State\<close>

text \<open>
  \<^item> \<open>bl\<close> is \<^verbatim>\<open>_bl\<close>; \<open>i2c_dead\<close> holds \<^verbatim>\<open>TRUE\<close>/\<^verbatim>\<open>FALSE\<close>.
  \<^item> \<open>buffer\<close> is the byte view of \<^verbatim>\<open>uint32_t buffer[256/4]\<close> that the driver itself
    uses (\<^verbatim>\<open>(uint8_t *)buffer\<close>), indexed by byte offset; offsets from 256 on are
    outside the array.
  \<^item> \<open>text_buf\<close> is \<^verbatim>\<open>char text[2][16]\<close> by flat offset: cell \<open>(row, col)\<close> is at
    \<open>16 * row + col\<close>, as \<^verbatim>\<open>&text[row][col]\<close> computes it.
  \<^item> \<open>timeout_timer\<close> is the deadline of the armed timer, or \<open>None\<close>.
  \<^item> \<open>i2c_sr1_written\<close> is the value last written to \<^verbatim>\<open>i2c->sr1\<close>, if any;
    \<open>i2c_cr1\<close>, \<open>i2c_cr2\<close>, \<open>i2c_ccr\<close> hold the bits as the driver last left
    them, with \<^verbatim>\<open>I2C_CR1_STOP\<close> removed once the driver has seen the hardware
    clear it.
  \<^item> \<open>dma_ch4_flags\<close> is true while channel 4 has an interrupt flag set in the DMA
    status register; writing \<^verbatim>\<open>DMA_IFCR_CGIF(4)\<close> clears it.
  \<^item> \<open>sr1_in\<close>, \<open>now_in\<close>, \<open>stop_in\<close>, \<open>pin_in\<close>: the values that successive reads of
    \<^verbatim>\<open>i2c->sr1\<close>, \<^verbatim>\<open>stk_now()\<close>, \<^verbatim>\<open>i2c->cr1 & I2C_CR1_STOP\<close> and
    \<^verbatim>\<open>gpio_read_pin\<close> return. \<open>irq_in\<close>: how many DMA-completion interrupts are
    served before each poll of \<^verbatim>\<open>refresh_count\<close> in \<^verbatim>\<open>lcd_sync\<close>.
\<close>

record lcd_state =
  bl :: u8
  i2c_addr :: u8
  i2c_dead :: bool
  refresh_count :: u8
  buffer :: "nat \<Rightarrow> u8"
  text_buf :: "nat \<Rightarrow> char"
  oled_row :: u8
  timeout_timer :: "nat option"
  i2c_sr1_written :: "sr1_flag set option"
  i2c_cr1 :: "cr1_flag set"
  i2c_cr2 :: "cr2_flag set"
  i2c_ccr :: "ccr_flag set"
  i2c_trise :: nat
  dma_ccr :: "dma_flag set"
  dma_cndtr :: nat
  dma_cmar :: "dma_addr option"
  dma_cpar :: "dma_addr option"
  dma_ch4_flags :: bool
  rcc_apb1enr :: "apb1_flag set"
  irq_enabled :: "nat set"
  irq_pending :: "nat set"
  irq_prio :: "nat \<Rightarrow> nat option"
  pin_cfg :: "pin \<Rightarrow> pin_mode option"
  pin_out :: "pin \<Rightarrow> bool"
  events :: "event list"
  sr1_in :: "sr1_flag set list"
  now_in :: "nat list"
  stop_in :: "bool list"
  pin_in :: "bool list"
  irq_in :: "nat list"

subsection \<open>Faults\<close>

text \<open>
  A run of a driver function ends with its result, or with a fault: the recorded
  observations ran out (\<open>Env_exhausted\<close>), an \<^verbatim>\<open>ASSERT\<close> failed, or a store went
  outside its array.
\<close>

datatype fault = Env_exhausted | Assert_failed | Out_of_bounds

type_synonym 'a result = "fault + 'a"

definition seq :: "'a result \<Rightarrow> ('a \<Rightarrow> 'b result) \<Rightarrow> 'b result" where
  "seq m f = (case m of Inl e \<Rightarrow> Inl e | Inr x \<Rightarrow> f x)"

subsection \<open>Character mode: emit4, emit8, lcd\_prep\_buffer\<close>

text \<open>
  \<^verbatim>\<open>uint8_t **p\<close> always points into \<^verbatim>\<open>buffer\<close>: the pointer is its byte offset, taken
  and returned beside the state.
  \<^verbatim>\<open>
  static void emit4(uint8_t **p, uint8_t val)
  {
      *(*p)++ = val;
      *(*p)++ = val | _EN;
      *(*p)++ = val;
  }
  \<close>
\<close>

definition emit4 :: "nat \<Rightarrow> u8 \<Rightarrow> lcd_state \<Rightarrow> nat \<times> lcd_state" where
  "emit4 p val s =
     (p + 3, s\<lparr>buffer := (buffer s)(p := val, p + 1 := val OR EN, p + 2 := val)\<rparr>)"

text \<open>
  \<^verbatim>\<open>
  static void emit8(uint8_t **p, uint8_t val, uint8_t signals)
  {
      signals |= _bl;
      emit4(p, (val & 0xf0) | signals);
      emit4(p, (val << 4) | signals);
  }
  \<close>
  The arguments of \<^verbatim>\<open>emit4\<close> are converted to \<^verbatim>\<open>uint8_t\<close>: the shift drops the high
  nibble, as \<open>push_bit\<close> on an 8-bit word does.
\<close>

definition emit8 :: "nat \<Rightarrow> u8 \<Rightarrow> u8 \<Rightarrow> lcd_state \<Rightarrow> nat \<times> lcd_state" where
  "emit8 p val signals s =
     (let signals = signals OR bl s;
          (p, s) = emit4 p ((val AND 0xf0) OR signals) s
      in emit4 p (push_bit 4 val OR signals) s)"

text \<open>
  \<^verbatim>\<open>
  static unsigned int lcd_prep_buffer(void)
  {
      uint8_t *q = (uint8_t *)buffer;
      unsigned int i, j;
      refresh_count++;
      for (i = 0; i < 2; i++) {
          emit8(&q, CMD_SETDDRADDR | (i*64), 0);
          for (j = 0; j < 16; j++)
              emit8(&q, text[i][j], _RS);
      }
      return q - (uint8_t *)buffer;
  }
  \<close>
  The two counted loops are folds over \<open>[0..<2]\<close> and \<open>[0..<16]\<close>.
\<close>

definition lcd_prep_row :: "nat \<Rightarrow> nat \<times> lcd_state \<Rightarrow> nat \<times> lcd_state" where
  "lcd_prep_row i qs =
     (let (q, s) = qs;
          (q, s) = emit8 q (CMD_SETDDRADDR OR of_nat (i * 64)) 0 s
      in fold (\<lambda>j (q, s). emit8 q (of_char (text_buf s (16 * i + j))) RS s) [0..<16] (q, s))"

definition lcd_prep_buffer :: "lcd_state \<Rightarrow> nat \<times> lcd_state" where
  "lcd_prep_buffer s =
     (let s = s\<lparr>refresh_count := refresh_count s + 1\<rparr>
      in fold lcd_prep_row [0..<2] (0, s))"

subsection \<open>The text buffer: lcd\_write, lcd\_clear, lcd\_backlight\<close>

text \<open>
  A store through \<^verbatim>\<open>char *p\<close>, which \<^verbatim>\<open>lcd_write\<close> derives from
  \<^verbatim>\<open>&text[row][col]\<close>: \<open>p\<close> is the offset from \<^verbatim>\<open>&text[0][0]\<close>, and a store outside
  the 32 cells of the array is the fault \<open>Out_of_bounds\<close>.
\<close>

definition store_text :: "(nat \<Rightarrow> char) \<Rightarrow> int \<Rightarrow> char \<Rightarrow> (nat \<Rightarrow> char) result" where
  "store_text t p c = (if 0 \<le> p \<and> p < 32 then Inr (t(nat p := c)) else Inl Out_of_bounds)"

text \<open>
  \<^verbatim>\<open>
  void lcd_write(int col, int row, int min, const char *str)
  {
      char c, *p = &text[row][col];
      uint32_t oldpri;
      oldpri = IRQ_save(I2C_IRQ_PRI);
      while ((c = *str++) && (col++ < 16)) {
          *p++ = c;
          min--;
      }
      while ((min-- > 0) && (col++ < 16))
          *p++ = ' ';
      IRQ_restore(oldpri);
  }
  \<close>
  The string is the list of the characters at \<^verbatim>\<open>str\<close> up to its terminating NUL: the
  end of the list is the terminator, and a NUL inside the list ends the copy as well.
  The C \<^verbatim>\<open>int\<close>s are integers; \<^verbatim>\<open>&&\<close> evaluates \<^verbatim>\<open>col++\<close> only when its left
  operand holds. \<^verbatim>\<open>IRQ_save\<close>/\<^verbatim>\<open>IRQ_restore\<close> mask the driver's interrupts around
  the body, so the body is one step of the sequential model.
  Each loop returns \<open>(col, p, minw, text)\<close> as they are when the loop is left
  (\<open>minw\<close> is the C parameter \<^verbatim>\<open>min\<close>).
\<close>

fun lcd_write_copy ::
  "char list \<Rightarrow> int \<Rightarrow> int \<Rightarrow> int \<Rightarrow> (nat \<Rightarrow> char) \<Rightarrow> (int \<times> int \<times> int \<times> (nat \<Rightarrow> char)) result"
where
  "lcd_write_copy [] col p minw t = Inr (col, p, minw, t)"
| "lcd_write_copy (c # str) col p minw t =
     (if c = CHR 0x00 then Inr (col, p, minw, t)
      else if col < 16 then
        (case store_text t p c of
           Inl e \<Rightarrow> Inl e
         | Inr t' \<Rightarrow> lcd_write_copy str (col + 1) (p + 1) (minw - 1) t')
      else Inr (col + 1, p, minw, t))"

function lcd_write_pad ::
  "int \<Rightarrow> int \<Rightarrow> int \<Rightarrow> (nat \<Rightarrow> char) \<Rightarrow> (int \<times> int \<times> int \<times> (nat \<Rightarrow> char)) result"
where
  "lcd_write_pad col p minw t =
     (if minw > 0 then
        (if col < 16 then
           (case store_text t p (CHR '' '') of
              Inl e \<Rightarrow> Inl e
            | Inr t' \<Rightarrow> lcd_write_pad (col + 1) (p + 1) (minw - 1) t')
         else Inr (col + 1, p, minw - 1, t))
      else Inr (col, p, minw - 1, t))"
  by pat_completeness auto
termination
  by (relation "measure (\<lambda>(col, p, minw, t). nat (16 - col))") auto

definition lcd_write :: "int \<Rightarrow> int \<Rightarrow> int \<Rightarrow> char list \<Rightarrow> lcd_state \<Rightarrow> lcd_state result" where
  "lcd_write col row minw str s =
     (let p = 16 * row + col in
      seq (lcd_write_copy str col p minw (text_buf s)) (\<lambda>(col, p, minw, t).
      seq (lcd_write_pad col p minw t) (\<lambda>(col, p, minw, t).
      Inr (s\<lparr>text_buf := t\<rparr>))))"

text \<open>
  \<^verbatim>\<open>
  void lcd_clear(void)
  {
      lcd_write(0, 0, 16, "");
      lcd_write(0, 1, 16, "");
  }
  void lcd_backlight(bool_t on)
  {
      _bl = on ? _BL : 0;
  }
  \<close>
\<close>

definition lcd_clear :: "lcd_state \<Rightarrow> lcd_state result" where
  "lcd_clear s = seq (lcd_write 0 0 16 [] s) (lcd_write 0 1 16 [])"

definition lcd_backlight :: "bool \<Rightarrow> lcd_state \<Rightarrow> lcd_state" where
  "lcd_backlight on s = s\<lparr>bl := (if on then BL else 0)\<rparr>"

subsection \<open>Starting a DMA transfer\<close>

text \<open>
  \<^verbatim>\<open>
  static void dma_start(unsigned int sz)
  {
      ASSERT(sz <= sizeof(buffer));
      dma1->ch4.cmar = (uint32_t)(unsigned long)buffer;
      dma1->ch4.cndtr = sz;
      dma1->ch4.ccr = (DMA_CCR_MSIZE_8BIT | DMA_CCR_PSIZE_16BIT | DMA_CCR_MINC |
                       DMA_CCR_DIR_M2P | DMA_CCR_TCIE | DMA_CCR_EN);
      timer_set(&timeout_timer, stk_add(stk_now(), DMA_TIMEOUT));
  }
  \<close>
\<close>

definition stk_now :: "lcd_state \<Rightarrow> (nat \<times> lcd_state) result" where
  "stk_now s = (case now_in s of [] \<Rightarrow> Inl Env_exhausted | t # ts \<Rightarrow> Inr (t, s\<lparr>now_in := ts\<rparr>))"

definition timer_set :: "nat \<Rightarrow> lcd_state \<Rightarrow> lcd_state" where
  "timer_set deadline s = s\<lparr>timeout_timer := Some deadline\<rparr>"

definition timer_init :: "lcd_state \<Rightarrow> lcd_state" where
  "timer_init s = s\<lparr>timeout_timer := None\<rparr>"

definition timer_cancel :: "lcd_state \<Rightarrow> lcd_state" where
  "timer_cancel s = s\<lparr>timeout_timer := None\<rparr>"

definition dma_start :: "platform \<Rightarrow> nat \<Rightarrow> lcd_state \<Rightarrow> lcd_state result" where
  "dma_start h sz s =
     (if \<not> sz \<le> sizeof_buffer then Inl Assert_failed
      else
        let s = s\<lparr>dma_cmar := Some Addr_buffer\<rparr>;
            s = s\<lparr>dma_cndtr := sz\<rparr>;
            s = s\<lparr>dma_ccr := {DMA_CCR_MSIZE_8BIT, DMA_CCR_PSIZE_16BIT, DMA_CCR_MINC,
                             DMA_CCR_DIR_M2P, DMA_CCR_TCIE, DMA_CCR_EN}\<rparr>
        in seq (stk_now s) (\<lambda>(t, s). Inr (timer_set (stk_add h t (DMA_TIMEOUT h)) s)))"

subsection \<open>Bitmap mode: oled\_convert\_text\_row, oled\_start\_i2c, oled\_prep\_buffer\<close>

text \<open>
  The glyph index of a character, in both variants of \<^verbatim>\<open>oled_convert_text_row\<close>:
  \<^verbatim>\<open>
      if ((c = *pc++ - 0x20) > 0x5e)
          c = '.' - 0x20;
  \<close>
  \<^verbatim>\<open>c\<close> is an \<^verbatim>\<open>unsigned int\<close>: the difference is taken modulo \<open>2 ^ 32\<close>, so a
  character below 0x20 gives a large value and falls back to the glyph of the dot.
\<close>

definition glyph_index :: "char \<Rightarrow> nat" where
  "glyph_index ch =
     (let c = nat ((int (of_char ch) - 0x20) mod 2 ^ 32)
      in if c > 0x5e then 0x2e - 0x20 else c)"

text \<open>A 32-bit store at word index \<open>k\<close> of \<^verbatim>\<open>buffer\<close>, seen through the byte view
  (the Cortex-M3 is little-endian).\<close>

definition store32 :: "(nat \<Rightarrow> u8) \<Rightarrow> nat \<Rightarrow> u32 \<Rightarrow> (nat \<Rightarrow> u8)" where
  "store32 b k w =
     b(4 * k := ucast w, 4 * k + 1 := ucast (drop_bit 8 w),
       4 * k + 2 := ucast (drop_bit 16 w), 4 * k + 3 := ucast (drop_bit 24 w))"

text \<open>
  Without \<^verbatim>\<open>font_7x16\<close>:
  \<^verbatim>\<open>
  static void oled_convert_text_row(char *pc)
  {
      unsigned int i, c;
      const uint32_t *p;
      uint32_t *q = buffer;
      for (i = 0; i < 16; i++) {
          if ((c = *pc++ - 0x20) > 0x5e)
              c = '.' - 0x20;
          p = &oled_font_8x16[c * 4];
          *q++ = *p++;
          *q++ = *p++;
          q[32-2] = *p++;
          q[32-1] = *p++;
      }
  }
  \<close>
  In iteration \<open>i\<close> the pointer \<^verbatim>\<open>q\<close> starts at word \<open>2 * i\<close>; after the two
  increments \<^verbatim>\<open>q[32-2]\<close> is word \<open>2 * i + 32\<close>. \<open>pc\<close> is the offset of the row in
  \<open>text_buf\<close>.
\<close>

definition oled_convert_text_row_8x16 :: "(nat \<Rightarrow> u32) \<Rightarrow> nat \<Rightarrow> lcd_state \<Rightarrow> lcd_state" where
  "oled_convert_text_row_8x16 f pc s =
     fold (\<lambda>i s.
        let c = glyph_index (text_buf s (pc + i));
            b = store32 (buffer s) (2 * i) (f (c * 4));
            b = store32 b (2 * i + 1) (f (c * 4 + 1));
            b = store32 b (2 * i + 32) (f (c * 4 + 2));
            b = store32 b (2 * i + 33) (f (c * 4 + 3))
        in s\<lparr>buffer := b\<rparr>) [0..<16] s"

text \<open>
  With \<^verbatim>\<open>font_7x16\<close>:
  \<^verbatim>\<open>
  static void oled_convert_text_row(char *pc)
  {
      unsigned int i, c;
      const uint8_t *p;
      uint8_t *q = (uint8_t *)buffer;
      for (i = 0; i < 16; i++) {
          if ((c = *pc++ - 0x20) > 0x5e)
              c = '.' - 0x20;
          p = &oled_font_7x16[c * 14];
          memcpy(q, p, 7);
          memcpy(q+128, p+7, 7);
          q += 7;
      }
      memset(q, 0, 16);
      memset(q+128, 0, 16);
  }
  \<close>
\<close>

definition memcpy_font :: "(nat \<Rightarrow> u8) \<Rightarrow> nat \<Rightarrow> (nat \<Rightarrow> u8) \<Rightarrow> nat \<Rightarrow> nat \<Rightarrow> (nat \<Rightarrow> u8)" where
  "memcpy_font b dst f src n = fold (\<lambda>k b. b(dst + k := f (src + k))) [0..<n] b"

definition memset_buf :: "(nat \<Rightarrow> u8) \<Rightarrow> nat \<Rightarrow> u8 \<Rightarrow> nat \<Rightarrow> (nat \<Rightarrow> u8)" where
  "memset_buf b dst v n = fold (\<lambda>k b. b(dst + k := v)) [0..<n] b"

definition oled_convert_text_row_7x16 :: "(nat \<Rightarrow> u8) \<Rightarrow> nat \<Rightarrow> lcd_state \<Rightarrow> lcd_state" where
  "oled_convert_text_row_7x16 f pc s =
     (let s = fold (\<lambda>i s.
                let c = glyph_index (text_buf s (pc + i));
                    q = 7 * i;
                    b = memcpy_font (buffer s) q f (c * 14) 7;
                    b = memcpy_font b (q + 128) f (c * 14 + 7) 7
                in s\<lparr>buffer := b\<rparr>) [0..<16] s;
          q = 7 * 16;
          b = memset_buf (buffer s) q 0 16;
          b = memset_buf b (q + 128) 0 16
      in s\<lparr>buffer := b\<rparr>)"

definition oled_convert_text_row :: "platform \<Rightarrow> nat \<Rightarrow> lcd_state \<Rightarrow> lcd_state" where
  "oled_convert_text_row h pc s =
     (case oled_font h of
        Font_7x16 f \<Rightarrow> oled_convert_text_row_7x16 f pc s
      | Font_8x16 f \<Rightarrow> oled_convert_text_row_8x16 f pc s)"

text \<open>
  \<^verbatim>\<open>
  static unsigned int oled_start_i2c(uint8_t *buf)
  {
      static const uint8_t setup_addr_cmds[] = {
          0x20, 0,      /* horizontal addressing mode */
          0x21, 0, 127, /* column address range: 0-127 */
          0x22, 0, 3    /* page address range: 0-3 */
      };
      uint8_t *p = buf;
      int i;
      for (i = 0; i < sizeof(setup_addr_cmds); i++) {
          *p++ = 0x80; /* Co=1, Command */
          *p++ = setup_addr_cmds[i];
      }
      *p++ = 0x80;
      *p++ = _bl ? 0xaf : 0xae;
      *p++ = 0x40;
      oled_row = 0;
      i2c->cr2 |= I2C_CR2_ITEVTEN;
      i2c->cr1 |= I2C_CR1_START;
      return p - buf;
  }
  \<close>
  \<open>buf\<close> is a byte offset into \<open>buffer\<close>.
\<close>

definition setup_addr_cmds :: "u8 list" where
  "setup_addr_cmds = [0x20, 0, 0x21, 0, 127, 0x22, 0, 3]"

text \<open>The loop shared by \<^verbatim>\<open>oled_start_i2c\<close> and \<^verbatim>\<open>oled_init\<close>: each command byte
  of the table goes out behind the control byte 0x80.\<close>

definition emit_cmds :: "u8 list \<Rightarrow> nat \<times> lcd_state \<Rightarrow> nat \<times> lcd_state" where
  "emit_cmds cmds ps =
     fold (\<lambda>i (p, s). (p + 2, s\<lparr>buffer := (buffer s)(p := 0x80, p + 1 := cmds ! i)\<rparr>))
       [0..<length cmds] ps"

definition oled_start_i2c :: "nat \<Rightarrow> lcd_state \<Rightarrow> nat \<times> lcd_state" where
  "oled_start_i2c buf s =
     (let (p, s) = emit_cmds setup_addr_cmds (buf, s);
          s = s\<lparr>buffer := (buffer s)(p := 0x80)\<rparr>;
          s = s\<lparr>buffer := (buffer s)(p + 1 := (if bl s \<noteq> 0 then 0xaf else 0xae))\<rparr>;
          s = s\<lparr>buffer := (buffer s)(p + 2 := 0x40)\<rparr>;
          p = p + 3;
          s = s\<lparr>oled_row := 0\<rparr>;
          s = s\<lparr>i2c_cr2 := insert I2C_CR2_ITEVTEN (i2c_cr2 s)\<rparr>;
          s = s\<lparr>i2c_cr1 := insert I2C_CR1_START (i2c_cr1 s)\<rparr>
      in (p - buf, s))"

text \<open>
  The two polling loops of \<^verbatim>\<open>oled_prep_buffer\<close>:
  \<^verbatim>\<open>
          while (!(i2c->sr1 & I2C_SR1_BTF)) {
              if (i2c->sr1 & I2C_SR1_ERRORS)
                  return 0;
          }
  \<close>
  returns the remaining reads of \<^verbatim>\<open>i2c->sr1\<close>, with \<open>True\<close> when BTF was seen and
  \<open>False\<close> when an error was seen first, and
  \<^verbatim>\<open>
          while (i2c->cr1 & I2C_CR1_STOP)
              continue;
  \<close>
  returns the remaining reads of the STOP bit.
\<close>

fun oled_wait_btf :: "sr1_flag set list \<Rightarrow> (bool \<times> sr1_flag set list) result" where
  "oled_wait_btf [] = Inl Env_exhausted"
| "oled_wait_btf (r # rs) =
     (if I2C_SR1_BTF \<in> r then Inr (True, rs)
      else (case rs of
              [] \<Rightarrow> Inl Env_exhausted
            | r' # rs' \<Rightarrow> if sr1_has_errors r' then Inr (False, rs') else oled_wait_btf rs'))"

fun wait_stop_loop :: "bool list \<Rightarrow> bool list result" where
  "wait_stop_loop [] = Inl Env_exhausted"
| "wait_stop_loop (b # bs) = (if b then wait_stop_loop bs else Inr bs)"

definition wait_stop :: "lcd_state \<Rightarrow> lcd_state result" where
  "wait_stop s =
     seq (wait_stop_loop (stop_in s))
       (\<lambda>bs. Inr (s\<lparr>stop_in := bs, i2c_cr1 := i2c_cr1 s - {I2C_CR1_STOP}\<rparr>))"

text \<open>
  \<^verbatim>\<open>
  static unsigned int oled_prep_buffer(void)
  {
      if (oled_row == 2) {
          refresh_count++;
          /* Wait for BTF. */
          while (!(i2c->sr1 & I2C_SR1_BTF)) {
              /* Any errors: bail and leave it to the Error ISR. */
              if (i2c->sr1 & I2C_SR1_ERRORS)
                  return 0;
          }
          /* Send STOP. Clears SR1_TXE and SR1_BTF. */
          i2c->cr1 |= I2C_CR1_STOP;
          while (i2c->cr1 & I2C_CR1_STOP)
              continue;
          /* Kick off new I2C transaction. */
          return oled_start_i2c((uint8_t *)buffer);
      }
      /* Convert one row of text[] into buffer[] writes. */
      oled_convert_text_row(text[oled_row++]);
      return 256;
  }
  \<close>
  \<^verbatim>\<open>text\<close> has two rows: \<^verbatim>\<open>text[oled_row]\<close> with a cursor above 2 is outside it.
\<close>

definition oled_prep_buffer :: "platform \<Rightarrow> lcd_state \<Rightarrow> (nat \<times> lcd_state) result" where
  "oled_prep_buffer h s =
     (if oled_row s = 2 then
        (let s = s\<lparr>refresh_count := refresh_count s + 1\<rparr> in
         seq (oled_wait_btf (sr1_in s)) (\<lambda>(btf, rs).
           let s = s\<lparr>sr1_in := rs\<rparr> in
           if \<not> btf then Inr (0, s)
           else
             let s = s\<lparr>i2c_cr1 := insert I2C_CR1_STOP (i2c_cr1 s),
                      events := events s @ [Ev_stop]\<rparr> in
             seq (wait_stop s) (\<lambda>s. Inr (oled_start_i2c 0 s))))
      else if unat (oled_row s) < 2 then
        (let row = unat (oled_row s);
             s = s\<lparr>oled_row := oled_row s + 1\<rparr>;
             s = oled_convert_text_row h (16 * row) s
         in Inr (256, s))
      else Inl Out_of_bounds)"

subsection \<open>The DMA-completion interrupt and lcd\_sync\<close>

text \<open>
  \<^verbatim>\<open>
  static void IRQ_dma1_ch4_tc(void)
  {
      unsigned int dma_sz;
      /* Clear the DMA controller. */
      dma1->ch4.ccr = 0;
      dma1->ifcr = DMA_IFCR_CGIF(4);
      /* Prepare the DMA buffer and start the next DMA sequence. */
      dma_sz = (i2c_addr == OLED_ADDR) ? oled_prep_buffer() : lcd_prep_buffer();
      dma_start(dma_sz);
  }
  \<close>
\<close>

definition IRQ_dma1_ch4_tc :: "platform \<Rightarrow> lcd_state \<Rightarrow> lcd_state result" where
  "IRQ_dma1_ch4_tc h s =
     (let s = s\<lparr>dma_ccr := {}\<rparr>;
          s = s\<lparr>dma_ch4_flags := False\<rparr>
      in seq (if i2c_addr s = OLED_ADDR then oled_prep_buffer h s else Inr (lcd_prep_buffer s))
           (\<lambda>(dma_sz, s). dma_start h dma_sz s))"

text \<open>
  \<open>n\<close> DMA completions in a row: each time the hardware raises the channel's flag and
  the handler runs.
\<close>

fun serve_irqs :: "platform \<Rightarrow> nat \<Rightarrow> lcd_state \<Rightarrow> lcd_state result" where
  "serve_irqs h 0 s = Inr s"
| "serve_irqs h (Suc n) s =
     (case IRQ_dma1_ch4_tc h (s\<lparr>dma_ch4_flags := True\<rparr>) of
        Inl e \<Rightarrow> Inl e
      | Inr s' \<Rightarrow> serve_irqs h n s')"

text \<open>
  \<^verbatim>\<open>
  void lcd_sync(void)
  {
      uint8_t c = refresh_count;
      while ((uint8_t)(refresh_count - c) < 2)
          cpu_relax();
  }
  \<close>
  \<^verbatim>\<open>refresh_count\<close> is volatile and only the interrupt handler changes it: before each
  evaluation of the loop condition the next number of \<open>irq_in\<close> tells how many
  DMA-completion interrupts are served. The subtraction is the 8-bit one.
\<close>

fun lcd_sync_loop :: "platform \<Rightarrow> u8 \<Rightarrow> nat list \<Rightarrow> lcd_state \<Rightarrow> lcd_state result" where
  "lcd_sync_loop h c [] s = Inl Env_exhausted"
| "lcd_sync_loop h c (n # ns) s =
     (case serve_irqs h n s of
        Inl e \<Rightarrow> Inl e
      | Inr s' \<Rightarrow>
          if unat (refresh_count s' - c) < 2 then lcd_sync_loop h c ns s'
          else Inr (s'\<lparr>irq_in := ns\<rparr>))"

definition lcd_sync :: "platform \<Rightarrow> lcd_state \<Rightarrow> lcd_state result" where
  "lcd_sync h s = (let c = refresh_count s in lcd_sync_loop h c (irq_in s) s)"

subsection \<open>Synchronous bus operations\<close>

text \<open>
  \<^verbatim>\<open>
  static bool_t i2c_wait(uint8_t s)
  {
      stk_time_t t = stk_now();
      while ((i2c->sr1 & s) != s) {
          if (i2c->sr1 & I2C_SR1_ERRORS) {
              i2c->sr1 &= ~I2C_SR1_ERRORS;
              return FALSE;
          }
          if (stk_diff(t, stk_now()) > stk_ms(10)) {
              /* I2C bus seems to be locked up. */
              i2c_dead = TRUE;
              return FALSE;
          }
      }
      return TRUE;
  }
  \<close>
  Every mention of \<^verbatim>\<open>i2c->sr1\<close> is a read of the volatile register, the compound
  assignment included (it reads, masks and writes back). The loop takes the status
  mask \<open>m\<close>, the start time \<open>t\<close>, and the reads of \<^verbatim>\<open>i2c->sr1\<close> and \<^verbatim>\<open>stk_now()\<close>
  still to come.
\<close>

fun i2c_wait_loop ::
  "platform \<Rightarrow> sr1_flag set \<Rightarrow> nat \<Rightarrow> sr1_flag set list \<Rightarrow> nat list \<Rightarrow> lcd_state
     \<Rightarrow> (bool \<times> lcd_state) result"
where
  "i2c_wait_loop h m t [] nows s = Inl Env_exhausted"
| "i2c_wait_loop h m t (r # rs) nows s =
     (if m \<subseteq> r then Inr (True, s\<lparr>sr1_in := rs, now_in := nows\<rparr>)
      else
        (case rs of
           [] \<Rightarrow> Inl Env_exhausted
         | r' # rs' \<Rightarrow>
             if sr1_has_errors r' then
               (case rs' of
                  [] \<Rightarrow> Inl Env_exhausted
                | r'' # rs'' \<Rightarrow>
                    Inr (False, s\<lparr>sr1_in := rs'', now_in := nows,
                                   i2c_sr1_written := Some (sr1_clear_errors r'')\<rparr>))
             else
               (case nows of
                  [] \<Rightarrow> Inl Env_exhausted
                | n # nows' \<Rightarrow>
                    if stk_diff h t n > stk_ms h 10 then
                      Inr (False, s\<lparr>sr1_in := rs', now_in := nows', i2c_dead := True\<rparr>)
                    else i2c_wait_loop h m t rs' nows' s)))"

definition i2c_wait :: "platform \<Rightarrow> sr1_flag set \<Rightarrow> lcd_state \<Rightarrow> (bool \<times> lcd_state) result" where
  "i2c_wait h m s =
     (case now_in s of
        [] \<Rightarrow> Inl Env_exhausted
      | t # nows \<Rightarrow> i2c_wait_loop h m t (sr1_in s) nows s)"

text \<open>A write to \<^verbatim>\<open>i2c->dr\<close> by a synchronous routine.\<close>

definition dr_write :: "nat \<Rightarrow> lcd_state \<Rightarrow> lcd_state" where
  "dr_write v s = s\<lparr>events := events s @ [Ev_dr_write v]\<rparr>"

text \<open>
  \<^verbatim>\<open>
  static bool_t i2c_start(uint8_t a)
  {
      i2c->cr1 |= I2C_CR1_START;
      if (!i2c_wait(I2C_SR1_SB))
          return FALSE;
      i2c->dr = a << 1;
      if (!i2c_wait(I2C_SR1_ADDR))
          return FALSE;
      (void)i2c->sr2;
      return TRUE;
  }
  \<close>
  \<^verbatim>\<open>a << 1\<close> is computed as an \<^verbatim>\<open>int\<close>. The read of \<^verbatim>\<open>i2c->sr2\<close> acknowledges the
  address phase in the peripheral and leaves no mark in the state.
\<close>

definition i2c_start :: "platform \<Rightarrow> u8 \<Rightarrow> lcd_state \<Rightarrow> (bool \<times> lcd_state) result" where
  "i2c_start h a s =
     (let s = s\<lparr>i2c_cr1 := insert I2C_CR1_START (i2c_cr1 s)\<rparr> in
      seq (i2c_wait h {I2C_SR1_SB} s) (\<lambda>(ok, s).
        if \<not> ok then Inr (False, s)
        else
          let s = dr_write (2 * unat a) s in
          seq (i2c_wait h {I2C_SR1_ADDR} s) (\<lambda>(ok, s).
            if \<not> ok then Inr (False, s) else Inr (True, s))))"

text \<open>
  \<^verbatim>\<open>
  static bool_t i2c_cmd(uint8_t cmd)
  {
      i2c->dr = cmd;
      return i2c_wait(I2C_SR1_BTF);
  }
  static void write4(uint8_t val)
  {
      i2c_cmd(val);
      i2c_cmd(val | _EN);
      i2c_cmd(val);
  }
  \<close>
\<close>

definition i2c_cmd :: "platform \<Rightarrow> u8 \<Rightarrow> lcd_state \<Rightarrow> (bool \<times> lcd_state) result" where
  "i2c_cmd h cmd s = i2c_wait h {I2C_SR1_BTF} (dr_write (unat cmd) s)"

definition write4 :: "platform \<Rightarrow> u8 \<Rightarrow> lcd_state \<Rightarrow> lcd_state result" where
  "write4 h val s =
     seq (i2c_cmd h val s) (\<lambda>(ok, s).
     seq (i2c_cmd h (val OR EN) s) (\<lambda>(ok, s).
     seq (i2c_cmd h val s) (\<lambda>(ok, s). Inr s)))"

text \<open>
  \<^verbatim>\<open>
  static bool_t i2c_probe(uint8_t a)
  {
      if (!i2c_start(a) || !i2c_cmd(0))
          return FALSE;
      i2c->cr1 |= I2C_CR1_STOP;
      while (i2c->cr1 & I2C_CR1_STOP)
          continue;
      return TRUE;
  }
  \<close>
\<close>

definition i2c_probe :: "platform \<Rightarrow> u8 \<Rightarrow> lcd_state \<Rightarrow> (bool \<times> lcd_state) result" where
  "i2c_probe h a s =
     seq (i2c_start h a s) (\<lambda>(ok, s).
       if \<not> ok then Inr (False, s)
       else
         seq (i2c_cmd h 0 s) (\<lambda>(ok, s).
           if \<not> ok then Inr (False, s)
           else
             let s = s\<lparr>i2c_cr1 := insert I2C_CR1_STOP (i2c_cr1 s),
                      events := events s @ [Ev_stop]\<rparr> in
             seq (wait_stop s) (\<lambda>s. Inr (True, s))))"

text \<open>
  \<^verbatim>\<open>
  static uint8_t i2c_probe_range(uint8_t s, uint8_t e)
  {
      uint8_t a;
      for (a = s; (a <= e) && !i2c_dead; a++)
          if (i2c_probe(a))
              return a;
      return 0;
  }
  \<close>
  \<^verbatim>\<open>a++\<close> is the 8-bit increment, so the counter alone does not bound the loop; every
  probe reads \<^verbatim>\<open>stk_now()\<close> at least once, and the recorded clock readings do.
\<close>

lemma i2c_wait_loop_now:
  "i2c_wait_loop h m t rs nows s = Inr (ok, s') \<Longrightarrow> length (now_in s') \<le> length nows"
proof (induction h m t rs nows s rule: i2c_wait_loop.induct)
  case (1 h m t nows s)
  then show ?case by simp
next
  case (2 h m t r rs nows s)
  show ?case
  proof (cases "m \<subseteq> r")
    case True
    with "2.prems" show ?thesis by auto
  next
    case nm: False
    show ?thesis
    proof (cases rs)
      case Nil
      with nm "2.prems" show ?thesis by simp
    next
      case rc: (Cons r' rs')
      show ?thesis
      proof (cases "sr1_has_errors r'")
        case True
        with nm rc "2.prems" show ?thesis by (cases rs') auto
      next
        case ne: False
        show ?thesis
        proof (cases nows)
          case Nil
          with nm rc ne "2.prems" show ?thesis by simp
        next
          case nc: (Cons n nows')
          show ?thesis
          proof (cases "stk_diff h t n > stk_ms h 10")
            case True
            with nm rc ne nc "2.prems" show ?thesis by auto
          next
            case nt: False
            with nm rc ne nc "2.prems"
            have "i2c_wait_loop h m t rs' nows' s = Inr (ok, s')" by simp
            from "2.IH" [OF nm rc ne nc nt this] nc show ?thesis by simp
          qed
        qed
      qed
    qed
  qed
qed

lemma i2c_wait_now:
  "i2c_wait h m s = Inr (ok, s') \<Longrightarrow> length (now_in s') < length (now_in s)"
  by (auto simp: i2c_wait_def split: list.splits dest!: i2c_wait_loop_now)

lemma wait_stop_now: "wait_stop s = Inr s' \<Longrightarrow> now_in s' = now_in s"
  by (auto simp: wait_stop_def seq_def split: sum.splits)

lemma i2c_start_now:
  "i2c_start h a s = Inr (ok, s') \<Longrightarrow> length (now_in s') < length (now_in s)"
  by (fastforce simp: i2c_start_def seq_def Let_def dr_write_def
        split: sum.splits if_splits prod.splits dest!: i2c_wait_now)

lemma i2c_cmd_now:
  "i2c_cmd h a s = Inr (ok, s') \<Longrightarrow> length (now_in s') < length (now_in s)"
  by (fastforce simp: i2c_cmd_def dr_write_def dest!: i2c_wait_now)

lemma i2c_probe_now:
  "i2c_probe h a s = Inr (ok, s') \<Longrightarrow> length (now_in s') < length (now_in s)"
  by (fastforce simp: i2c_probe_def seq_def Let_def
        split: sum.splits if_splits prod.splits
        dest!: i2c_start_now i2c_cmd_now wait_stop_now)

function i2c_probe_range :: "platform \<Rightarrow> u8 \<Rightarrow> u8 \<Rightarrow> lcd_state \<Rightarrow> (u8 \<times> lcd_state) result" where
  "i2c_probe_range h a e s =
     (if a \<le> e \<and> \<not> i2c_dead s then
        (case i2c_probe h a s of
           Inl f \<Rightarrow> Inl f
         | Inr (ok, s') \<Rightarrow> if ok then Inr (a, s') else i2c_probe_range h (a + 1) e s')
      else Inr (0, s))"
  by pat_completeness auto
termination
  by (relation "measure (\<lambda>(h, a, e, s). length (now_in s))") (auto dest: i2c_probe_now)

subsection \<open>Pins and interrupt controller\<close>

text \<open>
  \<^verbatim>\<open>gpio_configure_pin\<close>, \<^verbatim>\<open>gpio_write_pin\<close>, \<^verbatim>\<open>gpio_read_pin\<close> on port B, and
  \<^verbatim>\<open>IRQx_set_prio\<close>, \<^verbatim>\<open>IRQx_clear_pending\<close>, \<^verbatim>\<open>IRQx_enable\<close>, \<^verbatim>\<open>IRQx_disable\<close>
  belong to the hardware layer; they are modelled by their effect on the state.
  Configuring a pin as open-drain output sets its level as well.
\<close>

definition gpio_configure_pin :: "pin \<Rightarrow> pin_mode \<Rightarrow> lcd_state \<Rightarrow> lcd_state" where
  "gpio_configure_pin p m s =
     s\<lparr>pin_cfg := (pin_cfg s)(p \<mapsto> m),
       pin_out := (case m of GPO_opendrain lvl \<Rightarrow> (pin_out s)(p := lvl) | _ \<Rightarrow> pin_out s),
       events := events s @ [Ev_gpio_configure p m]\<rparr>"

definition gpio_write_pin :: "pin \<Rightarrow> bool \<Rightarrow> lcd_state \<Rightarrow> lcd_state" where
  "gpio_write_pin p lvl s = s\<lparr>pin_out := (pin_out s)(p := lvl)\<rparr>"

definition gpio_read_pin :: "pin \<Rightarrow> lcd_state \<Rightarrow> (bool \<times> lcd_state) result" where
  "gpio_read_pin p s =
     (case pin_in s of [] \<Rightarrow> Inl Env_exhausted | b # bs \<Rightarrow> Inr (b, s\<lparr>pin_in := bs\<rparr>))"

definition IRQx_set_prio :: "nat \<Rightarrow> nat \<Rightarrow> lcd_state \<Rightarrow> lcd_state" where
  "IRQx_set_prio irq pri s = s\<lparr>irq_prio := (irq_prio s)(irq \<mapsto> pri)\<rparr>"

definition IRQx_clear_pending :: "nat \<Rightarrow> lcd_state \<Rightarrow> lcd_state" where
  "IRQx_clear_pending irq s = s\<lparr>irq_pending := irq_pending s - {irq}\<rparr>"

definition IRQx_enable :: "nat \<Rightarrow> lcd_state \<Rightarrow> lcd_state" where
  "IRQx_enable irq s = s\<lparr>irq_enabled := insert irq (irq_enabled s)\<rparr>"

definition IRQx_disable :: "nat \<Rightarrow> lcd_state \<Rightarrow> lcd_state" where
  "IRQx_disable irq s = s\<lparr>irq_enabled := irq_enabled s - {irq}\<rparr>"

subsection \<open>Initialisation\<close>

text \<open>
  \<^verbatim>\<open>
  static void oled_init(void)
  {
      static const uint8_t init_cmds[] = {
          0xd5, 0x80, 0xa8, 31, 0xd3, 0x00, 0x40, 0x8d, 0x14, 0xa1, 0xc8,
          0xda, 0x02, 0x81, 0x8f, 0xd9, 0xf1, 0xdb, 0x20, 0xa4, 0xa6, 0x2e,
      };
      uint8_t *p = (uint8_t *)buffer;
      int i;
      /* Disable I2C (currently in Standard Mode). */
      i2c->cr1 = 0;
      /* Fast Mode (400kHz). */
      i2c->cr2 = I2C_CR2_FREQ(36);
      i2c->ccr = I2C_CCR_FS | I2C_CCR_CCR(30);
      i2c->trise = 12;
      i2c->cr1 = I2C_CR1_PE;
      i2c->cr2 |= I2C_CR2_ITERREN;
      /* Initialisation sequence for SSD1306. */
      for (i = 0; i < sizeof(init_cmds); i++) {
          *p++ = 0x80; /* Co=1, Command */
          *p++ = init_cmds[i];
      }
      /* Start off the I2C transaction. */
      p += oled_start_i2c(p);
      /* Send the initialisation command sequence by DMA. */
      i2c->cr2 |= I2C_CR2_DMAEN;
      dma_start(p - (uint8_t *)buffer);
  }
  \<close>
  (the comments of the table are left out here).
\<close>

definition init_cmds :: "u8 list" where
  "init_cmds = [0xd5, 0x80, 0xa8, 31, 0xd3, 0x00, 0x40, 0x8d, 0x14, 0xa1, 0xc8,
                0xda, 0x02, 0x81, 0x8f, 0xd9, 0xf1, 0xdb, 0x20, 0xa4, 0xa6, 0x2e]"

definition oled_init :: "platform \<Rightarrow> lcd_state \<Rightarrow> lcd_state result" where
  "oled_init h s =
     (let s = s\<lparr>i2c_cr1 := {}\<rparr>;
          s = s\<lparr>i2c_cr2 := {I2C_CR2_FREQ 36}\<rparr>;
          s = s\<lparr>i2c_ccr := {I2C_CCR_FS, I2C_CCR_CCR 30}\<rparr>;
          s = s\<lparr>i2c_trise := 12\<rparr>;
          s = s\<lparr>i2c_cr1 := {I2C_CR1_PE}\<rparr>;
          s = s\<lparr>i2c_cr2 := insert I2C_CR2_ITERREN (i2c_cr2 s)\<rparr>;
          (p, s) = emit_cmds init_cmds (0, s);
          (n, s) = oled_start_i2c p s;
          p = p + n;
          s = s\<lparr>i2c_cr2 := insert I2C_CR2_DMAEN (i2c_cr2 s)\<rparr>
      in dma_start h p s)"

text \<open>
  \<^verbatim>\<open>lcd_init\<close> in the order of the source. First the bus check:
  \<^verbatim>\<open>
      gpio_configure_pin(gpiob, SCL, GPO_opendrain(_2MHz, HIGH));
      gpio_configure_pin(gpiob, SDA, GPO_opendrain(_2MHz, HIGH));
      delay_us(10);
      if (gpio_read_pin(gpiob, SCL) && !gpio_read_pin(gpiob, SDA)) {
          printk("I2C: SDA held by slave? Fixing... ");
          gpio_write_pin(gpiob, SDA, FALSE);
          gpio_write_pin(gpiob, SCL, FALSE);
          delay_us(10);
          gpio_write_pin(gpiob, SCL, TRUE);
          delay_us(10);
          gpio_write_pin(gpiob, SDA, TRUE);
          delay_us(10);
          printk("%s\n",
                 !gpio_read_pin(gpiob, SCL) || !gpio_read_pin(gpiob, SDA)
                 ? "Still held" : "Done");
      }
  \<close>
  \<^verbatim>\<open>printk\<close> and \<^verbatim>\<open>delay_us\<close> leave no mark in the state; the pin reads in the
  argument of \<^verbatim>\<open>printk\<close> are made all the same (\<^verbatim>\<open>||\<close> reads SDA only when SCL is
  high).
\<close>

definition lcd_init_unwedge :: "lcd_state \<Rightarrow> lcd_state result" where
  "lcd_init_unwedge s =
     (let s = gpio_configure_pin SCL (GPO_opendrain True) s;
          s = gpio_configure_pin SDA (GPO_opendrain True) s
      in seq (gpio_read_pin SCL s) (\<lambda>(scl, s).
         if \<not> scl then Inr s
         else
           seq (gpio_read_pin SDA s) (\<lambda>(sda, s).
             if sda then Inr s
             else
               let s = gpio_write_pin SDA False s;
                   s = gpio_write_pin SCL False s;
                   s = gpio_write_pin SCL True s;
                   s = gpio_write_pin SDA True s
               in seq (gpio_read_pin SCL s) (\<lambda>(scl, s).
                    if \<not> scl then Inr s
                    else seq (gpio_read_pin SDA s) (\<lambda>(sda, s). Inr s)))))"

text \<open>
  The floating-bus check:
  \<^verbatim>\<open>
          gpio_configure_pin(gpiob, SCL, GPI_pull_down);
          gpio_configure_pin(gpiob, SDA, GPI_pull_down);
          delay_us(10);
          if (!gpio_read_pin(gpiob, SCL) || !gpio_read_pin(gpiob, SDA)) {
              printk("I2C: Invalid bus\n");
              goto fail;
          }
  \<close>
  The result is \<open>True\<close> when both pins read high.
\<close>

definition lcd_init_check_bus :: "lcd_state \<Rightarrow> (bool \<times> lcd_state) result" where
  "lcd_init_check_bus s =
     (let s = gpio_configure_pin SCL GPI_pull_down s;
          s = gpio_configure_pin SDA GPI_pull_down s
      in seq (gpio_read_pin SCL s) (\<lambda>(scl, s).
         if \<not> scl then Inr (False, s)
         else seq (gpio_read_pin SDA s) (\<lambda>(sda, s). Inr (sda, s))))"

text \<open>
  \<^verbatim>\<open>
  fail:
      if (reinit)
          return FALSE;
      IRQx_disable(I2C_ERROR_IRQ);
      IRQx_disable(DMA1_CH4_IRQ);
      i2c->cr1 &= ~I2C_CR1_PE;
      gpio_configure_pin(gpiob, SCL, GPI_pull_up);
      gpio_configure_pin(gpiob, SDA, GPI_pull_up);
      rcc->apb1enr &= ~RCC_APB1ENR_I2C2EN;
      return FALSE;
  \<close>
\<close>

definition lcd_init_fail :: "bool \<Rightarrow> lcd_state \<Rightarrow> bool \<times> lcd_state" where
  "lcd_init_fail reinit s =
     (if reinit then (False, s)
      else
        let s = IRQx_disable I2C_ERROR_IRQ s;
            s = IRQx_disable DMA1_CH4_IRQ s;
            s = s\<lparr>i2c_cr1 := i2c_cr1 s - {I2C_CR1_PE}\<rparr>;
            s = gpio_configure_pin SCL GPI_pull_up s;
            s = gpio_configure_pin SDA GPI_pull_up s;
            s = s\<lparr>rcc_apb1enr := rcc_apb1enr s - {RCC_APB1ENR_I2C2EN}\<rparr>
        in (False, s))"

text \<open>
  The scan:
  \<^verbatim>\<open>
          a = i2c_probe_range(0x20, 0x27) ?: i2c_probe_range(0x38, 0x3f);
  \<close>
\<close>

definition lcd_init_scan :: "platform \<Rightarrow> lcd_state \<Rightarrow> (u8 \<times> lcd_state) result" where
  "lcd_init_scan h s =
     seq (i2c_probe_range h 0x20 0x27 s) (\<lambda>(a, s).
       if a \<noteq> 0 then Inr (a, s) else i2c_probe_range h 0x38 0x3f s)"

text \<open>
  From \<^verbatim>\<open>/* Enable the Event IRQ. */\<close> to the end of \<^verbatim>\<open>lcd_init\<close>:
  \<^verbatim>\<open>
      IRQx_set_prio(I2C_EVENT_IRQ, I2C_IRQ_PRI);
      IRQx_clear_pending(I2C_EVENT_IRQ);
      IRQx_enable(I2C_EVENT_IRQ);
      IRQx_set_prio(I2C_ERROR_IRQ, I2C_IRQ_PRI);
      IRQx_clear_pending(I2C_ERROR_IRQ);
      IRQx_enable(I2C_ERROR_IRQ);
      i2c->cr2 |= I2C_CR2_ITERREN;
      dma1->ch4.cpar = (uint32_t)(unsigned long)&i2c->dr;
      dma1->ifcr = DMA_IFCR_CGIF(4);
      IRQx_set_prio(DMA1_CH4_IRQ, I2C_IRQ_PRI);
      IRQx_clear_pending(DMA1_CH4_IRQ);
      IRQx_enable(DMA1_CH4_IRQ);
      timer_init(&timeout_timer, timeout_fn, NULL);
      timer_set(&timeout_timer, stk_add(stk_now(), DMA_TIMEOUT));
      if (i2c_addr == OLED_ADDR) {
          oled_init();
          return TRUE;
      }
      if (!i2c_start(i2c_addr))
          goto fail;
      write4(3 << 4);
      delay_us(4100);
      write4(3 << 4);
      delay_us(100);
      write4(3 << 4);
      write4(2 << 4);
      p = (uint8_t *)buffer;
      emit8(&p, CMD_FUNCTIONSET | FS_2LINE, 0);
      emit8(&p, CMD_DISPLAYCTL, 0);
      emit8(&p, CMD_ENTRYMODE | 2, 0);
      emit8(&p, CMD_DISPLAYCTL | 4, 0); /* display on */
      i2c->cr2 |= I2C_CR2_DMAEN;
      dma_start(p - (uint8_t *)buffer);
      if (!reinit) {
          lcd_sync();
          lcd_backlight(TRUE);
      }
      return TRUE;
  \<close>
  \<^verbatim>\<open>timer_init\<close> leaves the timer unarmed.
\<close>

definition lcd_init_irqs :: "platform \<Rightarrow> lcd_state \<Rightarrow> lcd_state result" where
  "lcd_init_irqs h s =
     (let s = IRQx_set_prio I2C_EVENT_IRQ (I2C_IRQ_PRI h) s;
          s = IRQx_clear_pending I2C_EVENT_IRQ s;
          s = IRQx_enable I2C_EVENT_IRQ s;
          s = IRQx_set_prio I2C_ERROR_IRQ (I2C_IRQ_PRI h) s;
          s = IRQx_clear_pending I2C_ERROR_IRQ s;
          s = IRQx_enable I2C_ERROR_IRQ s;
          s = s\<lparr>i2c_cr2 := insert I2C_CR2_ITERREN (i2c_cr2 s)\<rparr>;
          s = s\<lparr>dma_cpar := Some Addr_i2c_dr\<rparr>;
          s = s\<lparr>dma_ch4_flags := False\<rparr>;
          s = IRQx_set_prio DMA1_CH4_IRQ (I2C_IRQ_PRI h) s;
          s = IRQx_clear_pending DMA1_CH4_IRQ s;
          s = IRQx_enable DMA1_CH4_IRQ s;
          s = timer_init s
      in seq (stk_now s) (\<lambda>(t, s). Inr (timer_set (stk_add h t (DMA_TIMEOUT h)) s)))"

definition lcd_init_hd44780 :: "platform \<Rightarrow> bool \<Rightarrow> lcd_state \<Rightarrow> (bool \<times> lcd_state) result" where
  "lcd_init_hd44780 h reinit s =
     seq (i2c_start h (i2c_addr s) s) (\<lambda>(ok, s).
       if \<not> ok then Inr (lcd_init_fail reinit s)
       else
         seq (write4 h (push_bit 4 3) s) (\<lambda>s.
         seq (write4 h (push_bit 4 3) s) (\<lambda>s.
         seq (write4 h (push_bit 4 3) s) (\<lambda>s.
         seq (write4 h (push_bit 4 2) s) (\<lambda>s.
           let (p, s) = emit8 0 (CMD_FUNCTIONSET OR FS_2LINE) 0 s;
               (p, s) = emit8 p CMD_DISPLAYCTL 0 s;
               (p, s) = emit8 p (CMD_ENTRYMODE OR 2) 0 s;
               (p, s) = emit8 p (CMD_DISPLAYCTL OR 4) 0 s;
               s = s\<lparr>i2c_cr2 := insert I2C_CR2_DMAEN (i2c_cr2 s)\<rparr>
           in seq (dma_start h p s) (\<lambda>s.
                if \<not> reinit then
                  seq (lcd_sync h s) (\<lambda>s. Inr (True, lcd_backlight True s))
                else Inr (True, s)))))))"

definition lcd_init_tail :: "platform \<Rightarrow> bool \<Rightarrow> lcd_state \<Rightarrow> (bool \<times> lcd_state) result" where
  "lcd_init_tail h reinit s =
     seq (lcd_init_irqs h s) (\<lambda>s.
       if i2c_addr s = OLED_ADDR then seq (oled_init h s) (\<lambda>s. Inr (True, s))
       else lcd_init_hd44780 h reinit s)"

text \<open>
  The head of \<^verbatim>\<open>lcd_init\<close>, which ties the parts together:
  \<^verbatim>\<open>
  bool_t lcd_init(void)
  {
      uint8_t a, *p;
      bool_t reinit = (i2c_addr != 0);
      rcc->apb1enr |= RCC_APB1ENR_I2C2EN;
      [bus check, see lcd_init_unwedge]
      if (!reinit) {
          [floating-bus check, see lcd_init_check_bus]
      }
      gpio_configure_pin(gpiob, SCL, AFO_opendrain(_2MHz));
      gpio_configure_pin(gpiob, SDA, AFO_opendrain(_2MHz));
      /* Standard Mode (100kHz) */
      i2c->cr1 = 0;
      i2c->cr2 = I2C_CR2_FREQ(36);
      i2c->ccr = I2C_CCR_CCR(180);
      i2c->trise = 37;
      i2c->cr1 = I2C_CR1_PE;
      if (!reinit) {
          /* Probe the bus for an I2C device. */
          a = i2c_probe_range(0x20, 0x27) ?: i2c_probe_range(0x38, 0x3f);
          if (a == 0) {
              printk("I2C: %s\n",
                     i2c_dead ? "Bus locked up?" : "No device found");
              goto fail;
          }
          printk("I2C: %s found at 0x%02x\n",
                 (a == OLED_ADDR) ? "OLED" : "LCD", a);
          i2c_addr = a;
          lcd_clear();
      }
      [the rest, see lcd_init_tail]
  \<close>
\<close>

definition lcd_init_standard_mode :: "lcd_state \<Rightarrow> lcd_state" where
  "lcd_init_standard_mode s =
     (let s = gpio_configure_pin SCL AFO_opendrain s;
          s = gpio_configure_pin SDA AFO_opendrain s;
          s = s\<lparr>i2c_cr1 := {}\<rparr>;
          s = s\<lparr>i2c_cr2 := {I2C_CR2_FREQ 36}\<rparr>;
          s = s\<lparr>i2c_ccr := {I2C_CCR_CCR 180}\<rparr>;
          s = s\<lparr>i2c_trise := 37\<rparr>;
          s = s\<lparr>i2c_cr1 := {I2C_CR1_PE}\<rparr>
      in s)"

definition lcd_init :: "platform \<Rightarrow> lcd_state \<Rightarrow> (bool \<times> lcd_state) result" where
  "lcd_init h s =
     (let reinit = (i2c_addr s \<noteq> 0);
          s = s\<lparr>rcc_apb1enr := insert RCC_APB1ENR_I2C2EN (rcc_apb1enr s)\<rparr>
      in seq (lcd_init_unwedge s) (\<lambda>s.
         if \<not> reinit then
           seq (lcd_init_check_bus s) (\<lambda>(valid, s).
             if \<not> valid then Inr (lcd_init_fail reinit s)
             else
               seq (lcd_init_scan h (lcd_init_standard_mode s)) (\<lambda>(a, s).
                 if a = 0 then Inr (lcd_init_fail reinit s)
                 else
                   seq (lcd_clear (s\<lparr>i2c_addr := a\<rparr>)) (\<lambda>s.
                     lcd_init_tail h reinit s)))
         else lcd_init_tail h reinit (lcd_init_standard_mode s)))"

text \<open>
  \<^verbatim>\<open>
  static void IRQ_i2c_error(void)
  {
      /* Dump and clear I2C errors. */
      printk("I2C: Error (%04x)\n", (uint16_t)(i2c->sr1 & I2C_SR1_ERRORS));
      i2c->sr1 &= ~I2C_SR1_ERRORS;
      /* Clear the I2C peripheral. */
      i2c->cr1 = 0;
      i2c->cr1 = I2C_CR1_SWRST;
      /* Clear the DMA controller. */
      dma1->ch4.ccr = 0;
      dma1->ifcr = DMA_IFCR_CGIF(4);
      timer_cancel(&timeout_timer);
      lcd_init();
  }
  \<close>
  Two reads of \<^verbatim>\<open>i2c->sr1\<close>: one for \<^verbatim>\<open>printk\<close>, one by the compound assignment.
  The result of \<^verbatim>\<open>lcd_init\<close> is dropped by the handler; the model returns it for the
  reader.
\<close>

definition IRQ_i2c_error :: "platform \<Rightarrow> lcd_state \<Rightarrow> (bool \<times> lcd_state) result" where
  "IRQ_i2c_error h s =
     (case sr1_in s of
        r # r' # rs \<Rightarrow>
          let s = s\<lparr>sr1_in := rs, i2c_sr1_written := Some (sr1_clear_errors r')\<rparr>;
              s = s\<lparr>i2c_cr1 := {}\<rparr>;
              s = s\<lparr>i2c_cr1 := {I2C_CR1_SWRST}\<rparr>;
              s = s\<lparr>dma_ccr := {}\<rparr>;
              s = s\<lparr>dma_ch4_flags := False\<rparr>;
              s = timer_cancel s
          in lcd_init h s
      | _ \<Rightarrow> Inl Env_exhausted)"

subsection \<open>The state at power-up\<close>

text \<open>
  The statics of lcd.c are zero-initialised, the peripherals are in their reset state,
  and nothing has been observed yet. The closing examples start from this state and
  add the observations they need.
\<close>

definition power_on :: lcd_state where
  "power_on =
     \<lparr>bl = 0, i2c_addr = 0, i2c_dead = False, refresh_count = 0,
      buffer = (\<lambda>i. 0), text_buf = (\<lambda>i. CHR 0x00), oled_row = 0,
      timeout_timer = None, i2c_sr1_written = None,
      i2c_cr1 = {}, i2c_cr2 = {}, i2c_ccr = {}, i2c_trise = 0,
      dma_ccr = {}, dma_cndtr = 0, dma_cmar = None, dma_cpar = None, dma_ch4_flags = False,
      rcc_apb1enr = {}, irq_enabled = {}, irq_pending = {}, irq_prio = (\<lambda>i. None),
      pin_cfg = (\<lambda>p. None), pin_out = (\<lambda>p. False), events = [],
      sr1_in = [], now_in = [], stop_in = [], pin_in = [], irq_in = []\<rparr>"

text \<open>A platform for the closing examples: the SysTick counter counts down on 24
  bits at 9 ticks per microsecond, and both glyph tables are zero.\<close>

definition example_platform :: "font \<Rightarrow> platform" where
  "example_platform f =
     \<lparr>stk_diff = (\<lambda>x y. (x + 2 ^ 24 - y) mod 2 ^ 24),
      stk_add = (\<lambda>x d. (x + 2 ^ 24 - d) mod 2 ^ 24),
      stk_ms = (\<lambda>x. x * 9000),
      I2C_IRQ_PRI = 13,
      oled_font = f\<rparr>"

text \<open>A grid holding \<open>HELLO\<close> at row 0, column 0, spaces
  everywhere else, backlight off.\<close>

definition hello_state :: lcd_state where
  "hello_state = power_on\<lparr>text_buf := (\<lambda>i. if i < 5 then ''HELLO'' ! i else CHR '' '')\<rparr>"

section \<open>Specification-level definitions\<close>

text \<open>
  The wire format of the character controller as the specification words it: a nibble
  goes out three times (value, value with the enable strobe, value); a logical byte
  goes out as its high nibble, then its low nibble, each with the signal bits; a row is
  its address-set command followed by its characters with register-select; a frame is
  row 0 (address command 0x80) and row 1 (address command 0x80 | 64). The backlight
  bit is not part of these lists: it is OR-ed into every byte afterwards.
\<close>

definition wire_nibble :: "u8 \<Rightarrow> u8 list" where
  "wire_nibble v = [v, v OR EN, v]"

definition wire_byte :: "u8 \<Rightarrow> u8 \<Rightarrow> u8 list" where
  "wire_byte v signals =
     wire_nibble ((v AND 0xf0) OR signals) @ wire_nibble (push_bit 4 v OR signals)"

definition wire_row :: "u8 \<Rightarrow> char list \<Rightarrow> u8 list" where
  "wire_row addr_cmd cs =
     wire_byte addr_cmd 0 @ concat (map (\<lambda>c. wire_byte (of_char c) RS) cs)"

definition wire_frame :: "char list \<Rightarrow> char list \<Rightarrow> u8 list" where
  "wire_frame row0 row1 = wire_row 0x80 row0 @ wire_row (0x80 OR 64) row1"

text \<open>\<open>put b p xs\<close> is the buffer \<open>b\<close> with the bytes \<open>xs\<close> stored from offset \<open>p\<close>.\<close>

definition put :: "(nat \<Rightarrow> u8) \<Rightarrow> nat \<Rightarrow> u8 list \<Rightarrow> (nat \<Rightarrow> u8)" where
  "put b p xs = (\<lambda>i. if p \<le> i \<and> i < p + length xs then xs ! (i - p) else b i)"

text \<open>
  What \<^verbatim>\<open>lcd_write\<close> is specified to leave in the grid: seen from the addressed row,
  cell \<open>c\<close> holds the string's character from \<open>col\<close> on, then spaces up to the requested
  width or column 16, whichever comes first; every other cell keeps its content.
\<close>

definition lcd_write_spec :: "int \<Rightarrow> int \<Rightarrow> int \<Rightarrow> char list \<Rightarrow> (nat \<Rightarrow> char) \<Rightarrow> (nat \<Rightarrow> char)" where
  "lcd_write_spec col row minw str t =
     (\<lambda>i. let c = int i - 16 * row in
          if col \<le> c \<and> c < col + int (length str) then str ! nat (c - col)
          else if col + int (length str) \<le> c \<and> c < min 16 (col + minw) then CHR '' ''
          else t i)"

text \<open>The effect of the two loops of \<^verbatim>\<open>lcd_write\<close> on the grid, by flat offset.\<close>

definition copied :: "(nat \<Rightarrow> char) \<Rightarrow> int \<Rightarrow> char list \<Rightarrow> (nat \<Rightarrow> char)" where
  "copied t p str =
     (\<lambda>i. if p \<le> int i \<and> int i < p + int (length str) then str ! nat (int i - p) else t i)"

definition padded :: "(nat \<Rightarrow> char) \<Rightarrow> int \<Rightarrow> nat \<Rightarrow> (nat \<Rightarrow> char)" where
  "padded t p n = (\<lambda>i. if p \<le> int i \<and> int i < p + int n then CHR '' '' else t i)"

text \<open>
  The bytes \<^verbatim>\<open>oled_start_i2c\<close> and \<^verbatim>\<open>oled_init\<close> build from a command table: every
  command behind the control byte 0x80. \<open>readdress_bytes\<close> is the re-addressing
  sequence the specification describes: horizontal addressing mode (0x20, 0), column
  range 0 to 127 (0x21, 0, 127), page range 0 to 3 (0x22, 0, 3), display on (0xaf) or
  off (0xae) after the backlight flag, and the data-mode marker 0x40.
\<close>

definition cmd_bytes :: "u8 list \<Rightarrow> u8 list" where
  "cmd_bytes cmds = concat (map (\<lambda>c. [0x80, c]) cmds)"

definition readdress_bytes :: "u8 \<Rightarrow> u8 list" where
  "readdress_bytes b =
     [0x80, 0x20, 0x80, 0, 0x80, 0x21, 0x80, 0, 0x80, 127, 0x80, 0x22, 0x80, 0, 0x80, 3,
      0x80, (if b \<noteq> 0 then 0xaf else 0xae), 0x40]"

text \<open>A run that did not end in a failed \<^verbatim>\<open>ASSERT\<close>.\<close>

definition no_assert :: "'a result \<Rightarrow> bool" where
  "no_assert m = (m \<noteq> Inl Assert_failed)"

text \<open>
  The glyph data of one text row as the bitmap controller receives it. With the
  8-pixel font a glyph is four 32-bit words: the first two are its eight top-half
  columns, the last two its eight bottom-half columns (bytes in memory order). With
  the 7-pixel font a glyph is 14 bytes: seven top-half columns, then seven bottom-half
  columns, and each 128-byte page is filled up with 16 zero bytes. The 128 bytes of
  the top page come first, then the 128 bytes of the bottom page.
\<close>

definition le_bytes :: "u32 \<Rightarrow> u8 list" where
  "le_bytes w = [ucast w, ucast (drop_bit 8 w), ucast (drop_bit 16 w), ucast (drop_bit 24 w)]"

definition glyph_top_8x16 :: "(nat \<Rightarrow> u32) \<Rightarrow> char list \<Rightarrow> u8 list" where
  "glyph_top_8x16 f cs =
     concat (map (\<lambda>c. le_bytes (f (glyph_index c * 4)) @ le_bytes (f (glyph_index c * 4 + 1))) cs)"

definition glyph_bottom_8x16 :: "(nat \<Rightarrow> u32) \<Rightarrow> char list \<Rightarrow> u8 list" where
  "glyph_bottom_8x16 f cs =
     concat (map (\<lambda>c. le_bytes (f (glyph_index c * 4 + 2)) @ le_bytes (f (glyph_index c * 4 + 3))) cs)"

definition glyph_top_7x16 :: "(nat \<Rightarrow> u8) \<Rightarrow> char list \<Rightarrow> u8 list" where
  "glyph_top_7x16 f cs = concat (map (\<lambda>c. map (\<lambda>k. f (glyph_index c * 14 + k)) [0..<7]) cs)"

definition glyph_bottom_7x16 :: "(nat \<Rightarrow> u8) \<Rightarrow> char list \<Rightarrow> u8 list" where
  "glyph_bottom_7x16 f cs = concat (map (\<lambda>c. map (\<lambda>k. f (glyph_index c * 14 + 7 + k)) [0..<7]) cs)"

fun glyph_data :: "font \<Rightarrow> char list \<Rightarrow> u8 list" where
  "glyph_data (Font_7x16 f) cs =
     glyph_top_7x16 f cs @ replicate 16 0 @ glyph_bottom_7x16 f cs @ replicate 16 0"
| "glyph_data (Font_8x16 f) cs = glyph_top_8x16 f cs @ glyph_bottom_8x16 f cs"

definition lcd_sync_char_state :: lcd_state where
  "lcd_sync_char_state =
     power_on\<lparr>i2c_addr := 0x27, refresh_count := 255, irq_in := [0, 1, 1],
              now_in := [700, 500]\<rparr>"

definition lcd_sync_oled_state :: lcd_state where
  "lcd_sync_oled_state =
     power_on\<lparr>i2c_addr := OLED_ADDR, refresh_count := 254, irq_in := [3, 3],
              sr1_in := [{I2C_SR1_BTF}, {I2C_SR1_BTF}], stop_in := [False, False],
              now_in := [700, 600, 500, 400, 300, 200]\<rparr>"

definition oled_wrap_state :: lcd_state where
  "oled_wrap_state =
     power_on\<lparr>i2c_addr := OLED_ADDR, oled_row := 2, sr1_in := [{I2C_SR1_BTF}],
              stop_in := [False], now_in := [5000]\<rparr>"

definition example_8x16 :: platform where
  "example_8x16 = example_platform (Font_8x16 (\<lambda>i. 0))"

definition example_7x16 :: platform where
  "example_7x16 = example_platform (Font_7x16 (\<lambda>i. 0))"

definition oled_cycle_state :: lcd_state where
  "oled_cycle_state =
     power_on\<lparr>i2c_addr := OLED_ADDR, sr1_in := [{}, {}, {I2C_SR1_BTF}],
              stop_in := [True, False]\<rparr>"

definition oled_err_state :: lcd_state where
  "oled_err_state =
     power_on\<lparr>i2c_addr := OLED_ADDR, oled_row := 2, sr1_in := [{}, {I2C_SR1_ERROR 10}],
              now_in := [5000]\<rparr>"

text \<open>
  For the synchronous bus routines: the time-out test of \<^verbatim>\<open>i2c_wait\<close>; the part of
  the state they never touch (\<open>bus_rest\<close> blanks what they may change: the bus-dead
  flag, the writes to the status and control registers, the bytes put on the bus and
  the observations consumed); and the address scan as the specification words it: the
  addresses 0x20 to 0x27, then 0x38 to 0x3f, probed in this order until one
  acknowledges or the bus is found dead.
\<close>

definition timed_out :: "platform \<Rightarrow> nat \<Rightarrow> nat \<Rightarrow> bool" where
  "timed_out h t n = (stk_diff h t n > stk_ms h 10)"

definition bus_rest :: "lcd_state \<Rightarrow> lcd_state" where
  "bus_rest s = s\<lparr>i2c_dead := False, i2c_sr1_written := None, i2c_cr1 := {}, events := [],
                 sr1_in := [], now_in := [], stop_in := []\<rparr>"

fun scan_list :: "platform \<Rightarrow> u8 list \<Rightarrow> lcd_state \<Rightarrow> (u8 \<times> lcd_state) result" where
  "scan_list h [] s = Inr (0, s)"
| "scan_list h (a # as) s =
     (if i2c_dead s then Inr (0, s)
      else (case i2c_probe h a s of
              Inl f \<Rightarrow> Inl f
            | Inr (ok, s') \<Rightarrow> if ok then Inr (a, s') else scan_list h as s'))"

definition scan_addresses :: "u8 list" where
  "scan_addresses =
     [0x20, 0x21, 0x22, 0x23, 0x24, 0x25, 0x26, 0x27,
      0x38, 0x39, 0x3a, 0x3b, 0x3c, 0x3d, 0x3e, 0x3f]"

text \<open>Events on the I2C bus itself, as opposed to reconfigurations of its pins.\<close>

fun is_bus_event :: "event \<Rightarrow> bool" where
  "is_bus_event (Ev_gpio_configure p m) = False"
| "is_bus_event (Ev_dr_write b) = True"
| "is_bus_event Ev_stop = True"

text \<open>Bitmap mode at row cursor 0, with one clock reading for the watchdog.\<close>

definition oled_row_state :: lcd_state where
  "oled_row_state = oled_cycle_state\<lparr>now_in := [5000]\<rparr>"

text \<open>
  The part of the configuration that neither the synchronous bus routines nor the
  DMA-completion handler change: the text grid, the stored address, the clock
  control register, the enabled interrupts, the peripheral clock and the pin modes.
\<close>

definition quiet ::
  "lcd_state \<Rightarrow> (nat \<Rightarrow> char) \<times> u8 \<times> ccr_flag set \<times> nat set \<times> apb1_flag set \<times> (pin \<Rightarrow> pin_mode option)"
where
  "quiet s = (text_buf s, i2c_addr s, i2c_ccr s, irq_enabled s, rcc_apb1enr s, pin_cfg s)"

text \<open>
  The bytes that \<^verbatim>\<open>write4(3 << 4)\<close>, three times, and \<^verbatim>\<open>write4(2 << 4)\<close> put on the
  bus: each value, the value with the enable bit, the value again.
\<close>

definition hd44780_nibbles :: "nat list" where
  "hd44780_nibbles = [0x30, 0x34, 0x30, 0x30, 0x34, 0x30, 0x30, 0x34, 0x30, 0x20, 0x24, 0x20]"

text \<open>
  The part of the state that reconfiguring, writing and reading the two bus pins
  leaves alone (\<open>gpio_rest\<close> blanks the pin modes, the output levels, the trace and
  the pending pin reads).
\<close>

definition gpio_rest :: "lcd_state \<Rightarrow> lcd_state" where
  "gpio_rest s = s\<lparr>pin_cfg := (\<lambda>p. None), pin_out := (\<lambda>p. False), events := [], pin_in := []\<rparr>"

text \<open>The 32 cells of the text grid, row 0 then row 1.\<close>

definition text_cells :: "lcd_state \<Rightarrow> char list" where
  "text_cells s = map (text_buf s) [0..<32]"

text \<open>
  A bus error in bitmap mode with \<open>HELLO\<close> on the display: the address is stored, two
  status reads show the error, both pins read high, and the clock is read twice.
\<close>

definition oled_reinit_state :: lcd_state where
  "oled_reinit_state =
     hello_state\<lparr>i2c_addr := OLED_ADDR, sr1_in := [{I2C_SR1_ERROR 10}, {I2C_SR1_ERROR 10}],
                 now_in := [5000, 4000], pin_in := [True, True]\<rparr>"

text \<open>
  A first initialisation that finds a character display at 0x20: no address stored,
  \<open>HELLO\<close> left in the grid, both pins high at all four reads, every status poll
  answered at once, STOP seen cleared at the first read, and one DMA completion
  before each of the two polls of \<^verbatim>\<open>lcd_sync\<close>.
\<close>

definition first_init_state :: lcd_state where
  "first_init_state =
     hello_state\<lparr>pin_in := [True, True, True, True],
                 sr1_in := [{I2C_SR1_SB}, {I2C_SR1_ADDR}, {I2C_SR1_BTF},
                            {I2C_SR1_SB}, {I2C_SR1_ADDR},
                            {I2C_SR1_BTF}, {I2C_SR1_BTF}, {I2C_SR1_BTF},
                            {I2C_SR1_BTF}, {I2C_SR1_BTF}, {I2C_SR1_BTF},
                            {I2C_SR1_BTF}, {I2C_SR1_BTF}, {I2C_SR1_BTF},
                            {I2C_SR1_BTF}, {I2C_SR1_BTF}, {I2C_SR1_BTF}],
                 now_in := [5000, 5000, 5000, 5000, 5000, 5000, 5000, 5000, 5000, 5000, 5000,
                            5000, 5000, 5000, 5000, 5000, 5000, 5000, 5000, 5000, 5000],
                 stop_in := [False], irq_in := [1, 1]\<rparr>"

text \<open>
  A first initialisation on a bus that is locked up: both pins read high at all four
  reads, the first status poll shows nothing, and the second clock reading is more
  than 10 ms after the first.
\<close>

definition dead_bus_state :: lcd_state where
  "dead_bus_state =
     power_on\<lparr>pin_in := [True, True, True, True], sr1_in := [{}, {}],
              now_in := [9000000, 0]\<rparr>"

text \<open>
  A reinitialisation of a character display at 0x27 that does not answer: the wait
  for the start condition times out.
\<close>

definition reinit_fail_state :: lcd_state where
  "reinit_fail_state =
     power_on\<lparr>i2c_addr := 0x27, pin_in := [True, True], sr1_in := [{}, {}],
              now_in := [5000, 9000000, 0]\<rparr>"


text \<open>
  Probing the addresses of a list in order, none of which acknowledges: the state
  after the last probe, or \<open>None\<close> when a probe acknowledges or does not return.
\<close>

fun failed_probes :: "platform \<Rightarrow> u8 list \<Rightarrow> lcd_state \<Rightarrow> lcd_state option" where
  "failed_probes h [] s = Some s"
| "failed_probes h (a # as) s =
     (case i2c_probe h a s of
        Inr (False, s') \<Rightarrow> failed_probes h as s'
      | _ \<Rightarrow> None)"

text \<open>
  A first initialisation that finds the bitmap display at 0x3c: both pins high at all
  four reads; each of the twelve addresses before 0x3c gets its start condition and
  then an acknowledge failure; 0x3c acknowledges; STOP is seen cleared at once.
\<close>

definition oled_first_state :: lcd_state where
  "oled_first_state =
     hello_state\<lparr>pin_in := [True, True, True, True],
                 sr1_in := concat (replicate 12 [{I2C_SR1_SB}, {}, {I2C_SR1_ERROR 10},
                                                 {I2C_SR1_ERROR 10}])
                           @ [{I2C_SR1_SB}, {I2C_SR1_ADDR}, {I2C_SR1_BTF}],
                 now_in := replicate 29 5000,
                 stop_in := [False]\<rparr>"

section \<open>Facts about the character-mode serializer\<close>

lemma put_Nil: "put b p [] = b"
  by (auto simp: put_def fun_eq_iff)

lemma put_append: "put (put b p xs) (p + length xs) ys = put b p (xs @ ys)"
  by (auto simp: put_def fun_eq_iff nth_append)

lemma put_put: "q = p + length xs \<Longrightarrow> put (put b p xs) q ys = put b p (xs @ ys)"
  by (simp add: put_append)

lemma put_read: "map (put b p xs) [p..<p + length xs] = xs"
  by (rule nth_equalityI) (auto simp: put_def)

lemma put_outside: "i < p \<or> p + length xs \<le> i \<Longrightarrow> put b p xs i = b i"
  by (auto simp: put_def)

lemma length_wire_nibble: "length (wire_nibble v) = 3"
  by (simp add: wire_nibble_def)

lemma length_wire_byte: "length (wire_byte v g) = 6"
  by (simp add: wire_byte_def length_wire_nibble)

lemma length_wire_row: "length (wire_row a cs) = 6 + 6 * length cs"
  by (simp add: wire_row_def length_wire_byte length_concat comp_def sum_list_triv)

lemma length_wire_frame: "length (wire_frame r0 r1) = 12 + 6 * length r0 + 6 * length r1"
  by (simp add: wire_frame_def length_wire_row)

lemma wire_nibble_bl: "map (\<lambda>b. b OR x) (wire_nibble v) = wire_nibble (v OR x)"
  by (simp add: wire_nibble_def or.assoc or.commute or.left_commute)

lemma emit4_put:
  "emit4 p v s = (p + 3, s\<lparr>buffer := put (buffer s) p (wire_nibble v)\<rparr>)"
proof -
  have "(buffer s)(p := v, p + 1 := v OR EN, p + 2 := v) = put (buffer s) p (wire_nibble v)"
    by (auto simp: put_def fun_eq_iff wire_nibble_def nth_Cons')
  then show ?thesis by (simp add: emit4_def)
qed

lemma emit8_put:
  "emit8 p v g s =
     (p + 6, s\<lparr>buffer := put (buffer s) p (map (\<lambda>b. b OR bl s) (wire_byte v g))\<rparr>)"
proof -
  have "put (put (buffer s) p (wire_nibble ((v AND 0xf0) OR (g OR bl s)))) (p + 3)
          (wire_nibble (push_bit 4 v OR (g OR bl s)))
        = put (buffer s) p (map (\<lambda>b. b OR bl s) (wire_byte v g))"
    using put_append [of "buffer s" p "wire_nibble ((v AND 0xf0) OR (g OR bl s))"
                        "wire_nibble (push_bit 4 v OR (g OR bl s))"]
    by (simp add: wire_byte_def wire_nibble_bl length_wire_nibble or.assoc)
  then show ?thesis
    by (simp add: emit8_def Let_def emit4_put)
qed

lemma emit8_chars:
  "fold (\<lambda>j (q, s). emit8 q (of_char (text_buf s (k + j))) RS s) js
      (p, s\<lparr>buffer := put (buffer s) 0 xs\<rparr>)
     = (p + 6 * length js,
        s\<lparr>buffer := put (buffer s) 0
             (xs @ map (\<lambda>b. b OR bl s)
                (concat (map (\<lambda>j. wire_byte (of_char (text_buf s (k + j))) RS) js)))\<rparr>)"
  if "p = length xs"
  using that
proof (induction js arbitrary: p xs)
  case Nil
  then show ?case by simp
next
  case (Cons j js)
  have "fold (\<lambda>j (q, s). emit8 q (of_char (text_buf s (k + j))) RS s) js
          (p + 6, s\<lparr>buffer := put (buffer s) 0
             (xs @ map (\<lambda>b. b OR bl s) (wire_byte (of_char (text_buf s (k + j))) RS))\<rparr>)
        = (p + 6 + 6 * length js,
           s\<lparr>buffer := put (buffer s) 0
             ((xs @ map (\<lambda>b. b OR bl s) (wire_byte (of_char (text_buf s (k + j))) RS))
                @ map (\<lambda>b. b OR bl s)
                    (concat (map (\<lambda>j. wire_byte (of_char (text_buf s (k + j))) RS) js)))\<rparr>)"
    by (rule Cons.IH) (simp add: Cons.prems length_wire_byte)
  then show ?case
    by (simp add: emit8_put put_put Cons.prems)
qed

lemma lcd_prep_row_put:
  "lcd_prep_row i (p, s\<lparr>buffer := put (buffer s) 0 xs\<rparr>)
     = (p + 102,
        s\<lparr>buffer := put (buffer s) 0
             (xs @ map (\<lambda>b. b OR bl s)
                (wire_row (CMD_SETDDRADDR OR of_nat (i * 64))
                   (map (\<lambda>j. text_buf s (16 * i + j)) [0..<16])))\<rparr>)"
  if "p = length xs"
proof -
  have "fold (\<lambda>j (q, s). emit8 q (of_char (text_buf s (16 * i + j))) RS s) [0..<16]
          (p + 6, s\<lparr>buffer := put (buffer s) 0
             (xs @ map (\<lambda>b. b OR bl s) (wire_byte (CMD_SETDDRADDR OR of_nat (i * 64)) 0))\<rparr>)
        = (p + 6 + 6 * length [0..<16],
           s\<lparr>buffer := put (buffer s) 0
             ((xs @ map (\<lambda>b. b OR bl s) (wire_byte (CMD_SETDDRADDR OR of_nat (i * 64)) 0))
                @ map (\<lambda>b. b OR bl s)
                    (concat (map (\<lambda>j. wire_byte (of_char (text_buf s (16 * i + j))) RS)
                       [0..<16])))\<rparr>)"
    by (rule emit8_chars) (simp add: that length_wire_byte)
  then show ?thesis
    by (simp add: lcd_prep_row_def emit8_put put_put that wire_row_def map_concat comp_def
          del: upt_rec_numeral)
qed

lemma lcd_prep_buffer_put:
  "lcd_prep_buffer s =
     (204, s\<lparr>refresh_count := refresh_count s + 1,
             buffer := put (buffer s) 0
               (map (\<lambda>b. b OR bl s)
                  (wire_frame (map (text_buf s) [0..<16]) (map (text_buf s) [16..<32])))\<rparr>)"
proof -
  define s1 where "s1 = s\<lparr>refresh_count := refresh_count s + 1\<rparr>"
  define r0 where "r0 = map (\<lambda>b. b OR bl s1)
    (wire_row (CMD_SETDDRADDR OR of_nat (0 * 64)) (map (\<lambda>j. text_buf s1 (16 * 0 + j)) [0..<16]))"
  define r1 where "r1 = map (\<lambda>b. b OR bl s1)
    (wire_row (CMD_SETDDRADDR OR of_nat (1 * 64)) (map (\<lambda>j. text_buf s1 (16 * 1 + j)) [0..<16]))"
  have len0: "length r0 = 102"
    by (simp add: r0_def length_wire_row del: upt_rec_numeral)
  have a: "lcd_prep_row 0 (0, s1\<lparr>buffer := put (buffer s1) 0 []\<rparr>)
             = (0 + 102, s1\<lparr>buffer := put (buffer s1) 0 ([] @ r0)\<rparr>)"
    unfolding r0_def by (rule lcd_prep_row_put) simp
  have b: "lcd_prep_row 1 (102, s1\<lparr>buffer := put (buffer s1) 0 r0\<rparr>)
             = (102 + 102, s1\<lparr>buffer := put (buffer s1) 0 (r0 @ r1)\<rparr>)"
    unfolding r1_def by (rule lcd_prep_row_put) (simp add: len0)
  have "[16..<32] = map (\<lambda>i. i + 16) [0..<16]"
    by (simp add: map_add_upt del: upt_rec_numeral)
  then have m: "map (text_buf s) [16..<32] = map (\<lambda>j. text_buf s (16 + j)) [0..<16]"
    by (simp add: comp_def add.commute del: upt_rec_numeral)
  have c: "r0 @ r1 = map (\<lambda>b. b OR bl s)
             (wire_frame (map (text_buf s) [0..<16]) (map (text_buf s) [16..<32]))"
    by (simp add: r0_def r1_def s1_def wire_frame_def CMD_SETDDRADDR_def m del: upt_rec_numeral)
  have "lcd_prep_buffer s = fold lcd_prep_row [0, 1] (0, s1)"
    by (simp add: lcd_prep_buffer_def s1_def Let_def numeral_2_eq_2)
  also have "\<dots> = lcd_prep_row 1 (lcd_prep_row 0 (0, s1\<lparr>buffer := put (buffer s1) 0 []\<rparr>))"
    by (simp add: put_Nil)
  also have "\<dots> = (204, s1\<lparr>buffer := put (buffer s1) 0 (r0 @ r1)\<rparr>)"
    using a b by simp
  finally show ?thesis
    by (simp add: c s1_def)
qed

section \<open>Facts about lcd\_write\<close>

declare lcd_write_pad.simps [simp del]

lemma lcd_write_copy_fits:
  "CHR 0x00 \<notin> set str \<Longrightarrow> 0 \<le> p \<Longrightarrow> col + int (length str) \<le> 16 \<Longrightarrow>
   p + int (length str) \<le> 32 \<Longrightarrow>
   lcd_write_copy str col p minw t =
     Inr (col + int (length str), p + int (length str), minw - int (length str), copied t p str)"
proof (induction str arbitrary: col p minw t)
  case Nil
  then show ?case by (auto simp: copied_def fun_eq_iff)
next
  case (Cons c str)
  have st: "store_text t p c = Inr (t(nat p := c))"
    using Cons.prems by (simp add: store_text_def)
  have ih: "lcd_write_copy str (col + 1) (p + 1) (minw - 1) (t(nat p := c)) =
     Inr (col + 1 + int (length str), p + 1 + int (length str), minw - 1 - int (length str),
          copied (t(nat p := c)) (p + 1) str)"
    using Cons.prems by (intro Cons.IH) auto
  have eq: "copied (t(nat p := c)) (p + 1) str = copied t p (c # str)"
    using Cons.prems(2)
    by (auto simp: copied_def fun_eq_iff nth_Cons' nat_diff_distrib nat_add_distrib)
  show ?case
    using Cons.prems st ih eq by (auto simp: algebra_simps)
qed

lemma lcd_write_pad_fits:
  "0 \<le> p \<Longrightarrow> col \<le> 16 \<Longrightarrow> p + (16 - col) \<le> 32 \<Longrightarrow>
   \<exists>c' p' m'. lcd_write_pad col p minw t =
      Inr (c', p', m', padded t p (nat (min (16 - col) minw)))"
proof (induction col p minw t rule: lcd_write_pad.induct)
  case (1 col p minw t)
  show ?case
  proof (cases "minw > 0 \<and> col < 16")
    case True
    have st: "store_text t p (CHR '' '') = Inr (t(nat p := CHR '' ''))"
      using "1.prems" True by (simp add: store_text_def)
    from True have c1: "0 < minw" and c2: "col < 16" by simp_all
    have "\<exists>c' p' m'. lcd_write_pad (col + 1) (p + 1) (minw - 1) (t(nat p := CHR '' '')) =
         Inr (c', p', m',
              padded (t(nat p := CHR '' '')) (p + 1) (nat (min (16 - (col + 1)) (minw - 1))))"
      using "1.prems" c2 by (intro "1.IH" [OF c1 c2 st]) simp_all
    then obtain c' p' m' where ih:
      "lcd_write_pad (col + 1) (p + 1) (minw - 1) (t(nat p := CHR '' '')) =
         Inr (c', p', m',
              padded (t(nat p := CHR '' '')) (p + 1) (nat (min (16 - (col + 1)) (minw - 1))))"
      by blast
    have eq: "padded (t(nat p := CHR '' '')) (p + 1) (nat (min (16 - (col + 1)) (minw - 1)))
              = padded t p (nat (min (16 - col) minw))"
      using True "1.prems"(1) by (auto simp: padded_def fun_eq_iff)
    show ?thesis
      using True st ih eq by (subst lcd_write_pad.simps) simp
  next
    case False
    then have "padded t p (nat (min (16 - col) minw)) = t"
      using "1.prems" by (auto simp: padded_def fun_eq_iff)
    with False show ?thesis
      by (subst lcd_write_pad.simps) auto
  qed
qed

lemma upt_32: "[0..<32] = [0,1,2,3,4,5,6,7,8,9,10,11,12,13,14,15,16,17,18,19,20,21,22,23,24,25,26,27,28,29,30,31::nat]"
  by code_simp

section \<open>Facts about the bitmap-mode command sequences\<close>

declare i2c_probe_range.simps [simp del]

lemma length_cmd_bytes: "length (cmd_bytes cmds) = 2 * length cmds"
  by (simp add: cmd_bytes_def length_concat comp_def sum_list_triv)

lemma upd2_put: "b(q := x, q + 1 := y) = put b q [x, y]"
  by (auto simp: put_def fun_eq_iff nth_Cons')

lemma upd3_put: "b(q := x, q + 1 := y, q + 2 := z) = put b q [x, y, z]"
  by (auto simp: put_def fun_eq_iff nth_Cons')

lemma fold_emit_cmds:
  "n \<le> length cmds \<Longrightarrow>
   fold (\<lambda>i (p, s). (p + 2, s\<lparr>buffer := (buffer s)(p := 0x80, p + 1 := cmds ! i)\<rparr>)) [0..<n] (p, s :: lcd_state)
     = (p + 2 * n, s\<lparr>buffer := put (buffer s) p (cmd_bytes (take n cmds))\<rparr>)"
proof (induction n)
  case 0
  then show ?case by (simp add: cmd_bytes_def put_Nil)
next
  case (Suc n)
  define f where "f = (\<lambda>i (p, s :: lcd_state). (p + 2, s\<lparr>buffer := (buffer s)(p := 0x80, p + 1 := cmds ! i)\<rparr>))"
  have ih: "fold f [0..<n] (p, s) = (p + 2 * n, s\<lparr>buffer := put (buffer s) p (cmd_bytes (take n cmds))\<rparr>)"
    unfolding f_def by (rule Suc.IH) (use Suc.prems in simp)
  have t: "cmd_bytes (take (Suc n) cmds) = cmd_bytes (take n cmds) @ [0x80, cmds ! n]"
    using Suc.prems by (simp add: take_Suc_conv_app_nth cmd_bytes_def)
  have len: "p + 2 * n = p + length (cmd_bytes (take n cmds))"
    using Suc.prems by (simp add: length_cmd_bytes)
  have "fold f [0..<Suc n] (p, s) = f n (fold f [0..<n] (p, s))"
    by simp
  also have "\<dots> = f n (p + 2 * n, s\<lparr>buffer := put (buffer s) p (cmd_bytes (take n cmds))\<rparr>)"
    by (simp only: ih)
  also have "\<dots> = (p + 2 * n + 2,
       s\<lparr>buffer := (put (buffer s) p (cmd_bytes (take n cmds)))(p + 2 * n := 0x80, p + 2 * n + 1 := cmds ! n)\<rparr>)"
    by (simp add: f_def)
  also have "\<dots> = (p + 2 * n + 2,
       s\<lparr>buffer := put (put (buffer s) p (cmd_bytes (take n cmds))) (p + 2 * n) [0x80, cmds ! n]\<rparr>)"
    by (simp only: upd2_put)
  also have "\<dots> = (p + 2 * Suc n, s\<lparr>buffer := put (buffer s) p (cmd_bytes (take (Suc n) cmds))\<rparr>)"
    by (simp only: put_put [OF len] t) simp
  finally show ?case unfolding f_def .
qed

lemma emit_cmds_put:
  "emit_cmds cmds (p, s) = (p + 2 * length cmds, s\<lparr>buffer := put (buffer s) p (cmd_bytes cmds)\<rparr>)"
  using fold_emit_cmds [of "length cmds" cmds p s] by (simp add: emit_cmds_def)

lemma oled_start_i2c_put:
  "oled_start_i2c buf s =
     (19, s\<lparr>buffer := put (buffer s) buf (readdress_bytes (bl s)),
            oled_row := 0,
            i2c_cr2 := insert I2C_CR2_ITEVTEN (i2c_cr2 s),
            i2c_cr1 := insert I2C_CR1_START (i2c_cr1 s)\<rparr>)"
proof -
  define x where "x = (if bl s \<noteq> 0 then 0xaf else 0xae :: u8)"
  define b1 where "b1 = put (buffer s) buf (cmd_bytes setup_addr_cmds)"
  have len: "buf + 16 = buf + length (cmd_bytes setup_addr_cmds)"
    by (simp add: length_cmd_bytes setup_addr_cmds_def)
  have "b1(buf + 16 := 0x80, buf + 16 + 1 := x, buf + 16 + 2 := 0x40) = put b1 (buf + 16) [0x80, x, 0x40]"
    by (rule upd3_put)
  also have "\<dots> = put (buffer s) buf (cmd_bytes setup_addr_cmds @ [0x80, x, 0x40])"
    unfolding b1_def by (rule put_put [OF len])
  also have "cmd_bytes setup_addr_cmds @ [0x80, x, 0x40] = readdress_bytes (bl s)"
    by (simp add: cmd_bytes_def setup_addr_cmds_def readdress_bytes_def x_def)
  finally have b: "b1(buf + 16 := 0x80, buf + 16 + 1 := x, buf + 16 + 2 := 0x40) = put (buffer s) buf (readdress_bytes (bl s))" .
  have "oled_start_i2c buf s =
     (19, s\<lparr>buffer := b1(buf + 16 := 0x80, buf + 16 + 1 := x, buf + 16 + 2 := 0x40),
            oled_row := 0,
            i2c_cr2 := insert I2C_CR2_ITEVTEN (i2c_cr2 s),
            i2c_cr1 := insert I2C_CR1_START (i2c_cr1 s)\<rparr>)"
    by (simp add: oled_start_i2c_def emit_cmds_put Let_def b1_def x_def)
       (simp add: setup_addr_cmds_def)
  then show ?thesis by (simp only: b)
qed

section \<open>No run ends in a failed assertion\<close>

lemma no_assert_Inr: "no_assert (Inr x)"
  by (simp add: no_assert_def)

lemma no_assert_exhausted: "no_assert (Inl Env_exhausted)"
  by (simp add: no_assert_def)

lemma no_assert_bounds: "no_assert (Inl Out_of_bounds)"
  by (simp add: no_assert_def)

lemma no_assert_seq:
  "no_assert m \<Longrightarrow> (\<And>x. m = Inr x \<Longrightarrow> no_assert (f x)) \<Longrightarrow> no_assert (seq m f)"
  by (cases m) (auto simp: seq_def no_assert_def)

lemma no_assert_if:
  "(c \<Longrightarrow> no_assert a) \<Longrightarrow> (\<not> c \<Longrightarrow> no_assert b) \<Longrightarrow> no_assert (if c then a else b)"
  by simp

lemmas no_assert_intros =
  no_assert_Inr no_assert_exhausted no_assert_bounds no_assert_seq no_assert_if

lemma no_assert_stk_now: "no_assert (stk_now s)"
  by (simp add: stk_now_def no_assert_def split: list.splits)

lemma no_assert_dma_start: "sz \<le> 256 \<Longrightarrow> no_assert (dma_start h sz s)"
  unfolding dma_start_def Let_def sizeof_buffer_def
  by (auto intro!: no_assert_intros no_assert_stk_now)

lemma no_assert_oled_wait_btf: "no_assert (oled_wait_btf rs)"
  by (induction rs rule: oled_wait_btf.induct)
     (auto simp: no_assert_def split: list.splits)

lemma no_assert_wait_stop_loop: "no_assert (wait_stop_loop bs)"
  by (induction bs) (auto simp: no_assert_def)

lemma no_assert_wait_stop: "no_assert (wait_stop s)"
  unfolding wait_stop_def by (intro no_assert_intros no_assert_wait_stop_loop)

lemma no_assert_oled_prep_buffer: "no_assert (oled_prep_buffer h s)"
  unfolding oled_prep_buffer_def Let_def
  by (auto intro!: no_assert_intros no_assert_oled_wait_btf no_assert_wait_stop)

lemma oled_prep_buffer_size:
  "oled_prep_buffer h s = Inr (n, s') \<Longrightarrow> n = 0 \<or> n = 19 \<or> n = 256"
  unfolding oled_prep_buffer_def Let_def seq_def
  by (auto simp: oled_start_i2c_put split: if_splits sum.splits)

lemma no_assert_IRQ_dma1_ch4_tc: "no_assert (IRQ_dma1_ch4_tc h s)"
  unfolding IRQ_dma1_ch4_tc_def Let_def
  by (auto intro!: no_assert_intros no_assert_oled_prep_buffer no_assert_dma_start
           simp: lcd_prep_buffer_put dest!: oled_prep_buffer_size split: if_splits)

lemma no_assert_serve_irqs: "no_assert (serve_irqs h n s)"
proof (induction n arbitrary: s)
  case 0
  show ?case by (simp add: no_assert_Inr)
next
  case (Suc n)
  show ?case
    using no_assert_IRQ_dma1_ch4_tc [of h "s\<lparr>dma_ch4_flags := True\<rparr>"] Suc
    by (cases "IRQ_dma1_ch4_tc h (s\<lparr>dma_ch4_flags := True\<rparr>)") (simp_all add: no_assert_def)
qed

lemma no_assert_lcd_sync_loop: "no_assert (lcd_sync_loop h c ns s)"
proof (induction ns arbitrary: s)
  case Nil
  show ?case by (simp add: no_assert_exhausted)
next
  case (Cons n ns)
  show ?case
    using no_assert_serve_irqs [of h n s] Cons
    by (cases "serve_irqs h n s") (simp_all add: no_assert_def)
qed

lemma no_assert_lcd_sync: "no_assert (lcd_sync h s)"
  by (simp add: lcd_sync_def no_assert_lcd_sync_loop)


lemma no_assert_i2c_wait_loop: "no_assert (i2c_wait_loop h m t rs nows s)"
  by (induction h m t rs nows s rule: i2c_wait_loop.induct)
     (simp_all add: no_assert_def split: list.splits)

lemma no_assert_i2c_wait: "no_assert (i2c_wait h m s)"
  by (simp add: i2c_wait_def no_assert_i2c_wait_loop no_assert_exhausted split: list.splits)

lemma no_assert_i2c_start: "no_assert (i2c_start h a s)"
  unfolding i2c_start_def Let_def
  by (auto intro!: no_assert_intros no_assert_i2c_wait)

lemma no_assert_i2c_cmd: "no_assert (i2c_cmd h c s)"
  by (simp add: i2c_cmd_def no_assert_i2c_wait)

lemma no_assert_write4: "no_assert (write4 h v s)"
  unfolding write4_def
  by (auto intro!: no_assert_intros no_assert_i2c_cmd)

lemma no_assert_i2c_probe: "no_assert (i2c_probe h a s)"
  unfolding i2c_probe_def Let_def
  by (auto intro!: no_assert_intros no_assert_i2c_start no_assert_i2c_cmd no_assert_wait_stop)

lemma no_assert_i2c_probe_range: "no_assert (i2c_probe_range h a e s)"
proof (induction h a e s rule: i2c_probe_range.induct)
  case (1 h a e s)
  show ?case
  proof (cases "a \<le> e \<and> \<not> i2c_dead s")
    case True
    show ?thesis
    proof (cases "i2c_probe h a s")
      case (Inl f)
      with True no_assert_i2c_probe [of h a s] show ?thesis
        by (subst i2c_probe_range.simps) (simp add: no_assert_def)
    next
      case (Inr r)
      obtain ok s' where r: "r = (ok, s')" by (cases r)
      show ?thesis
      proof (cases ok)
        case True
        with \<open>a \<le> e \<and> \<not> i2c_dead s\<close> Inr r show ?thesis
          by (subst i2c_probe_range.simps) (simp add: no_assert_def)
      next
        case False
        from "1.IH" [OF \<open>a \<le> e \<and> \<not> i2c_dead s\<close> Inr r [symmetric] False]
        show ?thesis
          using \<open>a \<le> e \<and> \<not> i2c_dead s\<close> Inr r False
          by (subst i2c_probe_range.simps) simp
      qed
    qed
  next
    case False
    then show ?thesis
      by (subst i2c_probe_range.simps) (auto simp: no_assert_def)
  qed
qed

lemma no_assert_store_text: "no_assert (store_text t p c)"
  by (simp add: store_text_def no_assert_def)

lemma no_assert_lcd_write_copy: "no_assert (lcd_write_copy str col p minw t)"
  by (induction str col p minw t rule: lcd_write_copy.induct)
     (simp_all add: no_assert_def store_text_def split: sum.splits)

lemma no_assert_lcd_write_pad: "no_assert (lcd_write_pad col p minw t)"
proof (induction col p minw t rule: lcd_write_pad.induct)
  case (1 col p minw t)
  then show ?case
    by (subst lcd_write_pad.simps)
       (simp add: no_assert_def store_text_def split: sum.splits)
qed

lemma no_assert_lcd_write: "no_assert (lcd_write col row minw str s)"
  unfolding lcd_write_def Let_def
  by (auto intro!: no_assert_intros no_assert_lcd_write_copy no_assert_lcd_write_pad)

lemma no_assert_lcd_clear: "no_assert (lcd_clear s)"
  unfolding lcd_clear_def
  by (intro no_assert_intros no_assert_lcd_write)

lemma no_assert_gpio_read_pin: "no_assert (gpio_read_pin p s)"
  by (simp add: gpio_read_pin_def no_assert_def split: list.splits)

lemma no_assert_lcd_init_unwedge: "no_assert (lcd_init_unwedge s)"
  unfolding lcd_init_unwedge_def Let_def
  by (auto intro!: no_assert_intros no_assert_gpio_read_pin)

lemma no_assert_lcd_init_check_bus: "no_assert (lcd_init_check_bus s)"
  unfolding lcd_init_check_bus_def Let_def
  by (auto intro!: no_assert_intros no_assert_gpio_read_pin)

lemma no_assert_lcd_init_scan: "no_assert (lcd_init_scan h s)"
  unfolding lcd_init_scan_def
  by (auto intro!: no_assert_intros no_assert_i2c_probe_range)

lemma no_assert_lcd_init_irqs: "no_assert (lcd_init_irqs h s)"
  unfolding lcd_init_irqs_def Let_def
  by (auto intro!: no_assert_intros no_assert_stk_now)

lemma no_assert_oled_init: "no_assert (oled_init h s)"
  unfolding oled_init_def Let_def
  by (simp add: emit_cmds_put oled_start_i2c_put init_cmds_def no_assert_dma_start)

lemma no_assert_lcd_init_hd44780: "no_assert (lcd_init_hd44780 h reinit s)"
  unfolding lcd_init_hd44780_def Let_def
  by (auto intro!: no_assert_intros no_assert_i2c_start no_assert_write4 no_assert_dma_start
        no_assert_lcd_sync simp: emit8_put)

lemma no_assert_lcd_init_tail: "no_assert (lcd_init_tail h reinit s)"
  unfolding lcd_init_tail_def
  by (auto intro!: no_assert_intros no_assert_lcd_init_irqs no_assert_oled_init
        no_assert_lcd_init_hd44780)

lemma no_assert_lcd_init: "no_assert (lcd_init h s)"
  unfolding lcd_init_def Let_def
  by (auto intro!: no_assert_intros no_assert_lcd_init_unwedge no_assert_lcd_init_check_bus
        no_assert_lcd_init_scan no_assert_lcd_clear no_assert_lcd_init_tail)

lemma no_assert_IRQ_i2c_error: "no_assert (IRQ_i2c_error h s)"
  unfolding IRQ_i2c_error_def Let_def
  by (simp add: no_assert_lcd_init no_assert_exhausted split: list.splits)

section \<open>Facts about the glyph conversion\<close>

lemma length_le_bytes: "length (le_bytes w) = 4"
  by (simp add: le_bytes_def)

lemma length_glyph_top_8x16: "length (glyph_top_8x16 f cs) = 8 * length cs"
  by (simp add: glyph_top_8x16_def length_concat comp_def sum_list_triv length_le_bytes)

lemma length_glyph_bottom_8x16: "length (glyph_bottom_8x16 f cs) = 8 * length cs"
  by (simp add: glyph_bottom_8x16_def length_concat comp_def sum_list_triv length_le_bytes)

lemma put_commute:
  "p + length xs \<le> q \<or> q + length ys \<le> p \<Longrightarrow>
   put (put b p xs) q ys = put (put b q ys) p xs"
  by (auto simp: put_def fun_eq_iff)

lemma store32_put: "store32 b k w = put b (4 * k) (le_bytes w)"
  by (auto simp: store32_def put_def le_bytes_def fun_eq_iff nth_Cons')

lemma glyph_cell_8x16:
  assumes "length T = 8 * n" and "length Y = 8 * n" and "n < 16"
  shows "store32 (store32 (store32 (store32 (put (put b 0 T) 128 Y) (2 * n) w0) (2 * n + 1) w1)
            (2 * n + 32) w2) (2 * n + 33) w3
         = put (put b 0 (T @ le_bytes w0 @ le_bytes w1)) 128 (Y @ le_bytes w2 @ le_bytes w3)"
proof -
  let ?B = "put (put b 0 T) 128 Y"
  have "store32 (store32 ?B (2 * n) w0) (2 * n + 1) w1
        = put (put ?B (8 * n) (le_bytes w0)) (8 * n + 4) (le_bytes w1)"
    by (simp add: store32_put algebra_simps)
  also have "\<dots> = put ?B (8 * n) (le_bytes w0 @ le_bytes w1)"
    by (rule put_put) (simp add: length_le_bytes)
  also have "\<dots> = put (put (put b 0 T) (8 * n) (le_bytes w0 @ le_bytes w1)) 128 Y"
    using assms by (intro put_commute) (simp add: length_le_bytes)
  also have "put (put b 0 T) (8 * n) (le_bytes w0 @ le_bytes w1) = put b 0 (T @ le_bytes w0 @ le_bytes w1)"
    by (rule put_put) (simp add: assms)
  finally have top: "store32 (store32 ?B (2 * n) w0) (2 * n + 1) w1
        = put (put b 0 (T @ le_bytes w0 @ le_bytes w1)) 128 Y" .
  let ?C = "put (put b 0 (T @ le_bytes w0 @ le_bytes w1)) 128 Y"
  have "store32 (store32 ?C (2 * n + 32) w2) (2 * n + 33) w3
        = put (put ?C (128 + 8 * n) (le_bytes w2)) (128 + 8 * n + 4) (le_bytes w3)"
    by (simp add: store32_put algebra_simps)
  also have "\<dots> = put ?C (128 + 8 * n) (le_bytes w2 @ le_bytes w3)"
    by (rule put_put) (simp add: length_le_bytes)
  also have "\<dots> = put (put b 0 (T @ le_bytes w0 @ le_bytes w1)) 128 (Y @ le_bytes w2 @ le_bytes w3)"
    by (rule put_put) (simp add: assms)
  finally show ?thesis
    by (simp only: top)
qed

lemma fold_convert_8x16:
  "n \<le> 16 \<Longrightarrow>
   fold (\<lambda>i s.
        let c = glyph_index (text_buf s (pc + i));
            b = store32 (buffer s) (2 * i) (f (c * 4));
            b = store32 b (2 * i + 1) (f (c * 4 + 1));
            b = store32 b (2 * i + 32) (f (c * 4 + 2));
            b = store32 b (2 * i + 33) (f (c * 4 + 3))
        in s\<lparr>buffer := b\<rparr>) [0..<n] (s :: lcd_state)
   = s\<lparr>buffer := put (put (buffer s) 0 (glyph_top_8x16 f (map (\<lambda>i. text_buf s (pc + i)) [0..<n])))
                   128 (glyph_bottom_8x16 f (map (\<lambda>i. text_buf s (pc + i)) [0..<n]))\<rparr>"
proof (induction n)
  case 0
  show ?case by (simp add: glyph_top_8x16_def glyph_bottom_8x16_def put_Nil)
next
  case (Suc n)
  define step where "step = (\<lambda>i (s :: lcd_state).
        let c = glyph_index (text_buf s (pc + i));
            b = store32 (buffer s) (2 * i) (f (c * 4));
            b = store32 b (2 * i + 1) (f (c * 4 + 1));
            b = store32 b (2 * i + 32) (f (c * 4 + 2));
            b = store32 b (2 * i + 33) (f (c * 4 + 3))
        in s\<lparr>buffer := b\<rparr>)"
  define cs where "cs = map (\<lambda>i. text_buf s (pc + i)) [0..<n]"
  define T where "T = glyph_top_8x16 f cs"
  define Y where "Y = glyph_bottom_8x16 f cs"
  define c where "c = glyph_index (text_buf s (pc + n))"
  have ih: "fold step [0..<n] s = s\<lparr>buffer := put (put (buffer s) 0 T) 128 Y\<rparr>"
    unfolding step_def T_def Y_def cs_def by (rule Suc.IH) (use Suc.prems in simp)
  have lens: "length T = 8 * n" "length Y = 8 * n" "n < 16"
    using Suc.prems by (simp_all add: T_def Y_def cs_def length_glyph_top_8x16 length_glyph_bottom_8x16)
  have cs': "map (\<lambda>i. text_buf s (pc + i)) [0..<Suc n] = cs @ [text_buf s (pc + n)]"
    by (simp add: cs_def)
  have T': "glyph_top_8x16 f (cs @ [text_buf s (pc + n)]) = T @ le_bytes (f (c * 4)) @ le_bytes (f (c * 4 + 1))"
    by (simp add: T_def glyph_top_8x16_def c_def)
  have Y': "glyph_bottom_8x16 f (cs @ [text_buf s (pc + n)]) = Y @ le_bytes (f (c * 4 + 2)) @ le_bytes (f (c * 4 + 3))"
    by (simp add: Y_def glyph_bottom_8x16_def c_def)
  have "fold step [0..<Suc n] s = step n (fold step [0..<n] s)"
    by simp
  also have "\<dots> = step n (s\<lparr>buffer := put (put (buffer s) 0 T) 128 Y\<rparr>)"
    by (simp only: ih)
  also have "\<dots> = s\<lparr>buffer := store32 (store32 (store32 (store32 (put (put (buffer s) 0 T) 128 Y)
            (2 * n) (f (c * 4))) (2 * n + 1) (f (c * 4 + 1))) (2 * n + 32) (f (c * 4 + 2)))
            (2 * n + 33) (f (c * 4 + 3))\<rparr>"
    by (simp add: step_def Let_def c_def)
  also have "\<dots> = s\<lparr>buffer := put (put (buffer s) 0 (T @ le_bytes (f (c * 4)) @ le_bytes (f (c * 4 + 1))))
                   128 (Y @ le_bytes (f (c * 4 + 2)) @ le_bytes (f (c * 4 + 3)))\<rparr>"
    by (simp only: glyph_cell_8x16 [OF lens])
  finally show ?case
    unfolding step_def cs' T' Y' .
qed

lemma length_glyph_top_7x16: "length (glyph_top_7x16 f cs) = 7 * length cs"
  by (simp add: glyph_top_7x16_def length_concat comp_def sum_list_triv)

lemma length_glyph_bottom_7x16: "length (glyph_bottom_7x16 f cs) = 7 * length cs"
  by (simp add: glyph_bottom_7x16_def length_concat comp_def sum_list_triv)

lemma length_glyph_data: "length cs = 16 \<Longrightarrow> length (glyph_data fnt cs) = 256"
  by (cases fnt)
     (simp_all add: length_glyph_top_7x16 length_glyph_bottom_7x16
        length_glyph_top_8x16 length_glyph_bottom_8x16)

lemma memcpy_font_put:
  "memcpy_font b dst f src n = put b dst (map (\<lambda>k. f (src + k)) [0..<n])"
proof (induction n)
  case 0
  show ?case by (simp add: memcpy_font_def put_Nil)
next
  case (Suc n)
  have "memcpy_font b dst f src (Suc n) = (memcpy_font b dst f src n)(dst + n := f (src + n))"
    by (simp add: memcpy_font_def)
  also have "\<dots> = put (put b dst (map (\<lambda>k. f (src + k)) [0..<n])) (dst + n) [f (src + n)]"
    unfolding Suc.IH by (auto simp: put_def fun_eq_iff)
  also have "\<dots> = put b dst (map (\<lambda>k. f (src + k)) [0..<n] @ [f (src + n)])"
    by (rule put_put) simp
  finally show ?case by simp
qed

lemma memset_buf_put: "memset_buf b dst v n = put b dst (replicate n v)"
proof (induction n)
  case 0
  show ?case by (simp add: memset_buf_def put_Nil)
next
  case (Suc n)
  have "memset_buf b dst v (Suc n) = (memset_buf b dst v n)(dst + n := v)"
    by (simp add: memset_buf_def)
  also have "\<dots> = put (put b dst (replicate n v)) (dst + n) [v]"
    unfolding Suc.IH by (auto simp: put_def fun_eq_iff)
  also have "\<dots> = put b dst (replicate n v @ [v])"
    by (rule put_put) simp
  finally show ?case by (simp add: replicate_append_same)
qed

lemma glyph_cell_7x16:
  assumes "length T = 7 * n" and "length Y = 7 * n" and "n < 16"
    and "length X = 7" and "length Z = 7"
  shows "put (put (put (put b 0 T) 128 Y) (7 * n) X) (7 * n + 128) Z
         = put (put b 0 (T @ X)) 128 (Y @ Z)"
proof -
  have "put (put (put b 0 T) 128 Y) (7 * n) X = put (put (put b 0 T) (7 * n) X) 128 Y"
    using assms by (intro put_commute) simp
  also have "put (put b 0 T) (7 * n) X = put b 0 (T @ X)"
    by (rule put_put) (simp add: assms)
  finally have "put (put (put (put b 0 T) 128 Y) (7 * n) X) (7 * n + 128) Z
        = put (put (put b 0 (T @ X)) 128 Y) (7 * n + 128) Z"
    by simp
  also have "\<dots> = put (put b 0 (T @ X)) 128 (Y @ Z)"
    by (rule put_put) (simp add: assms)
  finally show ?thesis .
qed

lemma fold_convert_7x16:
  "n \<le> 16 \<Longrightarrow>
   fold (\<lambda>i s.
           let c = glyph_index (text_buf s (pc + i));
               q = 7 * i;
               b = memcpy_font (buffer s) q f (c * 14) 7;
               b = memcpy_font b (q + 128) f (c * 14 + 7) 7
           in s\<lparr>buffer := b\<rparr>) [0..<n] (s :: lcd_state)
   = s\<lparr>buffer := put (put (buffer s) 0 (glyph_top_7x16 f (map (\<lambda>i. text_buf s (pc + i)) [0..<n])))
                   128 (glyph_bottom_7x16 f (map (\<lambda>i. text_buf s (pc + i)) [0..<n]))\<rparr>"
proof (induction n)
  case 0
  show ?case by (simp add: glyph_top_7x16_def glyph_bottom_7x16_def put_Nil)
next
  case (Suc n)
  define step where "step = (\<lambda>i (s :: lcd_state).
           let c = glyph_index (text_buf s (pc + i));
               q = 7 * i;
               b = memcpy_font (buffer s) q f (c * 14) 7;
               b = memcpy_font b (q + 128) f (c * 14 + 7) 7
           in s\<lparr>buffer := b\<rparr>)"
  define cs where "cs = map (\<lambda>i. text_buf s (pc + i)) [0..<n]"
  define T where "T = glyph_top_7x16 f cs"
  define Y where "Y = glyph_bottom_7x16 f cs"
  define c where "c = glyph_index (text_buf s (pc + n))"
  define X where "X = map (\<lambda>k. f (c * 14 + k)) [0..<7]"
  define Z where "Z = map (\<lambda>k. f (c * 14 + 7 + k)) [0..<7]"
  have ih: "fold step [0..<n] s = s\<lparr>buffer := put (put (buffer s) 0 T) 128 Y\<rparr>"
    unfolding step_def T_def Y_def cs_def by (rule Suc.IH) (use Suc.prems in simp)
  have lens: "length T = 7 * n" "length Y = 7 * n" "n < 16" "length X = 7" "length Z = 7"
    using Suc.prems
    by (simp_all add: T_def Y_def cs_def X_def Z_def length_glyph_top_7x16 length_glyph_bottom_7x16)
  have cs': "map (\<lambda>i. text_buf s (pc + i)) [0..<Suc n] = cs @ [text_buf s (pc + n)]"
    by (simp add: cs_def)
  have T': "glyph_top_7x16 f (cs @ [text_buf s (pc + n)]) = T @ X"
    by (simp add: T_def glyph_top_7x16_def c_def X_def del: upt_rec_numeral)
  have Y': "glyph_bottom_7x16 f (cs @ [text_buf s (pc + n)]) = Y @ Z"
    by (simp add: Y_def glyph_bottom_7x16_def c_def Z_def del: upt_rec_numeral)
  have "fold step [0..<Suc n] s = step n (fold step [0..<n] s)"
    by simp
  also have "\<dots> = step n (s\<lparr>buffer := put (put (buffer s) 0 T) 128 Y\<rparr>)"
    by (simp only: ih)
  also have "\<dots> = s\<lparr>buffer := put (put (put (put (buffer s) 0 T) 128 Y) (7 * n) X) (7 * n + 128) Z\<rparr>"
    by (simp add: step_def Let_def c_def memcpy_font_put X_def Z_def del: upt_rec_numeral)
  also have "\<dots> = s\<lparr>buffer := put (put (buffer s) 0 (T @ X)) 128 (Y @ Z)\<rparr>"
    by (simp only: glyph_cell_7x16 [OF lens])
  finally show ?case
    unfolding step_def cs' T' Y' .
qed

lemma oled_convert_text_row_put:
  "oled_convert_text_row h pc s =
     s\<lparr>buffer := put (buffer s) 0
         (glyph_data (oled_font h) (map (\<lambda>i. text_buf s (pc + i)) [0..<16]))\<rparr>"
proof (cases "oled_font h")
  case (Font_7x16 f)
  define cs where "cs = map (\<lambda>i. text_buf s (pc + i)) [0..<16]"
  define T where "T = glyph_top_7x16 f cs"
  define Y where "Y = glyph_bottom_7x16 f cs"
  define b where "b = buffer s"
  have lens: "length T = 112" "length Y = 112"
    by (simp_all add: T_def Y_def cs_def length_glyph_top_7x16 length_glyph_bottom_7x16)
  have "put (put (put (put b 0 T) 128 Y) 112 (replicate 16 0)) 240 (replicate 16 0)
        = put (put (put (put b 0 T) 112 (replicate 16 0)) 128 Y) 240 (replicate 16 0)"
    using lens by (subst put_commute [of 112 _ 128]) simp_all
  also have "put (put b 0 T) 112 (replicate 16 0) = put b 0 (T @ replicate 16 0)"
    by (rule put_put) (simp add: lens)
  also have "put (put (put b 0 (T @ replicate 16 0)) 128 Y) 240 (replicate 16 0)
        = put (put b 0 (T @ replicate 16 0)) 128 (Y @ replicate 16 0)"
    by (rule put_put) (simp add: lens)
  also have "\<dots> = put b 0 ((T @ replicate 16 0) @ (Y @ replicate 16 0))"
    by (rule put_put) (simp add: lens)
  finally have fin: "put (put (put (put b 0 T) 128 Y) 112 (replicate 16 0)) 240 (replicate 16 0)
        = put b 0 (T @ replicate 16 0 @ Y @ replicate 16 0)"
    by simp
  have "oled_convert_text_row h pc s
        = s\<lparr>buffer := put (put (put (put b 0 T) 128 Y) 112 (replicate 16 0)) 240 (replicate 16 0)\<rparr>"
    unfolding oled_convert_text_row_def Font_7x16 oled_convert_text_row_7x16_def
      fold_convert_7x16 [OF order_refl]
    by (simp add: Let_def memset_buf_put T_def Y_def cs_def b_def
          del: upt_rec_numeral replicate.simps)
  then show ?thesis
    unfolding fin by (simp add: Font_7x16 T_def Y_def cs_def b_def del: upt_rec_numeral replicate.simps)
next
  case (Font_8x16 f)
  define cs where "cs = map (\<lambda>i. text_buf s (pc + i)) [0..<16]"
  define T where "T = glyph_top_8x16 f cs"
  define Y where "Y = glyph_bottom_8x16 f cs"
  have lens: "length T = 128" "length Y = 128"
    by (simp_all add: T_def Y_def cs_def length_glyph_top_8x16 length_glyph_bottom_8x16)
  have fin: "put (put (buffer s) 0 T) 128 Y = put (buffer s) 0 (T @ Y)"
    by (rule put_put) (simp add: lens)
  have "oled_convert_text_row h pc s = s\<lparr>buffer := put (put (buffer s) 0 T) 128 Y\<rparr>"
    unfolding oled_convert_text_row_def Font_8x16 oled_convert_text_row_8x16_def
      fold_convert_8x16 [OF order_refl]
    by (simp add: T_def Y_def cs_def del: upt_rec_numeral)
  then show ?thesis
    unfolding fin by (simp add: Font_8x16 T_def Y_def cs_def del: upt_rec_numeral)
qed

lemma lcd_sync_loop_advanced:
  "lcd_sync_loop h c ns s = Inr s' \<Longrightarrow> 2 \<le> unat (refresh_count s' - c)"
proof (induction ns arbitrary: s)
  case Nil
  then show ?case by simp
next
  case (Cons n ns)
  show ?case
  proof (cases "serve_irqs h n s")
    case (Inl e)
    with Cons.prems show ?thesis by simp
  next
    case (Inr s1)
    show ?thesis
    proof (cases "unat (refresh_count s1 - c) < 2")
      case True
      with Cons.prems Inr have "lcd_sync_loop h c ns s1 = Inr s'" by simp
      then show ?thesis by (rule Cons.IH)
    next
      case False
      with Cons.prems Inr have "s' = s1\<lparr>irq_in := ns\<rparr>" by simp
      with False show ?thesis by simp
    qed
  qed
qed

lemma dma_start_cndtr: "dma_start h sz s = Inr s' \<Longrightarrow> dma_cndtr s' = sz"
  by (auto simp: dma_start_def Let_def seq_def stk_now_def timer_set_def
           split: if_splits list.splits)

lemma dma_start_assert: "dma_start h sz s = Inl Assert_failed \<longleftrightarrow> 256 < sz"
  by (auto simp: dma_start_def Let_def seq_def stk_now_def sizeof_buffer_def
           split: if_splits list.splits)

lemma oled_init_cndtr: "oled_init h s = Inr s' \<Longrightarrow> dma_cndtr s' = 63"
  unfolding oled_init_def Let_def
  by (simp add: emit_cmds_put oled_start_i2c_put init_cmds_def) (drule dma_start_cndtr, simp)

lemma lcd_init_hd44780_cndtr:
  "lcd_init_hd44780 h True s = Inr (True, s') \<Longrightarrow> dma_cndtr s' = 24"
  unfolding lcd_init_hd44780_def Let_def seq_def
  by (auto simp: emit8_put lcd_init_fail_def split: sum.splits if_splits prod.splits
           dest!: dma_start_cndtr)

lemma oled_prep_buffer_row:
  "unat (oled_row s) < 2 \<Longrightarrow>
   oled_prep_buffer h s =
     Inr (256, s\<lparr>buffer := put (buffer s) 0
                  (glyph_data (oled_font h)
                     (map (\<lambda>i. text_buf s (16 * unat (oled_row s) + i)) [0..<16])),
               oled_row := oled_row s + 1\<rparr>)"
  by (auto simp: oled_prep_buffer_def Let_def oled_convert_text_row_put simp del: upt_rec_numeral)

lemma oled_prep_buffer_wrap:
  "oled_row s = 2 \<Longrightarrow> oled_wait_btf (sr1_in s) = Inr (True, rs) \<Longrightarrow>
   wait_stop_loop (stop_in s) = Inr bs \<Longrightarrow>
   oled_prep_buffer h s =
     Inr (19, s\<lparr>refresh_count := refresh_count s + 1,
              buffer := put (buffer s) 0 (readdress_bytes (bl s)),
              oled_row := 0,
              i2c_cr1 := insert I2C_CR1_START (i2c_cr1 s - {I2C_CR1_STOP}),
              i2c_cr2 := insert I2C_CR2_ITEVTEN (i2c_cr2 s),
              events := events s @ [Ev_stop],
              sr1_in := rs, stop_in := bs\<rparr>)"
  by (simp add: oled_prep_buffer_def Let_def seq_def wait_stop_def oled_start_i2c_put)

lemma oled_prep_buffer_error:
  "oled_row s = 2 \<Longrightarrow> oled_wait_btf (sr1_in s) = Inr (False, rs) \<Longrightarrow>
   oled_prep_buffer h s = Inr (0, s\<lparr>refresh_count := refresh_count s + 1, sr1_in := rs\<rparr>)"
  by (simp add: oled_prep_buffer_def Let_def seq_def)

lemma put_read0: "length xs = n \<Longrightarrow> map (put b 0 xs) [0..<n] = xs"
  using put_read [of b 0 xs] by simp

lemma map_text_row1: "map (\<lambda>i. t (16 + i)) [0..<16] = map t [16..<32]"
proof -
  have "[16..<32] = map (\<lambda>i. i + 16) [0..<16]"
    by (simp add: map_add_upt del: upt_rec_numeral)
  then show ?thesis
    by (simp add: comp_def add.commute del: upt_rec_numeral)
qed

lemma oled_prep_buffer_flags:
  "oled_prep_buffer h s = Inr (n, s') \<Longrightarrow> dma_ch4_flags s' = dma_ch4_flags s"
  unfolding oled_prep_buffer_def Let_def seq_def wait_stop_def
  by (auto simp: oled_start_i2c_put oled_convert_text_row_put
           split: if_splits sum.splits simp del: upt_rec_numeral)

section \<open>Facts about the synchronous bus routines\<close>

lemma i2c_wait_loop_result:
  "i2c_wait_loop h m t rs nows s = Inr (ok, s') \<Longrightarrow>
   bus_rest s' = bus_rest s \<and> i2c_cr1 s' = i2c_cr1 s \<and> events s' = events s \<and>
   stop_in s' = stop_in s \<and>
   ((ok \<and> (\<exists>r \<in> set rs. m \<subseteq> r) \<and> i2c_dead s' = i2c_dead s \<and>
       i2c_sr1_written s' = i2c_sr1_written s) \<or>
    (\<not> ok \<and> (\<exists>r \<in> set rs. sr1_has_errors r) \<and> i2c_dead s' = i2c_dead s \<and>
       (\<exists>r'. i2c_sr1_written s' = Some (sr1_clear_errors r'))) \<or>
    (\<not> ok \<and> (\<exists>n \<in> set nows. timed_out h t n) \<and> i2c_dead s' \<and>
       i2c_sr1_written s' = i2c_sr1_written s))"
proof (induction h m t rs nows s rule: i2c_wait_loop.induct)
  case (1 h m t nows s)
  then show ?case by simp
next
  case (2 h m t r rs nows s)
  show ?case
  proof (cases "m \<subseteq> r")
    case True
    with "2.prems" show ?thesis by (auto simp: bus_rest_def)
  next
    case nm: False
    show ?thesis
    proof (cases rs)
      case Nil
      with nm "2.prems" show ?thesis by simp
    next
      case rc: (Cons r' rs')
      show ?thesis
      proof (cases "sr1_has_errors r'")
        case True
        with nm rc "2.prems" show ?thesis by (cases rs') (auto simp: bus_rest_def)
      next
        case ne: False
        show ?thesis
        proof (cases nows)
          case Nil
          with nm rc ne "2.prems" show ?thesis by simp
        next
          case nc: (Cons n nows')
          show ?thesis
          proof (cases "stk_diff h t n > stk_ms h 10")
            case True
            with nm rc ne nc "2.prems" show ?thesis by (auto simp: timed_out_def bus_rest_def)
          next
            case nt: False
            with nm rc ne nc "2.prems"
            have "i2c_wait_loop h m t rs' nows' s = Inr (ok, s')" by simp
            from "2.IH" [OF nm rc ne nc nt this] rc nc show ?thesis
              by auto
          qed
        qed
      qed
    qed
  qed
qed

lemma bus_rest_fields:
  assumes "bus_rest s' = bus_rest s"
  shows "bl s' = bl s" and "i2c_addr s' = i2c_addr s" and "refresh_count s' = refresh_count s"
    and "buffer s' = buffer s" and "text_buf s' = text_buf s" and "oled_row s' = oled_row s"
    and "timeout_timer s' = timeout_timer s" and "i2c_cr2 s' = i2c_cr2 s"
    and "i2c_ccr s' = i2c_ccr s" and "i2c_trise s' = i2c_trise s" and "dma_ccr s' = dma_ccr s"
    and "dma_cndtr s' = dma_cndtr s" and "dma_cmar s' = dma_cmar s" and "dma_cpar s' = dma_cpar s"
    and "dma_ch4_flags s' = dma_ch4_flags s" and "rcc_apb1enr s' = rcc_apb1enr s"
    and "irq_enabled s' = irq_enabled s" and "irq_pending s' = irq_pending s"
    and "irq_prio s' = irq_prio s" and "pin_cfg s' = pin_cfg s" and "pin_out s' = pin_out s"
    and "pin_in s' = pin_in s" and "irq_in s' = irq_in s"
  using arg_cong [OF assms, of bl] arg_cong [OF assms, of i2c_addr]
    arg_cong [OF assms, of refresh_count] arg_cong [OF assms, of buffer]
    arg_cong [OF assms, of text_buf] arg_cong [OF assms, of oled_row]
    arg_cong [OF assms, of timeout_timer] arg_cong [OF assms, of i2c_cr2]
    arg_cong [OF assms, of i2c_ccr] arg_cong [OF assms, of i2c_trise]
    arg_cong [OF assms, of dma_ccr] arg_cong [OF assms, of dma_cndtr]
    arg_cong [OF assms, of dma_cmar] arg_cong [OF assms, of dma_cpar]
    arg_cong [OF assms, of dma_ch4_flags] arg_cong [OF assms, of rcc_apb1enr]
    arg_cong [OF assms, of irq_enabled] arg_cong [OF assms, of irq_pending]
    arg_cong [OF assms, of irq_prio] arg_cong [OF assms, of pin_cfg]
    arg_cong [OF assms, of pin_out] arg_cong [OF assms, of pin_in]
    arg_cong [OF assms, of irq_in]
  by (simp_all add: bus_rest_def)

lemma i2c_wait_result:
  assumes "i2c_wait h m s = Inr (ok, s')"
  shows "bus_rest s' = bus_rest s" and "i2c_cr1 s' = i2c_cr1 s" and "events s' = events s"
    and "stop_in s' = stop_in s" and "ok \<Longrightarrow> i2c_dead s' = i2c_dead s"
    and "i2c_dead s \<Longrightarrow> i2c_dead s'"
    and "(ok \<and> (\<exists>r \<in> set (sr1_in s). m \<subseteq> r) \<and> i2c_dead s' = i2c_dead s \<and>
            i2c_sr1_written s' = i2c_sr1_written s) \<or>
         (\<not> ok \<and> (\<exists>r \<in> set (sr1_in s). sr1_has_errors r) \<and> i2c_dead s' = i2c_dead s \<and>
            (\<exists>r'. i2c_sr1_written s' = Some (sr1_clear_errors r'))) \<or>
         (\<not> ok \<and> (\<exists>n \<in> set (tl (now_in s)). timed_out h (hd (now_in s)) n) \<and> i2c_dead s' \<and>
            i2c_sr1_written s' = i2c_sr1_written s)"
proof -
  from assms obtain t nows where n: "now_in s = t # nows"
    and l: "i2c_wait_loop h m t (sr1_in s) nows s = Inr (ok, s')"
    by (auto simp: i2c_wait_def split: list.splits)
  note r = i2c_wait_loop_result [OF l]
  from r show "bus_rest s' = bus_rest s" "i2c_cr1 s' = i2c_cr1 s" "events s' = events s"
    "stop_in s' = stop_in s" by simp_all
  from r show "ok \<Longrightarrow> i2c_dead s' = i2c_dead s" by auto
  from r show "i2c_dead s \<Longrightarrow> i2c_dead s'" by auto
  from r n show "(ok \<and> (\<exists>r \<in> set (sr1_in s). m \<subseteq> r) \<and> i2c_dead s' = i2c_dead s \<and>
            i2c_sr1_written s' = i2c_sr1_written s) \<or>
         (\<not> ok \<and> (\<exists>r \<in> set (sr1_in s). sr1_has_errors r) \<and> i2c_dead s' = i2c_dead s \<and>
            (\<exists>r'. i2c_sr1_written s' = Some (sr1_clear_errors r'))) \<or>
         (\<not> ok \<and> (\<exists>n \<in> set (tl (now_in s)). timed_out h (hd (now_in s)) n) \<and> i2c_dead s' \<and>
            i2c_sr1_written s' = i2c_sr1_written s)"
    by simp
qed

lemma wait_stop_result:
  assumes "wait_stop s = Inr s'"
  shows "bus_rest s' = bus_rest s" and "i2c_cr1 s' = i2c_cr1 s - {I2C_CR1_STOP}"
    and "events s' = events s" and "i2c_dead s' = i2c_dead s"
  using assms by (auto simp: wait_stop_def seq_def bus_rest_def split: sum.splits)

lemma seq_InrE:
  assumes "seq m f = Inr y"
  obtains x where "m = Inr x" and "f x = Inr y"
  using assms by (cases m) (simp_all add: seq_def)

lemma seq_Inr_pairE:
  assumes "seq m (\<lambda>(a, b). f a b) = Inr y"
  obtains a b where "m = Inr (a, b)" and "f a b = Inr y"
  using assms by (cases m) (auto simp: seq_def)

lemma seq_Inr_pairD:
  "seq m (\<lambda>(a, b). f a b) = Inr y \<Longrightarrow> \<exists>a b. m = Inr (a, b) \<and> f a b = Inr y"
  by (cases m) (auto simp: seq_def)

lemma seq_InrD: "seq m f = Inr y \<Longrightarrow> \<exists>x. m = Inr x \<and> f x = Inr y"
  by (cases m) (auto simp: seq_def)

lemma i2c_start_result:
  assumes "i2c_start h a s = Inr (ok, s')"
  shows "bus_rest s' = bus_rest s \<and> i2c_cr1 s' = insert I2C_CR1_START (i2c_cr1 s) \<and>
      ((\<not> ok \<and> events s' = events s) \<or> events s' = events s @ [Ev_dr_write (2 * unat a)]) \<and>
      (ok \<longrightarrow> i2c_dead s' = i2c_dead s) \<and> (i2c_dead s \<longrightarrow> i2c_dead s') \<and> stop_in s' = stop_in s"
proof -
  define s0 where "s0 = s\<lparr>i2c_cr1 := insert I2C_CR1_START (i2c_cr1 s)\<rparr>"
  from assms have "seq (i2c_wait h {I2C_SR1_SB} s0) (\<lambda>(ok, s).
        if \<not> ok then Inr (False, s)
        else seq (i2c_wait h {I2C_SR1_ADDR} (dr_write (2 * unat a) s))
                (\<lambda>(ok, s). if \<not> ok then Inr (False, s) else Inr (True, s))) = Inr (ok, s')"
    unfolding i2c_start_def Let_def s0_def .
  then obtain ok1 s1 where w1: "i2c_wait h {I2C_SR1_SB} s0 = Inr (ok1, s1)"
    and rest: "(if \<not> ok1 then Inr (False, s1)
         else seq (i2c_wait h {I2C_SR1_ADDR} (dr_write (2 * unat a) s1))
                (\<lambda>(ok, s). if \<not> ok then Inr (False, s) else Inr (True, s))) = Inr (ok, s')"
    by (blast dest: seq_Inr_pairD)
  note r1 = i2c_wait_result [OF w1]
  have b0: "bus_rest s0 = bus_rest s" "events s0 = events s" "i2c_dead s0 = i2c_dead s"
    "stop_in s0 = stop_in s" "i2c_cr1 s0 = insert I2C_CR1_START (i2c_cr1 s)"
    by (simp_all add: s0_def bus_rest_def)
  show ?thesis
  proof (cases ok1)
    case False
    with rest have "ok = False" "s' = s1" by simp_all
    with r1(1-6) b0 show ?thesis by simp
  next
    case True
    define s2 where "s2 = dr_write (2 * unat a) s1"
    from True rest
    have "seq (i2c_wait h {I2C_SR1_ADDR} s2)
            (\<lambda>(ok, s). if \<not> ok then Inr (False, s) else Inr (True, s)) = Inr (ok, s')"
      by (simp add: s2_def)
    then obtain ok2 s3 where w2': "i2c_wait h {I2C_SR1_ADDR} s2 = Inr (ok2, s3)"
      and fin: "(if \<not> ok2 then Inr (False, s3) else Inr (True, s3)) =
                  (Inr (ok, s') :: (bool \<times> lcd_state) result)"
      by (blast dest: seq_Inr_pairD)
    from fin have ok: "ok = ok2" and "s3 = s'" by (simp_all split: if_splits)
    with w2' have w2: "i2c_wait h {I2C_SR1_ADDR} s2 = Inr (ok2, s')" by simp
    note r2 = i2c_wait_result [OF w2]
    have b2: "bus_rest s2 = bus_rest s1" "events s2 = events s1 @ [Ev_dr_write (2 * unat a)]"
      "i2c_dead s2 = i2c_dead s1" "stop_in s2 = stop_in s1" "i2c_cr1 s2 = i2c_cr1 s1"
      by (simp_all add: s2_def dr_write_def bus_rest_def)
    from True r1(1-6) r2(1-6) b0 b2 ok show ?thesis by simp
  qed
qed

lemma i2c_cmd_result:
  assumes "i2c_cmd h c s = Inr (ok, s')"
  shows "bus_rest s' = bus_rest s" and "i2c_cr1 s' = i2c_cr1 s"
    and "events s' = events s @ [Ev_dr_write (unat c)]"
    and "ok \<Longrightarrow> i2c_dead s' = i2c_dead s" and "i2c_dead s \<Longrightarrow> i2c_dead s'"
    and "stop_in s' = stop_in s"
proof -
  define s0 where "s0 = dr_write (unat c) s"
  from assms have w: "i2c_wait h {I2C_SR1_BTF} s0 = Inr (ok, s')"
    by (simp add: i2c_cmd_def s0_def)
  note r = i2c_wait_result [OF w]
  have b0: "bus_rest s0 = bus_rest s" "events s0 = events s @ [Ev_dr_write (unat c)]"
    "i2c_dead s0 = i2c_dead s" "stop_in s0 = stop_in s" "i2c_cr1 s0 = i2c_cr1 s"
    by (simp_all add: s0_def dr_write_def bus_rest_def)
  from r(1-6) b0 show "bus_rest s' = bus_rest s" and "i2c_cr1 s' = i2c_cr1 s"
    and "events s' = events s @ [Ev_dr_write (unat c)]"
    and "ok \<Longrightarrow> i2c_dead s' = i2c_dead s" and "i2c_dead s \<Longrightarrow> i2c_dead s'"
    and "stop_in s' = stop_in s"
    by simp_all
qed

lemma write4_result:
  assumes "write4 h v s = Inr s'"
  shows "bus_rest s' = bus_rest s" and "i2c_cr1 s' = i2c_cr1 s"
    and "events s' = events s @ map Ev_dr_write [unat v, unat (v OR EN), unat v]"
    and "i2c_dead s \<Longrightarrow> i2c_dead s'"
proof -
  from assms obtain o1 s1 where c1: "i2c_cmd h v s = Inr (o1, s1)"
    and a2: "seq (i2c_cmd h (v OR EN) s1) (\<lambda>(ok, s).
               seq (i2c_cmd h v s) (\<lambda>(ok, s). Inr s)) = Inr s'"
    unfolding write4_def by (blast dest: seq_Inr_pairD)
  from a2 obtain o2 s2 where c2: "i2c_cmd h (v OR EN) s1 = Inr (o2, s2)"
    and a3: "seq (i2c_cmd h v s2) (\<lambda>(ok, s). Inr s) = Inr s'"
    by (blast dest: seq_Inr_pairD)
  from a3 obtain o3 s3 where c3': "i2c_cmd h v s2 = Inr (o3, s3)" and "Inr s3 = (Inr s' :: lcd_state result)"
    by (blast dest: seq_Inr_pairD)
  then have c3: "i2c_cmd h v s2 = Inr (o3, s')" by simp
  note r1 = i2c_cmd_result [OF c1] and r2 = i2c_cmd_result [OF c2] and r3 = i2c_cmd_result [OF c3]
  from r1 r2 r3 show "bus_rest s' = bus_rest s" and "i2c_cr1 s' = i2c_cr1 s"
    and "events s' = events s @ map Ev_dr_write [unat v, unat (v OR EN), unat v]"
    and "i2c_dead s \<Longrightarrow> i2c_dead s'"
    by simp_all
qed

lemma i2c_probe_result:
  assumes "i2c_probe h a s = Inr (ok, s')"
  shows "bus_rest s' = bus_rest s \<and>
      (I2C_CR1_PE \<in> i2c_cr1 s \<longrightarrow> I2C_CR1_PE \<in> i2c_cr1 s') \<and>
      (\<exists>ws. events s' = events s @ map Ev_dr_write ws @ (if ok then [Ev_stop] else [])) \<and>
      (ok \<longrightarrow> i2c_dead s' = i2c_dead s) \<and> (i2c_dead s \<longrightarrow> i2c_dead s')"
proof -
  from assms obtain ok1 s1 where st: "i2c_start h a s = Inr (ok1, s1)"
    and rest1: "(if \<not> ok1 then Inr (False, s1)
       else seq (i2c_cmd h 0 s1) (\<lambda>(ok, s).
           if \<not> ok then Inr (False, s)
           else
             let s = s\<lparr>i2c_cr1 := insert I2C_CR1_STOP (i2c_cr1 s),
                      events := events s @ [Ev_stop]\<rparr> in
             seq (wait_stop s) (\<lambda>s. Inr (True, s)))) = (Inr (ok, s') :: (bool \<times> lcd_state) result)"
    unfolding i2c_probe_def by (blast dest: seq_Inr_pairD)
  from i2c_start_result [OF st]
  have r1: "bus_rest s1 = bus_rest s" "i2c_cr1 s1 = insert I2C_CR1_START (i2c_cr1 s)"
    "ok1 \<longrightarrow> i2c_dead s1 = i2c_dead s" "i2c_dead s \<longrightarrow> i2c_dead s1"
    and ev1: "events s1 = events s \<or> events s1 = events s @ [Ev_dr_write (2 * unat a)]"
    by blast+
  from ev1 have "events s1 = events s @ map Ev_dr_write [] \<or>
                 events s1 = events s @ map Ev_dr_write [2 * unat a]"
    by simp
  then obtain ws1 where e1: "events s1 = events s @ map Ev_dr_write ws1"
    by blast
  show ?thesis
  proof (cases ok1)
    case False
    with rest1 have f: "ok = False" "s' = s1" by simp_all
    from e1 have "events s1 = events s @ map Ev_dr_write ws1 @ (if False then [Ev_stop] else [])"
      by simp
    then have "\<exists>ws. events s1 = events s @ map Ev_dr_write ws @ (if False then [Ev_stop] else [])" ..
    with r1 show ?thesis unfolding f by blast
  next
    case True
    with rest1 have "seq (i2c_cmd h 0 s1) (\<lambda>(ok, s).
           if \<not> ok then Inr (False, s)
           else
             let s = s\<lparr>i2c_cr1 := insert I2C_CR1_STOP (i2c_cr1 s),
                      events := events s @ [Ev_stop]\<rparr> in
             seq (wait_stop s) (\<lambda>s. Inr (True, s))) = (Inr (ok, s') :: (bool \<times> lcd_state) result)"
      by simp
    then obtain ok2 s2 where cm: "i2c_cmd h 0 s1 = Inr (ok2, s2)"
      and rest2: "(if \<not> ok2 then Inr (False, s2)
           else
             let s = s2\<lparr>i2c_cr1 := insert I2C_CR1_STOP (i2c_cr1 s2),
                       events := events s2 @ [Ev_stop]\<rparr> in
             seq (wait_stop s) (\<lambda>s. Inr (True, s))) = (Inr (ok, s') :: (bool \<times> lcd_state) result)"
      by (blast dest: seq_Inr_pairD)
    from i2c_cmd_result [OF cm]
    have r2: "bus_rest s2 = bus_rest s1" "i2c_cr1 s2 = i2c_cr1 s1"
      "events s2 = events s1 @ [Ev_dr_write (unat (0 :: u8))]"
      "ok2 \<Longrightarrow> i2c_dead s2 = i2c_dead s1" "i2c_dead s1 \<Longrightarrow> i2c_dead s2"
      by blast+
    have e2: "events s2 = events s @ map Ev_dr_write (ws1 @ [0])"
      by (simp add: r2 e1)
    show ?thesis
    proof (cases ok2)
      case False
      with rest2 have ok: "ok = False" and s': "s' = s2" by simp_all
      have "bus_rest s' = bus_rest s" by (simp add: s' r1 r2)
      moreover have "I2C_CR1_PE \<in> i2c_cr1 s \<longrightarrow> I2C_CR1_PE \<in> i2c_cr1 s'"
        by (simp add: s' r1 r2)
      moreover have "\<exists>ws. events s' = events s @ map Ev_dr_write ws @ (if ok then [Ev_stop] else [])"
      proof
        show "events s' = events s @ map Ev_dr_write (ws1 @ [0]) @ (if ok then [Ev_stop] else [])"
          unfolding s' ok using e2 by simp
      qed
      moreover have "i2c_dead s \<longrightarrow> i2c_dead s'"
        unfolding s' using r1 r2 by blast
      ultimately show ?thesis using ok by blast
    next
      case ok2: True
      define s3 where "s3 = s2\<lparr>i2c_cr1 := insert I2C_CR1_STOP (i2c_cr1 s2),
                                events := events s2 @ [Ev_stop]\<rparr>"
      from ok2 rest2 have "seq (wait_stop s3) (\<lambda>s. Inr (True, s)) = (Inr (ok, s') :: (bool \<times> lcd_state) result)"
        by (simp add: s3_def Let_def)
      then obtain s4 where ws: "wait_stop s3 = Inr s4" and "Inr (True, s4) = (Inr (ok, s') :: (bool \<times> lcd_state) result)"
        by (blast dest: seq_InrD)
      then have ok: "ok" and s4: "s4 = s'" by simp_all
      from wait_stop_result [OF ws]
      have r3: "bus_rest s' = bus_rest s3" "i2c_cr1 s' = i2c_cr1 s3 - {I2C_CR1_STOP}"
        "events s' = events s3" "i2c_dead s' = i2c_dead s3"
        unfolding s4 by blast+
      have b3: "bus_rest s3 = bus_rest s2" "events s3 = events s2 @ [Ev_stop]"
        "i2c_dead s3 = i2c_dead s2"
        "i2c_cr1 s3 = insert I2C_CR1_STOP (i2c_cr1 s2)"
        by (simp_all add: s3_def bus_rest_def)
      have "bus_rest s' = bus_rest s" by (simp add: r1 r2 r3 b3)
      moreover have "I2C_CR1_PE \<in> i2c_cr1 s \<longrightarrow> I2C_CR1_PE \<in> i2c_cr1 s'"
        by (simp add: r1 r2 r3 b3)
      moreover have "\<exists>ws. events s' = events s @ map Ev_dr_write ws @ (if ok then [Ev_stop] else [])"
      proof
        show "events s' = events s @ map Ev_dr_write (ws1 @ [0]) @ (if ok then [Ev_stop] else [])"
          unfolding r3 b3 using e2 ok by simp
      qed
      moreover have "i2c_dead s' = i2c_dead s"
        using r1 r2 True ok2 by (simp add: r3 b3)
      ultimately show ?thesis by simp
    qed
  qed
qed

lemma i2c_probe_range_result:
  "i2c_probe_range h a e s = Inr (r, s') \<Longrightarrow>
   bus_rest s' = bus_rest s \<and>
   (I2C_CR1_PE \<in> i2c_cr1 s \<longrightarrow> I2C_CR1_PE \<in> i2c_cr1 s') \<and>
   (\<exists>es. events s' = events s @ es \<and> list_all is_bus_event es) \<and>
   (i2c_dead s' \<longrightarrow> r = 0) \<and> (i2c_dead s \<longrightarrow> s' = s) \<and>
   (r \<noteq> 0 \<longrightarrow> r \<le> e)"
proof (induction h a e s rule: i2c_probe_range.induct)
  case (1 h a e s)
  show ?case
  proof (cases "a \<le> e \<and> \<not> i2c_dead s")
    case False
    with "1.prems" have "r = 0" "s' = s"
      by (subst (asm) i2c_probe_range.simps, auto)+
    moreover have "events s = events s @ [] \<and> list_all is_bus_event []" by simp
    ultimately show ?thesis by blast
  next
    case True
    with "1.prems" have run: "(case i2c_probe h a s of Inl f \<Rightarrow> Inl f
         | Inr (ok, s') \<Rightarrow> if ok then Inr (a, s') else i2c_probe_range h (a + 1) e s')
        = Inr (r, s')"
      by (subst (asm) i2c_probe_range.simps) simp
    then obtain ok s1 where p: "i2c_probe h a s = Inr (ok, s1)"
      by (cases "i2c_probe h a s") auto
    note r1 = i2c_probe_result [OF p]
    obtain ws1 where "events s1 = events s @ map Ev_dr_write ws1 @ (if ok then [Ev_stop] else [])"
      using r1 by blast
    then have w1: "\<exists>es. events s1 = events s @ es \<and> list_all is_bus_event es"
      by (auto simp: list_all_iff)
    show ?thesis
    proof (cases ok)
      case ok: True
      with run p have "r = a" "s' = s1" by simp_all
      with r1 True ok w1 show ?thesis by auto
    next
      case False
      with run p have rec: "i2c_probe_range h (a + 1) e s1 = Inr (r, s')" by simp
      note ih = "1.IH" [OF True p refl False rec]
      obtain es1 where e1: "events s1 = events s @ es1" "list_all is_bus_event es1"
        using w1 by blast
      obtain es2 where e2: "events s' = events s1 @ es2" "list_all is_bus_event es2"
        using ih by blast
      have "events s' = events s @ (es1 @ es2) \<and> list_all is_bus_event (es1 @ es2)"
        by (simp add: e1 e2)
      then have ev: "\<exists>es. events s' = events s @ es \<and> list_all is_bus_event es" ..
      from ih r1 True ev show ?thesis
        by simp
    qed
  qed
qed

lemma scan_list_dead: "i2c_dead s \<Longrightarrow> scan_list h as s = Inr (0, s)"
  by (cases as) simp_all

lemma i2c_probe_range_scan:
  "unat a + n = Suc (unat e) \<Longrightarrow> unat e < 255 \<Longrightarrow>
   i2c_probe_range h a e s = scan_list h (map (\<lambda>k. a + of_nat k) [0..<n]) s"
proof (induction n arbitrary: a s)
  case 0
  then have "\<not> a \<le> e" by (simp add: word_le_nat_alt)
  then show ?case by (subst i2c_probe_range.simps) simp
next
  case (Suc n)
  from Suc.prems have le: "a \<le> e" by (simp add: word_le_nat_alt)
  from Suc.prems have "unat a < 255" by simp
  then have ua: "unat (a + 1) = Suc (unat a)"
    using unat_add_lem [of a 1] by simp
  have ih: "i2c_probe_range h (a + 1) e s1 = scan_list h (map (\<lambda>k. a + 1 + of_nat k) [0..<n]) s1" for s1
    using Suc.prems ua by (intro Suc.IH) simp_all
  have l: "map (\<lambda>k. a + of_nat k) [0..<Suc n] = a # map (\<lambda>k. a + 1 + of_nat k) [0..<n]"
  proof -
    have "[0..<Suc n] = 0 # map Suc [0..<n]"
      by (simp add: upt_conv_Cons map_Suc_upt del: upt_Suc)
    then show ?thesis
      by (simp add: comp_def add.assoc del: upt_Suc)
  qed
  show ?case
    unfolding l by (subst i2c_probe_range.simps) (auto simp: le ih split: sum.splits)
qed

lemma scan_list_append:
  "0 \<notin> set as \<Longrightarrow>
   scan_list h (as @ bs) s =
     seq (scan_list h as s) (\<lambda>(a, s'). if a \<noteq> 0 then Inr (a, s') else scan_list h bs s')"
proof (induction as arbitrary: s)
  case Nil
  show ?case by (simp add: seq_def)
next
  case (Cons a as)
  then have ih: "scan_list h (as @ bs) s1 =
     seq (scan_list h as s1) (\<lambda>(a, s'). if a \<noteq> 0 then Inr (a, s') else scan_list h bs s')" for s1
    by simp
  from Cons.prems have a0: "a \<noteq> 0" by auto
  show ?case
  proof (cases "i2c_dead s")
    case True
    then show ?thesis by (simp add: seq_def scan_list_dead)
  next
    case False
    then show ?thesis
      by (cases "i2c_probe h a s") (auto simp: ih a0 seq_def)
  qed
qed

lemma lcd_init_scan_list: "lcd_init_scan h s = scan_list h scan_addresses s"
proof -
  have r1: "i2c_probe_range h 0x20 0x27 s1 = scan_list h [0x20, 0x21, 0x22, 0x23, 0x24, 0x25, 0x26, 0x27] s1" for s1
    using i2c_probe_range_scan [of "0x20" 8 "0x27" h s1]
    by (simp add: upt_conv_Cons)
  have r2: "i2c_probe_range h 0x38 0x3f s1 = scan_list h [0x38, 0x39, 0x3a, 0x3b, 0x3c, 0x3d, 0x3e, 0x3f] s1" for s1
    using i2c_probe_range_scan [of "0x38" 8 "0x3f" h s1]
    by (simp add: upt_conv_Cons)
  have "scan_list h ([0x20, 0x21, 0x22, 0x23, 0x24, 0x25, 0x26, 0x27] @ [0x38, 0x39, 0x3a, 0x3b, 0x3c, 0x3d, 0x3e, 0x3f]) s
        = seq (scan_list h [0x20, 0x21, 0x22, 0x23, 0x24, 0x25, 0x26, 0x27] s)
            (\<lambda>(a, s'). if a \<noteq> 0 then Inr (a, s')
                       else scan_list h [0x38, 0x39, 0x3a, 0x3b, 0x3c, 0x3d, 0x3e, 0x3f] s')"
    by (rule scan_list_append) simp
  then show ?thesis
    unfolding lcd_init_scan_def r1 r2 scan_addresses_def by simp
qed



section \<open>Facts about the DMA-completion handler\<close>

lemma dma_start_returns:
  "sz \<le> sizeof_buffer \<Longrightarrow> now_in s \<noteq> [] \<Longrightarrow>
   dma_start h sz s =
     Inr (s\<lparr>timeout_timer := Some (stk_add h (hd (now_in s)) (DMA_TIMEOUT h)),
            dma_ccr := {DMA_CCR_MSIZE_8BIT, DMA_CCR_PSIZE_16BIT, DMA_CCR_MINC,
                        DMA_CCR_DIR_M2P, DMA_CCR_TCIE, DMA_CCR_EN},
            dma_cndtr := sz, dma_cmar := Some Addr_buffer, now_in := tl (now_in s)\<rparr>)"
  by (cases "now_in s") (simp_all add: dma_start_def Let_def seq_def stk_now_def timer_set_def)

lemma oled_row_cases: "unat (r :: u8) < 2 \<Longrightarrow> r = 0 \<or> r = 1"
  by (auto simp: word_unat_eq_iff less_2_cases_iff)

lemma oled_prep_buffer_returns:
  assumes "unat (oled_row s) \<le> 2"
    and "oled_row s = 2 \<Longrightarrow>
           (\<exists>rs. oled_wait_btf (sr1_in s) = Inr (False, rs)) \<or>
           (\<exists>rs bs. oled_wait_btf (sr1_in s) = Inr (True, rs) \<and>
                    wait_stop_loop (stop_in s) = Inr bs)"
  shows "\<exists>n s1. oled_prep_buffer h s = Inr (n, s1) \<and> n \<le> sizeof_buffer \<and>
           now_in s1 = now_in s \<and> dma_ccr s1 = dma_ccr s \<and>
           dma_ch4_flags s1 = dma_ch4_flags s \<and> unat (oled_row s1) \<le> 2"
proof (cases "oled_row s = 2")
  case True
  from assms(2) [OF True] show ?thesis
  proof
    assume "\<exists>rs. oled_wait_btf (sr1_in s) = Inr (False, rs)"
    then obtain rs where "oled_wait_btf (sr1_in s) = Inr (False, rs)" ..
    from oled_prep_buffer_error [OF True this, of h] True show ?thesis
      by (simp add: sizeof_buffer_def)
  next
    assume "\<exists>rs bs. oled_wait_btf (sr1_in s) = Inr (True, rs) \<and>
                    wait_stop_loop (stop_in s) = Inr bs"
    then obtain rs bs where "oled_wait_btf (sr1_in s) = Inr (True, rs)"
      "wait_stop_loop (stop_in s) = Inr bs" by blast
    from oled_prep_buffer_wrap [OF True this, of h] show ?thesis
      by (simp add: sizeof_buffer_def)
  qed
next
  case False
  then have "unat (oled_row s) \<noteq> 2"
    by (simp add: word_unat_eq_iff)
  with assms(1) have lt: "unat (oled_row s) < 2" by simp
  then have "oled_row s = 0 \<or> oled_row s = 1" by (rule oled_row_cases)
  then have "unat (oled_row s + 1) \<le> 2" by auto
  with oled_prep_buffer_row [OF lt, of h] show ?thesis
    by (simp add: sizeof_buffer_def del: upt_rec_numeral)
qed

section \<open>Facts about what interrupts and DMA leave alone\<close>

lemma quiet_fields:
  assumes "quiet s' = quiet s"
  shows "text_buf s' = text_buf s" and "i2c_addr s' = i2c_addr s" and "i2c_ccr s' = i2c_ccr s"
    and "irq_enabled s' = irq_enabled s" and "rcc_apb1enr s' = rcc_apb1enr s"
    and "pin_cfg s' = pin_cfg s"
  using assms by (simp_all add: quiet_def)

lemma bus_rest_quiet: "bus_rest s' = bus_rest s \<Longrightarrow> quiet s' = quiet s"
  using bus_rest_fields [of s' s] by (simp add: quiet_def)

lemma dma_start_result:
  assumes "dma_start h sz s = Inr s'"
  shows "quiet s' = quiet s \<and> events s' = events s \<and> i2c_dead s' = i2c_dead s \<and>
         i2c_cr1 s' = i2c_cr1 s \<and> i2c_cr2 s' = i2c_cr2 s \<and>
         timeout_timer s' \<noteq> None"
  using assms
  by (auto simp: dma_start_def Let_def seq_def stk_now_def timer_set_def quiet_def
           split: if_splits list.splits)

lemma oled_prep_buffer_quiet:
  "oled_prep_buffer h s = Inr (n, s') \<Longrightarrow> quiet s' = quiet s"
  unfolding oled_prep_buffer_def Let_def seq_def wait_stop_def
  by (auto simp: oled_start_i2c_put oled_convert_text_row_put quiet_def
           split: if_splits sum.splits simp del: upt_rec_numeral)

lemma IRQ_dma1_ch4_tc_quiet:
  assumes "IRQ_dma1_ch4_tc h s = Inr s'"
  shows "quiet s' = quiet s"
proof -
  define s0 where "s0 = s\<lparr>dma_ccr := {}, dma_ch4_flags := False\<rparr>"
  have q0: "quiet s0 = quiet s"
    by (simp_all add: s0_def quiet_def)
  from assms
  have "seq (if i2c_addr s0 = OLED_ADDR then oled_prep_buffer h s0 else Inr (lcd_prep_buffer s0))
          (\<lambda>(dma_sz, s). dma_start h dma_sz s) = Inr s'"
    unfolding IRQ_dma1_ch4_tc_def Let_def s0_def .
  then obtain n s1 where
    ser: "(if i2c_addr s0 = OLED_ADDR then oled_prep_buffer h s0 else Inr (lcd_prep_buffer s0))
            = Inr (n, s1)"
    and d: "dma_start h n s1 = Inr s'"
    by (blast dest: seq_Inr_pairD)
  have q1: "quiet s1 = quiet s0"
  proof (cases "i2c_addr s0 = OLED_ADDR")
    case True
    with ser have "oled_prep_buffer h s0 = Inr (n, s1)" by simp
    then show ?thesis by (rule oled_prep_buffer_quiet)
  next
    case False
    with ser have "s1 = snd (lcd_prep_buffer s0)" by (metis Inr_inject snd_conv)
    then show ?thesis by (simp add: lcd_prep_buffer_put quiet_def)
  qed
  from dma_start_result [OF d] q1 q0 show ?thesis by simp
qed

lemma serve_irqs_quiet:
  "serve_irqs h n s = Inr s' \<Longrightarrow> quiet s' = quiet s"
proof (induction n arbitrary: s)
  case 0
  then show ?case by simp
next
  case (Suc n)
  define s0 where "s0 = s\<lparr>dma_ch4_flags := True\<rparr>"
  from Suc.prems obtain s1 where i: "IRQ_dma1_ch4_tc h s0 = Inr s1"
    and r: "serve_irqs h n s1 = Inr s'"
    by (cases "IRQ_dma1_ch4_tc h s0") (simp_all add: s0_def)
  have q0: "quiet s0 = quiet s"
    by (simp_all add: s0_def quiet_def)
  from IRQ_dma1_ch4_tc_quiet [OF i] Suc.IH [OF r] q0 show ?case by simp
qed

lemma lcd_sync_loop_quiet:
  "lcd_sync_loop h c ns s = Inr s' \<Longrightarrow> quiet s' = quiet s"
proof (induction ns arbitrary: s)
  case Nil
  then show ?case by simp
next
  case (Cons n ns)
  from Cons.prems obtain s1 where v: "serve_irqs h n s = Inr s1"
    and r: "(if unat (refresh_count s1 - c) < 2 then lcd_sync_loop h c ns s1
             else Inr (s1\<lparr>irq_in := ns\<rparr>)) = Inr s'"
    by (cases "serve_irqs h n s") simp_all
  note q1 = serve_irqs_quiet [OF v]
  show ?case
  proof (cases "unat (refresh_count s1 - c) < 2")
    case True
    with r have "lcd_sync_loop h c ns s1 = Inr s'" by simp
    from Cons.IH [OF this] q1 show ?thesis by simp
  next
    case False
    with r have "s' = s1\<lparr>irq_in := ns\<rparr>" by simp
    with q1 show ?thesis by (simp add: quiet_def)
  qed
qed

lemma lcd_sync_quiet: "lcd_sync h s = Inr s' \<Longrightarrow> quiet s' = quiet s"
  unfolding lcd_sync_def Let_def by (rule lcd_sync_loop_quiet)

section \<open>Facts about initialisation\<close>

lemma gpio_rest_fields:
  assumes "gpio_rest s' = gpio_rest s"
  shows "text_buf s' = text_buf s" and "i2c_addr s' = i2c_addr s" and "i2c_ccr s' = i2c_ccr s"
    and "irq_enabled s' = irq_enabled s" and "rcc_apb1enr s' = rcc_apb1enr s"
    and "i2c_cr1 s' = i2c_cr1 s" and "i2c_cr2 s' = i2c_cr2 s"
    and "timeout_timer s' = timeout_timer s" and "i2c_dead s' = i2c_dead s"
  using arg_cong [OF assms, of text_buf] arg_cong [OF assms, of i2c_addr]
    arg_cong [OF assms, of i2c_ccr] arg_cong [OF assms, of irq_enabled]
    arg_cong [OF assms, of rcc_apb1enr] arg_cong [OF assms, of i2c_cr1]
    arg_cong [OF assms, of i2c_cr2] arg_cong [OF assms, of timeout_timer]
    arg_cong [OF assms, of i2c_dead]
  by (simp_all add: gpio_rest_def)

lemma lcd_init_unwedge_result:
  assumes "lcd_init_unwedge s = Inr s'"
  shows "gpio_rest s' = gpio_rest s"
    and "events s' = events s @ [Ev_gpio_configure SCL (GPO_opendrain True),
                                 Ev_gpio_configure SDA (GPO_opendrain True)]"
    and "pin_cfg s' = (pin_cfg s)(SCL \<mapsto> GPO_opendrain True, SDA \<mapsto> GPO_opendrain True)"
  using assms
  by (auto simp: lcd_init_unwedge_def Let_def seq_def gpio_configure_pin_def gpio_write_pin_def
        gpio_read_pin_def gpio_rest_def split: list.splits if_splits)

lemma lcd_init_check_bus_result:
  assumes "lcd_init_check_bus s = Inr (valid, s')"
  shows "gpio_rest s' = gpio_rest s"
    and "events s' = events s @ [Ev_gpio_configure SCL GPI_pull_down,
                                 Ev_gpio_configure SDA GPI_pull_down]"
    and "pin_cfg s' = (pin_cfg s)(SCL \<mapsto> GPI_pull_down, SDA \<mapsto> GPI_pull_down)"
  using assms
  by (auto simp: lcd_init_check_bus_def Let_def seq_def gpio_configure_pin_def
        gpio_read_pin_def gpio_rest_def split: list.splits if_splits)

lemma lcd_init_standard_mode_fields:
  "gpio_rest (lcd_init_standard_mode s) =
     gpio_rest (s\<lparr>i2c_cr1 := {I2C_CR1_PE}, i2c_cr2 := {I2C_CR2_FREQ 36},
                  i2c_ccr := {I2C_CCR_CCR 180}, i2c_trise := 37\<rparr>)"
  "events (lcd_init_standard_mode s) =
     events s @ [Ev_gpio_configure SCL AFO_opendrain, Ev_gpio_configure SDA AFO_opendrain]"
  "pin_cfg (lcd_init_standard_mode s) = (pin_cfg s)(SCL \<mapsto> AFO_opendrain, SDA \<mapsto> AFO_opendrain)"
  "text_buf (lcd_init_standard_mode s) = text_buf s"
  "i2c_addr (lcd_init_standard_mode s) = i2c_addr s"
  "i2c_ccr (lcd_init_standard_mode s) = {I2C_CCR_CCR 180}"
  "i2c_cr1 (lcd_init_standard_mode s) = {I2C_CR1_PE}"
  "i2c_cr2 (lcd_init_standard_mode s) = {I2C_CR2_FREQ 36}"
  "irq_enabled (lcd_init_standard_mode s) = irq_enabled s"
  "rcc_apb1enr (lcd_init_standard_mode s) = rcc_apb1enr s"
  "i2c_dead (lcd_init_standard_mode s) = i2c_dead s"
  by (simp_all add: lcd_init_standard_mode_def Let_def gpio_configure_pin_def gpio_rest_def)

lemma lcd_init_fail_first:
  "lcd_init_fail False s = (ok, s') \<Longrightarrow>
   \<not> ok \<and> text_buf s' = text_buf s \<and> i2c_addr s' = i2c_addr s \<and> i2c_ccr s' = i2c_ccr s \<and>
   irq_enabled s' = irq_enabled s - {I2C_ERROR_IRQ, DMA1_CH4_IRQ} \<and>
   i2c_cr1 s' = i2c_cr1 s - {I2C_CR1_PE} \<and>
   rcc_apb1enr s' = rcc_apb1enr s - {RCC_APB1ENR_I2C2EN} \<and>
   pin_cfg s' = (pin_cfg s)(SCL \<mapsto> GPI_pull_up, SDA \<mapsto> GPI_pull_up) \<and>
   events s' = events s @ [Ev_gpio_configure SCL GPI_pull_up, Ev_gpio_configure SDA GPI_pull_up] \<and>
   i2c_dead s' = i2c_dead s"
  by (auto simp: lcd_init_fail_def Let_def IRQx_disable_def gpio_configure_pin_def)

lemma lcd_init_fail_reinit: "lcd_init_fail True s = (False, s)"
  by (simp add: lcd_init_fail_def)

lemma lcd_init_irqs_result:
  assumes "lcd_init_irqs h s = Inr s'"
  shows "text_buf s' = text_buf s" and "i2c_addr s' = i2c_addr s" and "i2c_ccr s' = i2c_ccr s"
    and "rcc_apb1enr s' = rcc_apb1enr s" and "pin_cfg s' = pin_cfg s"
    and "events s' = events s" and "i2c_cr1 s' = i2c_cr1 s" and "i2c_dead s' = i2c_dead s"
    and "irq_enabled s' =
           insert DMA1_CH4_IRQ (insert I2C_ERROR_IRQ (insert I2C_EVENT_IRQ (irq_enabled s)))"
    and "i2c_cr2 s' = insert I2C_CR2_ITERREN (i2c_cr2 s)"
    and "timeout_timer s' \<noteq> None"
  using assms
  by (auto simp: lcd_init_irqs_def Let_def seq_def stk_now_def timer_set_def timer_init_def
        IRQx_set_prio_def IRQx_clear_pending_def IRQx_enable_def split: list.splits)

lemma oled_init_result:
  assumes "oled_init h s = Inr s'"
  shows "text_buf s' = text_buf s" and "i2c_addr s' = i2c_addr s"
    and "i2c_ccr s' = {I2C_CCR_FS, I2C_CCR_CCR 30}"
    and "rcc_apb1enr s' = rcc_apb1enr s" and "pin_cfg s' = pin_cfg s"
    and "events s' = events s" and "irq_enabled s' = irq_enabled s"
    and "i2c_dead s' = i2c_dead s"
    and "I2C_CR1_PE \<in> i2c_cr1 s'" and "I2C_CR2_ITERREN \<in> i2c_cr2 s'"
    and "timeout_timer s' \<noteq> None"
proof -
  from assms obtain s0 where d: "dma_start h 63 s0 = Inr s'"
    and s0: "text_buf s0 = text_buf s" "i2c_addr s0 = i2c_addr s"
      "i2c_ccr s0 = {I2C_CCR_FS, I2C_CCR_CCR 30}" "rcc_apb1enr s0 = rcc_apb1enr s"
      "pin_cfg s0 = pin_cfg s" "events s0 = events s" "irq_enabled s0 = irq_enabled s"
      "i2c_dead s0 = i2c_dead s" "I2C_CR1_PE \<in> i2c_cr1 s0" "I2C_CR2_ITERREN \<in> i2c_cr2 s0"
    unfolding oled_init_def Let_def
    by (simp add: emit_cmds_put oled_start_i2c_put init_cmds_def)
  from dma_start_result [OF d] s0
  show "text_buf s' = text_buf s" and "i2c_addr s' = i2c_addr s"
    and "i2c_ccr s' = {I2C_CCR_FS, I2C_CCR_CCR 30}"
    and "rcc_apb1enr s' = rcc_apb1enr s" and "pin_cfg s' = pin_cfg s"
    and "events s' = events s" and "irq_enabled s' = irq_enabled s"
    and "i2c_dead s' = i2c_dead s"
    and "I2C_CR1_PE \<in> i2c_cr1 s'" and "I2C_CR2_ITERREN \<in> i2c_cr2 s'"
    and "timeout_timer s' \<noteq> None"
    by (simp_all add: quiet_def)
qed

lemma write4_quiet:
  assumes "write4 h v s = Inr s'"
  shows "quiet s' = quiet s \<and> i2c_cr1 s' = i2c_cr1 s \<and> i2c_cr2 s' = i2c_cr2 s \<and>
         timeout_timer s' = timeout_timer s \<and>
         events s' = events s @ map Ev_dr_write [unat v, unat (v OR EN), unat v]"
  using write4_result(1-3) [OF assms] bus_rest_fields(7,8) [of s' s] bus_rest_quiet [of s' s]
  by simp

lemma hd44780_dma_part:
  assumes "(let (p, s) = emit8 0 c1 0 s;
                (p, s) = emit8 p c2 0 s;
                (p, s) = emit8 p c3 0 s;
                (p, s) = emit8 p c4 0 s;
                s = s\<lparr>i2c_cr2 := insert I2C_CR2_DMAEN (i2c_cr2 s)\<rparr>
            in seq (dma_start h p s) k) = Inr y"
  shows "\<exists>s6 s7. quiet s6 = quiet s \<and> events s6 = events s \<and> i2c_cr1 s6 = i2c_cr1 s \<and>
           i2c_cr2 s6 = insert I2C_CR2_DMAEN (i2c_cr2 s) \<and>
           dma_start h 24 s6 = Inr s7 \<and> k s7 = Inr y"
proof -
  define s6 where "s6 = (snd (emit8 18 c4 0 (snd (emit8 12 c3 0 (snd (emit8 6 c2 0
      (snd (emit8 0 c1 0 s)))))))) \<lparr>i2c_cr2 := insert I2C_CR2_DMAEN (i2c_cr2 s)\<rparr>"
  from assms have "seq (dma_start h 24 s6) k = Inr y"
    by (simp add: emit8_put Let_def s6_def)
  then obtain s7 where "dma_start h 24 s6 = Inr s7" "k s7 = Inr y"
    by (blast dest: seq_InrD)
  moreover have "quiet s6 = quiet s" "events s6 = events s" "i2c_cr1 s6 = i2c_cr1 s"
    "i2c_cr2 s6 = insert I2C_CR2_DMAEN (i2c_cr2 s)"
    by (simp_all add: s6_def emit8_put quiet_def)
  ultimately show ?thesis by blast
qed

lemma lcd_init_hd44780_result:
  assumes "lcd_init_hd44780 h r s = Inr (ok, s')"
  shows "(\<not> ok \<and> (\<exists>s1. i2c_start h (i2c_addr s) s = Inr (False, s1) \<and>
                      (ok, s') = lcd_init_fail r s1)) \<or>
         (ok \<and> quiet s' = quiet s \<and>
          (r \<longrightarrow> events s' =
                   events s @ map Ev_dr_write (2 * unat (i2c_addr s) # hd44780_nibbles) \<and>
                 i2c_cr1 s' = insert I2C_CR1_START (i2c_cr1 s) \<and>
                 i2c_cr2 s' = insert I2C_CR2_DMAEN (i2c_cr2 s) \<and>
                 timeout_timer s' \<noteq> None))"
proof -
  from assms obtain ok1 s1 where st: "i2c_start h (i2c_addr s) s = Inr (ok1, s1)"
    and rest: "(if \<not> ok1 then Inr (lcd_init_fail r s1)
       else
         seq (write4 h (push_bit 4 3) s1) (\<lambda>s.
         seq (write4 h (push_bit 4 3) s) (\<lambda>s.
         seq (write4 h (push_bit 4 3) s) (\<lambda>s.
         seq (write4 h (push_bit 4 2) s) (\<lambda>s.
           let (p, s) = emit8 0 (CMD_FUNCTIONSET OR FS_2LINE) 0 s;
               (p, s) = emit8 p CMD_DISPLAYCTL 0 s;
               (p, s) = emit8 p (CMD_ENTRYMODE OR 2) 0 s;
               (p, s) = emit8 p (CMD_DISPLAYCTL OR 4) 0 s;
               s = s\<lparr>i2c_cr2 := insert I2C_CR2_DMAEN (i2c_cr2 s)\<rparr>
           in seq (dma_start h p s) (\<lambda>s.
                if \<not> r then
                  seq (lcd_sync h s) (\<lambda>s. Inr (True, lcd_backlight True s))
                else Inr (True, s))))))) = (Inr (ok, s') :: (bool \<times> lcd_state) result)"
    unfolding lcd_init_hd44780_def by (blast dest: seq_Inr_pairD)
  show ?thesis
  proof (cases ok1)
    case False
    with rest have e: "lcd_init_fail r s1 = (ok, s')" by simp
    then have "\<not> ok" by (auto simp: lcd_init_fail_def Let_def split: if_splits)
    with st e False show ?thesis by auto
  next
    case True
    from i2c_start_result [OF st] True
    have r1: "bus_rest s1 = bus_rest s" "i2c_cr1 s1 = insert I2C_CR1_START (i2c_cr1 s)"
      "events s1 = events s @ [Ev_dr_write (2 * unat (i2c_addr s))]"
      by blast+
    have q1: "quiet s1 = quiet s" "i2c_cr2 s1 = i2c_cr2 s"
      using bus_rest_quiet [OF r1(1)] bus_rest_fields(8) [OF r1(1)] by simp_all
    from rest True obtain s2 where w2: "write4 h (push_bit 4 3) s1 = Inr s2"
      and rest2: "seq (write4 h (push_bit 4 3) s2) (\<lambda>s.
         seq (write4 h (push_bit 4 3) s) (\<lambda>s.
         seq (write4 h (push_bit 4 2) s) (\<lambda>s.
           let (p, s) = emit8 0 (CMD_FUNCTIONSET OR FS_2LINE) 0 s;
               (p, s) = emit8 p CMD_DISPLAYCTL 0 s;
               (p, s) = emit8 p (CMD_ENTRYMODE OR 2) 0 s;
               (p, s) = emit8 p (CMD_DISPLAYCTL OR 4) 0 s;
               s = s\<lparr>i2c_cr2 := insert I2C_CR2_DMAEN (i2c_cr2 s)\<rparr>
           in seq (dma_start h p s) (\<lambda>s.
                if \<not> r then
                  seq (lcd_sync h s) (\<lambda>s. Inr (True, lcd_backlight True s))
                else Inr (True, s))))) = (Inr (ok, s') :: (bool \<times> lcd_state) result)"
      by (simp only: if_False not_True_eq_False) (blast dest: seq_InrD)
    from rest2 obtain s3 where w3: "write4 h (push_bit 4 3) s2 = Inr s3"
      and rest3: "seq (write4 h (push_bit 4 3) s3) (\<lambda>s.
         seq (write4 h (push_bit 4 2) s) (\<lambda>s.
           let (p, s) = emit8 0 (CMD_FUNCTIONSET OR FS_2LINE) 0 s;
               (p, s) = emit8 p CMD_DISPLAYCTL 0 s;
               (p, s) = emit8 p (CMD_ENTRYMODE OR 2) 0 s;
               (p, s) = emit8 p (CMD_DISPLAYCTL OR 4) 0 s;
               s = s\<lparr>i2c_cr2 := insert I2C_CR2_DMAEN (i2c_cr2 s)\<rparr>
           in seq (dma_start h p s) (\<lambda>s.
                if \<not> r then
                  seq (lcd_sync h s) (\<lambda>s. Inr (True, lcd_backlight True s))
                else Inr (True, s)))) = (Inr (ok, s') :: (bool \<times> lcd_state) result)"
      by (blast dest: seq_InrD)
    from rest3 obtain s4 where w4: "write4 h (push_bit 4 3) s3 = Inr s4"
      and rest4: "seq (write4 h (push_bit 4 2) s4) (\<lambda>s.
           let (p, s) = emit8 0 (CMD_FUNCTIONSET OR FS_2LINE) 0 s;
               (p, s) = emit8 p CMD_DISPLAYCTL 0 s;
               (p, s) = emit8 p (CMD_ENTRYMODE OR 2) 0 s;
               (p, s) = emit8 p (CMD_DISPLAYCTL OR 4) 0 s;
               s = s\<lparr>i2c_cr2 := insert I2C_CR2_DMAEN (i2c_cr2 s)\<rparr>
           in seq (dma_start h p s) (\<lambda>s.
                if \<not> r then
                  seq (lcd_sync h s) (\<lambda>s. Inr (True, lcd_backlight True s))
                else Inr (True, s))) = (Inr (ok, s') :: (bool \<times> lcd_state) result)"
      by (blast dest: seq_InrD)
    from rest4 obtain s5 where w5: "write4 h (push_bit 4 2) s4 = Inr s5"
      and rest5: "(let (p, s) = emit8 0 (CMD_FUNCTIONSET OR FS_2LINE) 0 s5;
               (p, s) = emit8 p CMD_DISPLAYCTL 0 s;
               (p, s) = emit8 p (CMD_ENTRYMODE OR 2) 0 s;
               (p, s) = emit8 p (CMD_DISPLAYCTL OR 4) 0 s;
               s = s\<lparr>i2c_cr2 := insert I2C_CR2_DMAEN (i2c_cr2 s)\<rparr>
           in seq (dma_start h p s) (\<lambda>s.
                if \<not> r then
                  seq (lcd_sync h s) (\<lambda>s. Inr (True, lcd_backlight True s))
                else Inr (True, s))) = (Inr (ok, s') :: (bool \<times> lcd_state) result)"
      by (blast dest: seq_InrD)
    from hd44780_dma_part [OF rest5] obtain s6 s7 where
      q6: "quiet s6 = quiet s5" "events s6 = events s5" "i2c_cr1 s6 = i2c_cr1 s5"
        "i2c_cr2 s6 = insert I2C_CR2_DMAEN (i2c_cr2 s5)"
      and d: "dma_start h 24 s6 = Inr s7"
      and rest7: "(if \<not> r then seq (lcd_sync h s7) (\<lambda>s. Inr (True, lcd_backlight True s))
                  else Inr (True, s7)) = (Inr (ok, s') :: (bool \<times> lcd_state) result)"
      by blast
    note a2 = write4_quiet [OF w2] and a3 = write4_quiet [OF w3]
      and a4 = write4_quiet [OF w4] and a5 = write4_quiet [OF w5]
    note a7 = dma_start_result [OF d]
    have q7: "quiet s7 = quiet s"
      using a2 a3 a4 a5 a7 q6(1) q1(1) by simp
    have e7: "events s7 = events s @ map Ev_dr_write (2 * unat (i2c_addr s) # hd44780_nibbles)"
      using a2 a3 a4 a5 a7 q6(2) r1(3)
      by (simp add: hd44780_nibbles_def EN_def)
    have c7: "i2c_cr1 s7 = insert I2C_CR1_START (i2c_cr1 s)"
      "i2c_cr2 s7 = insert I2C_CR2_DMAEN (i2c_cr2 s)" "timeout_timer s7 \<noteq> None"
      using a2 a3 a4 a5 a7 q6 r1(2) q1(2) by simp_all
    show ?thesis
    proof (cases r)
      case True
      with rest7 have "ok" "s' = s7" by simp_all
      with q7 e7 c7 show ?thesis by simp
    next
      case False
      with rest7 have "seq (lcd_sync h s7) (\<lambda>s. Inr (True, lcd_backlight True s))
                        = (Inr (ok, s') :: (bool \<times> lcd_state) result)"
        by simp
      then obtain s8 where y: "lcd_sync h s7 = Inr s8"
        and "Inr (True, lcd_backlight True s8) = (Inr (ok, s') :: (bool \<times> lcd_state) result)"
        by (blast dest: seq_InrD)
      then have "ok" "s' = lcd_backlight True s8" by simp_all
      moreover have "quiet (lcd_backlight True s8) = quiet s8"
        by (simp add: lcd_backlight_def quiet_def)
      ultimately show ?thesis
        using lcd_sync_quiet [OF y] q7 False by simp
    qed
  qed
qed

lemma lcd_write_blank_row:
  assumes "row = 0 \<or> row = 1"
  shows "lcd_write 0 row 16 [] s = Inr (s\<lparr>text_buf := padded (text_buf s) (16 * row) 16\<rparr>)"
proof -
  obtain c' p' m' where pad:
    "lcd_write_pad 0 (16 * row) 16 (text_buf s) =
       Inr (c', p', m', padded (text_buf s) (16 * row) (nat (min (16 - 0) 16)))"
    using lcd_write_pad_fits [of "16 * row" 0 16 "text_buf s"] assms by auto
  then show ?thesis
    by (simp add: lcd_write_def Let_def seq_def)
qed

lemma lcd_clear_result:
  "lcd_clear s = Inr (s\<lparr>text_buf := (\<lambda>i. if i < 32 then CHR '' '' else text_buf s i)\<rparr>)"
proof -
  have "padded (padded (text_buf s) 0 16) 16 16 = (\<lambda>i. if i < 32 then CHR '' '' else text_buf s i)"
    by (auto simp: padded_def fun_eq_iff)
  then show ?thesis
    using lcd_write_blank_row [of 0 s]
      lcd_write_blank_row [of 1 "s\<lparr>text_buf := padded (text_buf s) 0 16\<rparr>"]
    by (simp add: lcd_clear_def seq_def)
qed

lemma lcd_init_tail_cases:
  assumes "lcd_init_tail h r s = Inr (ok, s')"
  shows "\<exists>s1. lcd_init_irqs h s = Inr s1 \<and>
           (if i2c_addr s = OLED_ADDR then ok \<and> oled_init h s1 = Inr s'
            else lcd_init_hd44780 h r s1 = Inr (ok, s'))"
proof -
  from assms obtain s1 where i: "lcd_init_irqs h s = Inr s1"
    and rest: "(if i2c_addr s1 = OLED_ADDR then seq (oled_init h s1) (\<lambda>s. Inr (True, s))
                else lcd_init_hd44780 h r s1) = (Inr (ok, s') :: (bool \<times> lcd_state) result)"
    unfolding lcd_init_tail_def by (blast dest: seq_InrD)
  have a: "i2c_addr s1 = i2c_addr s" by (rule lcd_init_irqs_result(2) [OF i])
  show ?thesis
  proof (cases "i2c_addr s = OLED_ADDR")
    case True
    with rest a have "seq (oled_init h s1) (\<lambda>s. Inr (True, s))
                       = (Inr (ok, s') :: (bool \<times> lcd_state) result)" by simp
    then obtain s2 where "oled_init h s1 = Inr s2"
      "Inr (True, s2) = (Inr (ok, s') :: (bool \<times> lcd_state) result)"
      by (blast dest: seq_InrD)
    with i True show ?thesis by simp
  next
    case False
    with rest a i show ?thesis by simp
  qed
qed

lemma lcd_init_tail_keeps:
  assumes "lcd_init_tail h r s = Inr (ok, s')"
  shows "text_buf s' = text_buf s" and "i2c_addr s' = i2c_addr s"
    and "ok \<Longrightarrow> I2C_CCR_FS \<notin> i2c_ccr s \<Longrightarrow> (I2C_CCR_FS \<in> i2c_ccr s' \<longleftrightarrow> i2c_addr s = OLED_ADDR)"
proof -
  from lcd_init_tail_cases [OF assms] obtain s1 where i: "lcd_init_irqs h s = Inr s1"
    and c: "if i2c_addr s = OLED_ADDR then ok \<and> oled_init h s1 = Inr s'
            else lcd_init_hd44780 h r s1 = Inr (ok, s')"
    by blast
  note r1 = lcd_init_irqs_result [OF i]
  have "text_buf s' = text_buf s \<and> i2c_addr s' = i2c_addr s \<and>
        (ok \<longrightarrow> I2C_CCR_FS \<notin> i2c_ccr s \<longrightarrow> (I2C_CCR_FS \<in> i2c_ccr s' \<longleftrightarrow> i2c_addr s = OLED_ADDR))"
  proof (cases "i2c_addr s = OLED_ADDR")
    case True
    with c have o: "oled_init h s1 = Inr s'" by simp
    from oled_init_result(1-3) [OF o] r1(1,2) True show ?thesis by simp
  next
    case False
    with c have d: "lcd_init_hd44780 h r s1 = Inr (ok, s')" by simp
    from lcd_init_hd44780_result [OF d] show ?thesis
    proof
      assume "\<not> ok \<and> (\<exists>s2. i2c_start h (i2c_addr s1) s1 = Inr (False, s2) \<and>
                      (ok, s') = lcd_init_fail r s2)"
      then obtain s2 where n: "\<not> ok" and st: "i2c_start h (i2c_addr s1) s1 = Inr (False, s2)"
        and f: "(ok, s') = lcd_init_fail r s2" by blast
      from i2c_start_result [OF st] have b: "bus_rest s2 = bus_rest s1" by blast
      have "text_buf s' = text_buf s2" "i2c_addr s' = i2c_addr s2"
        using f by (auto simp: lcd_init_fail_def Let_def IRQx_disable_def gpio_configure_pin_def
                         split: if_splits)
      with bus_rest_fields(2,5) [OF b] r1(1,2) n show ?thesis by simp
    next
      assume "ok \<and> quiet s' = quiet s1 \<and>
          (r \<longrightarrow> events s' =
                   events s1 @ map Ev_dr_write (2 * unat (i2c_addr s1) # hd44780_nibbles) \<and>
                 i2c_cr1 s' = insert I2C_CR1_START (i2c_cr1 s1) \<and>
                 i2c_cr2 s' = insert I2C_CR2_DMAEN (i2c_cr2 s1) \<and>
                 timeout_timer s' \<noteq> None)"
      then have q: "quiet s' = quiet s1" by blast
      from quiet_fields(1-3) [OF q] r1(1-3) False show ?thesis by simp
    qed
  qed
  then show "text_buf s' = text_buf s" and "i2c_addr s' = i2c_addr s"
    and "ok \<Longrightarrow> I2C_CCR_FS \<notin> i2c_ccr s \<Longrightarrow> (I2C_CCR_FS \<in> i2c_ccr s' \<longleftrightarrow> i2c_addr s = OLED_ADDR)"
    by blast+
qed

lemma lcd_init_reinit:
  assumes "i2c_addr s \<noteq> 0" and "lcd_init h s = Inr (ok, s')"
  shows "\<exists>s1. lcd_init_unwedge (s\<lparr>rcc_apb1enr := insert RCC_APB1ENR_I2C2EN (rcc_apb1enr s)\<rparr>)
                = Inr s1 \<and>
              lcd_init_tail h True (lcd_init_standard_mode s1) = Inr (ok, s')"
proof -
  from assms(2) have "seq (lcd_init_unwedge (s\<lparr>rcc_apb1enr := insert RCC_APB1ENR_I2C2EN (rcc_apb1enr s)\<rparr>))
      (\<lambda>s. lcd_init_tail h True (lcd_init_standard_mode s)) = Inr (ok, s')"
    unfolding lcd_init_def Let_def using assms(1) by simp
  then show ?thesis by (blast dest: seq_InrD)
qed

lemma lcd_init_first:
  assumes "i2c_addr s = 0" and "lcd_init h s = Inr (ok, s')"
  shows "\<exists>s1 valid s2.
      lcd_init_unwedge (s\<lparr>rcc_apb1enr := insert RCC_APB1ENR_I2C2EN (rcc_apb1enr s)\<rparr>) = Inr s1 \<and>
      lcd_init_check_bus s1 = Inr (valid, s2) \<and>
      (if \<not> valid then (ok, s') = lcd_init_fail False s2
       else \<exists>a s3. lcd_init_scan h (lcd_init_standard_mode s2) = Inr (a, s3) \<and>
              (if a = 0 then (ok, s') = lcd_init_fail False s3
               else lcd_init_tail h False
                      (s3\<lparr>i2c_addr := a,
                          text_buf := (\<lambda>i. if i < 32 then CHR '' '' else text_buf s3 i)\<rparr>)
                    = Inr (ok, s')))"
proof -
  define s0 where "s0 = s\<lparr>rcc_apb1enr := insert RCC_APB1ENR_I2C2EN (rcc_apb1enr s)\<rparr>"
  have z: "(i2c_addr s \<noteq> 0) = False" using assms(1) by simp
  from assms(2) have "seq (lcd_init_unwedge s0) (\<lambda>s.
           seq (lcd_init_check_bus s) (\<lambda>(valid, s).
             if \<not> valid then Inr (lcd_init_fail False s)
             else
               seq (lcd_init_scan h (lcd_init_standard_mode s)) (\<lambda>(a, s).
                 if a = 0 then Inr (lcd_init_fail False s)
                 else
                   seq (lcd_clear (s\<lparr>i2c_addr := a\<rparr>)) (\<lambda>s.
                     lcd_init_tail h False s)))) = Inr (ok, s')"
    unfolding lcd_init_def Let_def s0_def z not_False_eq_True if_True .
  then obtain s1 where u: "lcd_init_unwedge s0 = Inr s1"
    and r1: "seq (lcd_init_check_bus s1) (\<lambda>(valid, s).
             if \<not> valid then Inr (lcd_init_fail False s)
             else
               seq (lcd_init_scan h (lcd_init_standard_mode s)) (\<lambda>(a, s).
                 if a = 0 then Inr (lcd_init_fail False s)
                 else
                   seq (lcd_clear (s\<lparr>i2c_addr := a\<rparr>)) (\<lambda>s.
                     lcd_init_tail h False s))) = Inr (ok, s')"
    by (blast dest: seq_InrD)
  from r1 obtain valid s2 where c: "lcd_init_check_bus s1 = Inr (valid, s2)"
    and r2: "(if \<not> valid then Inr (lcd_init_fail False s2)
             else
               seq (lcd_init_scan h (lcd_init_standard_mode s2)) (\<lambda>(a, s).
                 if a = 0 then Inr (lcd_init_fail False s)
                 else
                   seq (lcd_clear (s\<lparr>i2c_addr := a\<rparr>)) (\<lambda>s.
                     lcd_init_tail h False s))) = (Inr (ok, s') :: (bool \<times> lcd_state) result)"
    by (blast dest: seq_Inr_pairD)
  show ?thesis
  proof (cases valid)
    case False
    with r2 have "(ok, s') = lcd_init_fail False s2" by simp
    with u c False show ?thesis unfolding s0_def by auto
  next
    case True
    with r2 have "seq (lcd_init_scan h (lcd_init_standard_mode s2)) (\<lambda>(a, s).
                 if a = 0 then Inr (lcd_init_fail False s)
                 else
                   seq (lcd_clear (s\<lparr>i2c_addr := a\<rparr>)) (\<lambda>s.
                     lcd_init_tail h False s)) = (Inr (ok, s') :: (bool \<times> lcd_state) result)"
      by simp
    then obtain a s3 where sc: "lcd_init_scan h (lcd_init_standard_mode s2) = Inr (a, s3)"
      and r3: "(if a = 0 then Inr (lcd_init_fail False s3)
                 else
                   seq (lcd_clear (s3\<lparr>i2c_addr := a\<rparr>)) (\<lambda>s.
                     lcd_init_tail h False s)) = (Inr (ok, s') :: (bool \<times> lcd_state) result)"
      by (blast dest: seq_Inr_pairD)
    have "if a = 0 then (ok, s') = lcd_init_fail False s3
               else lcd_init_tail h False
                      (s3\<lparr>i2c_addr := a,
                          text_buf := (\<lambda>i. if i < 32 then CHR '' '' else text_buf s3 i)\<rparr>)
                    = Inr (ok, s')"
    proof (cases "a = 0")
      case True
      with r3 show ?thesis by simp
    next
      case False
      with r3 show ?thesis by (simp add: lcd_clear_result seq_def cong: if_cong)
    qed
    with u c True sc show ?thesis unfolding s0_def by auto
  qed
qed

lemma IRQ_i2c_error_lcd_init:
  assumes "IRQ_i2c_error h s = Inr (ok, s')"
  shows "\<exists>s0. lcd_init h s0 = Inr (ok, s') \<and> i2c_addr s0 = i2c_addr s \<and> text_buf s0 = text_buf s"
proof -
  from assms obtain r r' rs where "sr1_in s = r # r' # rs"
    by (auto simp: IRQ_i2c_error_def split: list.splits)
  with assms show ?thesis
    by (auto simp: IRQ_i2c_error_def Let_def timer_cancel_def intro!: exI)
qed

lemma lcd_init_fail_not_ok: "(ok, s') = lcd_init_fail r s \<Longrightarrow> \<not> ok"
  by (auto simp: lcd_init_fail_def Let_def split: if_splits)

lemma lcd_init_first_blank:
  assumes "i2c_addr s = 0" and "lcd_init h s = Inr (True, s')"
  shows "text_cells s' = replicate 32 (CHR '' '')"
proof -
  from lcd_init_first [OF assms] obtain s1 valid s2 where
    p: "if \<not> valid then (True, s') = lcd_init_fail False s2
       else \<exists>a s3. lcd_init_scan h (lcd_init_standard_mode s2) = Inr (a, s3) \<and>
              (if a = 0 then (True, s') = lcd_init_fail False s3
               else lcd_init_tail h False
                      (s3\<lparr>i2c_addr := a,
                          text_buf := (\<lambda>i. if i < 32 then CHR '' '' else text_buf s3 i)\<rparr>)
                    = Inr (True, s'))"
    by blast
  from p have v: valid
    by (cases valid) (auto dest: lcd_init_fail_not_ok)
  with p obtain a s3 where
    q: "if a = 0 then (True, s') = lcd_init_fail False s3
             else lcd_init_tail h False
                    (s3\<lparr>i2c_addr := a,
                        text_buf := (\<lambda>i. if i < 32 then CHR '' '' else text_buf s3 i)\<rparr>)
                  = Inr (True, s')"
    by auto
  from q have "a \<noteq> 0"
    by (cases "a = 0") (auto dest: lcd_init_fail_not_ok)
  with q have "lcd_init_tail h False
                    (s3\<lparr>i2c_addr := a,
                        text_buf := (\<lambda>i. if i < 32 then CHR '' '' else text_buf s3 i)\<rparr>)
                  = Inr (True, s')" by simp
  from lcd_init_tail_keeps(1) [OF this]
  have "text_buf s' = (\<lambda>i. if i < 32 then CHR '' '' else text_buf s3 i)" by simp
  then have "map (text_buf s') [0..<32] = map (\<lambda>i. CHR '' '') [0..<32]"
    by (intro map_cong) simp_all
  then show ?thesis
    by (simp add: text_cells_def map_replicate_const del: upt_rec_numeral)
qed

lemma lcd_init_reinit_text:
  assumes "i2c_addr s \<noteq> 0" and "lcd_init h s = Inr (ok, s')"
  shows "text_buf s' = text_buf s"
proof -
  from lcd_init_reinit [OF assms] obtain s1 where
    u: "lcd_init_unwedge (s\<lparr>rcc_apb1enr := insert RCC_APB1ENR_I2C2EN (rcc_apb1enr s)\<rparr>) = Inr s1"
    and t: "lcd_init_tail h True (lcd_init_standard_mode s1) = Inr (ok, s')"
    by blast
  from lcd_init_tail_keeps(1) [OF t] gpio_rest_fields(1) [OF lcd_init_unwedge_result(1) [OF u]]
  show ?thesis
    by (simp add: lcd_init_standard_mode_fields)
qed

lemma first_init_run:
  "\<exists>s'. lcd_init example_8x16 first_init_state = Inr (True, s') \<and> i2c_addr s' = 0x20"
  by (simp add: lcd_init_def Let_def seq_def lcd_init_unwedge_def gpio_configure_pin_def
        gpio_read_pin_def gpio_write_pin_def lcd_init_check_bus_def lcd_init_standard_mode_def
        lcd_init_scan_list scan_addresses_def i2c_probe_def i2c_start_def i2c_wait_def
        i2c_cmd_def dr_write_def wait_stop_def lcd_clear_result lcd_init_tail_def
        lcd_init_irqs_def IRQx_set_prio_def IRQx_clear_pending_def IRQx_enable_def
        timer_init_def timer_set_def stk_now_def lcd_init_hd44780_def write4_def emit8_put
        dma_start_def sizeof_buffer_def lcd_sync_def IRQ_dma1_ch4_tc_def lcd_prep_buffer_put
        lcd_backlight_def OLED_ADDR_def first_init_state_def hello_state_def power_on_def
        del: upt_rec_numeral)

lemma oled_reinit_run:
  "\<exists>s'. IRQ_i2c_error example_8x16 oled_reinit_state = Inr (True, s')"
  by (simp add: IRQ_i2c_error_def timer_cancel_def
        lcd_init_def Let_def seq_def lcd_init_unwedge_def gpio_configure_pin_def
        gpio_read_pin_def gpio_write_pin_def lcd_init_standard_mode_def
        lcd_init_tail_def oled_init_def emit_cmds_put oled_start_i2c_put init_cmds_def
        lcd_init_irqs_def IRQx_set_prio_def IRQx_clear_pending_def IRQx_enable_def
        timer_init_def timer_set_def stk_now_def
        dma_start_def sizeof_buffer_def OLED_ADDR_def
        oled_reinit_state_def hello_state_def power_on_def
        del: upt_rec_numeral)

lemma lcd_init_tail_fail:
  assumes "lcd_init_tail h r s = Inr (False, s')"
  shows "i2c_addr s \<noteq> OLED_ADDR \<and>
         (\<exists>s1 s2. lcd_init_irqs h s = Inr s1 \<and> i2c_start h (i2c_addr s) s1 = Inr (False, s2) \<and>
                  (False, s') = lcd_init_fail r s2)"
proof -
  from lcd_init_tail_cases [OF assms] obtain s1 where i: "lcd_init_irqs h s = Inr s1"
    and c: "if i2c_addr s = OLED_ADDR then False \<and> oled_init h s1 = Inr s'
            else lcd_init_hd44780 h r s1 = Inr (False, s')"
    by blast
  from c have n: "i2c_addr s \<noteq> OLED_ADDR" by (cases "i2c_addr s = OLED_ADDR") simp_all
  with c have d: "lcd_init_hd44780 h r s1 = Inr (False, s')" by simp
  from lcd_init_hd44780_result [OF d]
  obtain s2 where "i2c_start h (i2c_addr s1) s1 = Inr (False, s2)"
    "(False, s') = lcd_init_fail r s2" by blast
  with i n lcd_init_irqs_result(2) [OF i] show ?thesis by auto
qed

lemma lcd_init_first_fail:
  assumes "i2c_addr s = 0" and "lcd_init h s = Inr (False, s')"
  shows "\<exists>s2. (False, s') = lcd_init_fail False s2"
proof -
  from lcd_init_first [OF assms] obtain s1 valid s2 where
    p: "if \<not> valid then (False, s') = lcd_init_fail False s2
       else \<exists>a s3. lcd_init_scan h (lcd_init_standard_mode s2) = Inr (a, s3) \<and>
              (if a = 0 then (False, s') = lcd_init_fail False s3
               else lcd_init_tail h False
                      (s3\<lparr>i2c_addr := a,
                          text_buf := (\<lambda>i. if i < 32 then CHR '' '' else text_buf s3 i)\<rparr>)
                    = Inr (False, s'))"
    by blast
  show ?thesis
  proof (cases valid)
    case False
    with p show ?thesis by auto
  next
    case True
    with p obtain a s3 where
      q: "if a = 0 then (False, s') = lcd_init_fail False s3
               else lcd_init_tail h False
                      (s3\<lparr>i2c_addr := a,
                          text_buf := (\<lambda>i. if i < 32 then CHR '' '' else text_buf s3 i)\<rparr>)
                    = Inr (False, s')"
      by auto
    show ?thesis
    proof (cases "a = 0")
      case True
      with q show ?thesis by auto
    next
      case False
      with q have "lcd_init_tail h False
                      (s3\<lparr>i2c_addr := a,
                          text_buf := (\<lambda>i. if i < 32 then CHR '' '' else text_buf s3 i)\<rparr>)
                    = Inr (False, s')" by simp
      from lcd_init_tail_fail [OF this] show ?thesis by blast
    qed
  qed
qed

lemma lcd_init_reinit_fail:
  assumes "i2c_addr s \<noteq> 0" and "lcd_init h s = Inr (False, s')"
  shows "\<exists>s1 s2.
      lcd_init_unwedge (s\<lparr>rcc_apb1enr := insert RCC_APB1ENR_I2C2EN (rcc_apb1enr s)\<rparr>) = Inr s1 \<and>
      lcd_init_irqs h (lcd_init_standard_mode s1) = Inr s2 \<and>
      i2c_start h (i2c_addr s) s2 = Inr (False, s') \<and> i2c_addr s \<noteq> OLED_ADDR"
proof -
  from lcd_init_reinit [OF assms] obtain s1 where
    u: "lcd_init_unwedge (s\<lparr>rcc_apb1enr := insert RCC_APB1ENR_I2C2EN (rcc_apb1enr s)\<rparr>) = Inr s1"
    and t: "lcd_init_tail h True (lcd_init_standard_mode s1) = Inr (False, s')"
    by blast
  have a: "i2c_addr (lcd_init_standard_mode s1) = i2c_addr s"
    using gpio_rest_fields(2) [OF lcd_init_unwedge_result(1) [OF u]]
    by (simp add: lcd_init_standard_mode_fields)
  from lcd_init_tail_fail [OF t] a obtain s2 s3 where
    "i2c_addr s \<noteq> OLED_ADDR" "lcd_init_irqs h (lcd_init_standard_mode s1) = Inr s2"
    "i2c_start h (i2c_addr s) s2 = Inr (False, s3)" "(False, s') = lcd_init_fail True s3"
    by auto
  with u show ?thesis by (auto simp: lcd_init_fail_reinit)
qed

lemma dead_bus_run:
  "\<exists>s'. lcd_init example_8x16 dead_bus_state = Inr (False, s') \<and> i2c_dead s'"
  by (simp add: lcd_init_def Let_def seq_def lcd_init_unwedge_def gpio_configure_pin_def
        gpio_read_pin_def gpio_write_pin_def lcd_init_check_bus_def lcd_init_standard_mode_def
        lcd_init_scan_list scan_addresses_def i2c_probe_def i2c_start_def i2c_wait_def
        sr1_has_errors_def lcd_init_fail_def IRQx_disable_def
        example_8x16_def example_platform_def
        dead_bus_state_def power_on_def)

lemma reinit_fail_run:
  "\<exists>s'. lcd_init example_8x16 reinit_fail_state = Inr (False, s') \<and> i2c_dead s'"
  by (simp add: lcd_init_def Let_def seq_def lcd_init_unwedge_def gpio_configure_pin_def
        gpio_read_pin_def gpio_write_pin_def lcd_init_standard_mode_def
        lcd_init_tail_def lcd_init_irqs_def IRQx_set_prio_def IRQx_clear_pending_def
        IRQx_enable_def timer_init_def timer_set_def stk_now_def
        lcd_init_hd44780_def i2c_start_def i2c_wait_def
        sr1_has_errors_def lcd_init_fail_def OLED_ADDR_def
        example_8x16_def example_platform_def
        reinit_fail_state_def power_on_def)






lemma scan_list_found:
  "scan_list h as s = Inr (a, s') \<Longrightarrow> a \<noteq> 0 \<Longrightarrow>
   \<exists>pre post s1. as = pre @ a # post \<and> failed_probes h pre s = Some s1 \<and>
                 i2c_probe h a s1 = Inr (True, s')"
proof (induction as arbitrary: s)
  case Nil
  then show ?case by simp
next
  case (Cons b bs)
  from Cons.prems have alive: "\<not> i2c_dead s" by (cases "i2c_dead s") simp_all
  with Cons.prems obtain ok s1 where p: "i2c_probe h b s = Inr (ok, s1)"
    by (cases "i2c_probe h b s") auto
  show ?case
  proof (cases ok)
    case True
    with Cons.prems alive p have "a = b" "s' = s1" by simp_all
    with p True have "b # bs = [] @ a # bs \<and> failed_probes h [] s = Some s \<and>
                 i2c_probe h a s = Inr (True, s')" by simp
    then show ?thesis by blast
  next
    case False
    with Cons.prems alive p have "scan_list h bs s1 = Inr (a, s')" by simp
    from Cons.IH [OF this Cons.prems(2)] obtain pre post s2 where
      q: "bs = pre @ a # post" "failed_probes h pre s1 = Some s2"
         "i2c_probe h a s2 = Inr (True, s')" by blast
    with p False have "b # bs = (b # pre) @ a # post \<and> failed_probes h (b # pre) s = Some s2 \<and>
                 i2c_probe h a s2 = Inr (True, s')" by simp
    then show ?thesis by blast
  qed
qed

lemma scan_list_none:
  "scan_list h as s = Inr (0, s') \<Longrightarrow> 0 \<notin> set as \<Longrightarrow>
   \<exists>pre post. as = pre @ post \<and> failed_probes h pre s = Some s' \<and> (post = [] \<or> i2c_dead s')"
proof (induction as arbitrary: s)
  case Nil
  then show ?case by simp
next
  case (Cons b bs)
  show ?case
  proof (cases "i2c_dead s")
    case True
    with Cons.prems have "s' = s" by simp
    with True have "b # bs = [] @ (b # bs) \<and> failed_probes h [] s = Some s' \<and>
                    (b # bs = [] \<or> i2c_dead s')" by simp
    then show ?thesis by blast
  next
    case alive: False
    with Cons.prems obtain ok s1 where p: "i2c_probe h b s = Inr (ok, s1)"
      by (cases "i2c_probe h b s") auto
    from Cons.prems(2) have b: "b \<noteq> 0" "0 \<notin> set bs" by auto
    from Cons.prems(1) alive p b have nok: "\<not> ok" by (cases ok) simp_all
    with Cons.prems alive p have "scan_list h bs s1 = Inr (0, s')" by simp
    from Cons.IH [OF this b(2)] obtain pre post where
      q: "bs = pre @ post" "failed_probes h pre s1 = Some s'" "post = [] \<or> i2c_dead s'" by blast
    with p nok have "b # bs = (b # pre) @ post \<and> failed_probes h (b # pre) s = Some s' \<and>
                    (post = [] \<or> i2c_dead s')" by simp
    then show ?thesis by blast
  qed
qed

lemma lcd_init_scan_result:
  assumes "lcd_init_scan h s = Inr (a, s')"
  shows "bus_rest s' = bus_rest s"
proof -
  from assms obtain a1 s1 where p: "i2c_probe_range h 0x20 0x27 s = Inr (a1, s1)"
    and rest: "(if a1 \<noteq> 0 then Inr (a1, s1) else i2c_probe_range h 0x38 0x3f s1)
                 = (Inr (a, s') :: (u8 \<times> lcd_state) result)"
    unfolding lcd_init_scan_def by (blast dest: seq_Inr_pairD)
  from i2c_probe_range_result [OF p] have b1: "bus_rest s1 = bus_rest s" by blast
  show ?thesis
  proof (cases "a1 = 0")
    case True
    with rest have "i2c_probe_range h 0x38 0x3f s1 = Inr (a, s')" by simp
    from i2c_probe_range_result [OF this] b1 show ?thesis by simp
  next
    case False
    with rest b1 show ?thesis by simp
  qed
qed

lemma lcd_init_tail_reinit_events:
  assumes "lcd_init_tail h True s = Inr (ok, s')"
  shows "\<exists>ws. events s' = events s @ map Ev_dr_write ws \<and>
           (if i2c_addr s = OLED_ADDR then ws = []
            else if ok then ws = 2 * unat (i2c_addr s) # hd44780_nibbles
            else ws = [] \<or> ws = [2 * unat (i2c_addr s)])"
proof -
  from lcd_init_tail_cases [OF assms] obtain s1 where i: "lcd_init_irqs h s = Inr s1"
    and c: "if i2c_addr s = OLED_ADDR then ok \<and> oled_init h s1 = Inr s'
            else lcd_init_hd44780 h True s1 = Inr (ok, s')"
    by blast
  note r1 = lcd_init_irqs_result [OF i]
  show ?thesis
  proof (cases "i2c_addr s = OLED_ADDR")
    case True
    with c have o: "oled_init h s1 = Inr s'" by simp
    from oled_init_result(6) [OF o] r1(6) have "events s' = events s @ map Ev_dr_write []"
      by simp
    with True show ?thesis by auto
  next
    case False
    with c have d: "lcd_init_hd44780 h True s1 = Inr (ok, s')" by simp
    from lcd_init_hd44780_result [OF d] show ?thesis
    proof
      assume "\<not> ok \<and> (\<exists>s2. i2c_start h (i2c_addr s1) s1 = Inr (False, s2) \<and>
                      (ok, s') = lcd_init_fail True s2)"
      then obtain s2 where n: "\<not> ok" and st: "i2c_start h (i2c_addr s1) s1 = Inr (False, s2)"
        and f: "(ok, s') = lcd_init_fail True s2" by blast
      from f have s': "s' = s2" by (simp add: lcd_init_fail_reinit)
      from i2c_start_result [OF st]
      have "events s2 = events s1 \<or> events s2 = events s1 @ [Ev_dr_write (2 * unat (i2c_addr s1))]"
        by blast
      then have "events s' = events s @ map Ev_dr_write [] \<or>
                 events s' = events s @ map Ev_dr_write [2 * unat (i2c_addr s)]"
        by (simp add: s' r1(2,6))
      then show ?thesis
      proof
        assume "events s' = events s @ map Ev_dr_write []"
        with n False show ?thesis by (intro exI [of _ "[]"]) simp
      next
        assume "events s' = events s @ map Ev_dr_write [2 * unat (i2c_addr s)]"
        with n False show ?thesis by (intro exI [of _ "[2 * unat (i2c_addr s)]"]) simp
      qed
    next
      assume "ok \<and> quiet s' = quiet s1 \<and>
          (True \<longrightarrow> events s' =
                   events s1 @ map Ev_dr_write (2 * unat (i2c_addr s1) # hd44780_nibbles) \<and>
                 i2c_cr1 s' = insert I2C_CR1_START (i2c_cr1 s1) \<and>
                 i2c_cr2 s' = insert I2C_CR2_DMAEN (i2c_cr2 s1) \<and>
                 timeout_timer s' \<noteq> None)"
      then have "ok" "events s' =
                   events s @ map Ev_dr_write (2 * unat (i2c_addr s) # hd44780_nibbles)"
        by (simp_all add: r1(2,6))
      with False show ?thesis by auto
    qed
  qed
qed

lemma lcd_init_reinit_events:
  assumes "i2c_addr s \<noteq> 0" and "lcd_init h s = Inr (ok, s')"
  shows "i2c_addr s' = i2c_addr s"
    and "\<exists>ws. events s' =
            events s @ [Ev_gpio_configure SCL (GPO_opendrain True),
                        Ev_gpio_configure SDA (GPO_opendrain True),
                        Ev_gpio_configure SCL AFO_opendrain,
                        Ev_gpio_configure SDA AFO_opendrain] @ map Ev_dr_write ws \<and>
           (if i2c_addr s = OLED_ADDR then ws = []
            else if ok then ws = 2 * unat (i2c_addr s) # hd44780_nibbles
            else ws = [] \<or> ws = [2 * unat (i2c_addr s)])"
proof -
  from lcd_init_reinit [OF assms] obtain s1 where
    u: "lcd_init_unwedge (s\<lparr>rcc_apb1enr := insert RCC_APB1ENR_I2C2EN (rcc_apb1enr s)\<rparr>) = Inr s1"
    and t: "lcd_init_tail h True (lcd_init_standard_mode s1) = Inr (ok, s')"
    by blast
  note g = gpio_rest_fields [OF lcd_init_unwedge_result(1) [OF u]]
  note e1 = lcd_init_unwedge_result(2) [OF u]
  note m = lcd_init_standard_mode_fields [of s1]
  have a: "i2c_addr (lcd_init_standard_mode s1) = i2c_addr s"
    using g(2) by (simp add: m(5))
  from lcd_init_tail_keeps(2) [OF t] a show "i2c_addr s' = i2c_addr s" by simp
  from lcd_init_tail_reinit_events [OF t] obtain ws where
    w: "events s' = events (lcd_init_standard_mode s1) @ map Ev_dr_write ws"
       "if i2c_addr s = OLED_ADDR then ws = []
            else if ok then ws = 2 * unat (i2c_addr s) # hd44780_nibbles
            else ws = [] \<or> ws = [2 * unat (i2c_addr s)]"
    unfolding a by blast
  have "events s' =
            events s @ [Ev_gpio_configure SCL (GPO_opendrain True),
                        Ev_gpio_configure SDA (GPO_opendrain True),
                        Ev_gpio_configure SCL AFO_opendrain,
                        Ev_gpio_configure SDA AFO_opendrain] @ map Ev_dr_write ws"
    using w(1) e1 by (simp add: m(2))
  with w(2) show "\<exists>ws. events s' =
            events s @ [Ev_gpio_configure SCL (GPO_opendrain True),
                        Ev_gpio_configure SDA (GPO_opendrain True),
                        Ev_gpio_configure SCL AFO_opendrain,
                        Ev_gpio_configure SDA AFO_opendrain] @ map Ev_dr_write ws \<and>
           (if i2c_addr s = OLED_ADDR then ws = []
            else if ok then ws = 2 * unat (i2c_addr s) # hd44780_nibbles
            else ws = [] \<or> ws = [2 * unat (i2c_addr s)])"
    by blast
qed

section \<open>Facts about the first initialisation\<close>

lemma replicate_12: "replicate 12 x = [x, x, x, x, x, x, x, x, x, x, x, x]"
  by (simp add: numeral_eq_Suc)

lemma replicate_29:
  "replicate 29 x = [x, x, x, x, x, x, x, x, x, x, x, x, x, x, x, x, x, x, x, x, x, x, x, x,
                     x, x, x, x, x]"
  by (simp add: numeral_eq_Suc)

lemma oled_first_run:
  "\<exists>s'. lcd_init example_8x16 oled_first_state = Inr (True, s') \<and> i2c_addr s' = 0x3c \<and>
     events s' =
       [Ev_gpio_configure SCL (GPO_opendrain True), Ev_gpio_configure SDA (GPO_opendrain True),
        Ev_gpio_configure SCL GPI_pull_down, Ev_gpio_configure SDA GPI_pull_down,
        Ev_gpio_configure SCL AFO_opendrain, Ev_gpio_configure SDA AFO_opendrain,
        Ev_dr_write 0x40, Ev_dr_write 0x42, Ev_dr_write 0x44, Ev_dr_write 0x46,
        Ev_dr_write 0x48, Ev_dr_write 0x4a, Ev_dr_write 0x4c, Ev_dr_write 0x4e,
        Ev_dr_write 0x70, Ev_dr_write 0x72, Ev_dr_write 0x74, Ev_dr_write 0x76,
        Ev_dr_write 0x78, Ev_dr_write 0, Ev_stop]"
  by (simp add: lcd_init_def Let_def seq_def lcd_init_unwedge_def gpio_configure_pin_def
        gpio_read_pin_def gpio_write_pin_def lcd_init_check_bus_def lcd_init_standard_mode_def
        lcd_init_scan_list scan_addresses_def i2c_probe_def i2c_start_def i2c_wait_def
        i2c_cmd_def dr_write_def wait_stop_def lcd_clear_result lcd_init_tail_def
        lcd_init_irqs_def IRQx_set_prio_def IRQx_clear_pending_def IRQx_enable_def
        timer_init_def timer_set_def stk_now_def oled_init_def emit_cmds_put
        oled_start_i2c_put init_cmds_def sr1_has_errors_def
        dma_start_def sizeof_buffer_def
        OLED_ADDR_def oled_first_state_def hello_state_def power_on_def
        replicate_12 replicate_29
        del: upt_rec_numeral)

lemma oled_reinit_direct_run:
  "\<exists>s'. lcd_init example_8x16 oled_reinit_state = Inr (True, s')"
  by (simp add: lcd_init_def Let_def seq_def lcd_init_unwedge_def gpio_configure_pin_def
        gpio_read_pin_def gpio_write_pin_def lcd_init_standard_mode_def
        lcd_init_tail_def oled_init_def emit_cmds_put oled_start_i2c_put init_cmds_def
        lcd_init_irqs_def IRQx_set_prio_def IRQx_clear_pending_def IRQx_enable_def
        timer_init_def timer_set_def stk_now_def
        dma_start_def sizeof_buffer_def OLED_ADDR_def
        oled_reinit_state_def hello_state_def power_on_def
        del: upt_rec_numeral)

lemma lcd_init_first_scan:
  assumes "i2c_addr s = 0" and "lcd_init h s = Inr (ok, s')"
  shows "\<exists>s1 valid s2.
      lcd_init_unwedge (s\<lparr>rcc_apb1enr := insert RCC_APB1ENR_I2C2EN (rcc_apb1enr s)\<rparr>) = Inr s1 \<and>
      lcd_init_check_bus s1 = Inr (valid, s2) \<and>
      events s2 = events s @ [Ev_gpio_configure SCL (GPO_opendrain True),
                              Ev_gpio_configure SDA (GPO_opendrain True),
                              Ev_gpio_configure SCL GPI_pull_down,
                              Ev_gpio_configure SDA GPI_pull_down] \<and>
      (\<not> valid \<longrightarrow> \<not> ok \<and> i2c_addr s' = 0 \<and>
         events s' = events s2 @ [Ev_gpio_configure SCL GPI_pull_up,
                                  Ev_gpio_configure SDA GPI_pull_up]) \<and>
      (valid \<longrightarrow>
         (\<exists>a s3. lcd_init_scan h (lcd_init_standard_mode s2) = Inr (a, s3) \<and>
            (a \<noteq> 0 \<longrightarrow>
               (\<exists>pre post s4. scan_addresses = pre @ a # post \<and>
                    failed_probes h pre (lcd_init_standard_mode s2) = Some s4 \<and>
                    i2c_probe h a s4 = Inr (True, s3)) \<and>
               i2c_addr s' = a) \<and>
            (a = 0 \<longrightarrow>
               (\<exists>pre post. scan_addresses = pre @ post \<and>
                    failed_probes h pre (lcd_init_standard_mode s2) = Some s3 \<and>
                    (post = [] \<or> i2c_dead s3)) \<and>
               \<not> ok \<and> i2c_addr s' = 0) \<and>
            (ok \<longrightarrow> a \<noteq> 0 \<and> (I2C_CCR_FS \<in> i2c_ccr s' \<longleftrightarrow> a = OLED_ADDR))))"
proof -
  define s0 where "s0 = s\<lparr>rcc_apb1enr := insert RCC_APB1ENR_I2C2EN (rcc_apb1enr s)\<rparr>"
  from lcd_init_first [OF assms] obtain s1 valid s2 where
    u: "lcd_init_unwedge s0 = Inr s1"
    and c: "lcd_init_check_bus s1 = Inr (valid, s2)"
    and p: "if \<not> valid then (ok, s') = lcd_init_fail False s2
       else \<exists>a s3. lcd_init_scan h (lcd_init_standard_mode s2) = Inr (a, s3) \<and>
              (if a = 0 then (ok, s') = lcd_init_fail False s3
               else lcd_init_tail h False
                      (s3\<lparr>i2c_addr := a,
                          text_buf := (\<lambda>i. if i < 32 then CHR '' '' else text_buf s3 i)\<rparr>)
                    = Inr (ok, s'))"
    unfolding s0_def by blast
  note g1 = gpio_rest_fields [OF lcd_init_unwedge_result(1) [OF u]]
  note g2 = gpio_rest_fields [OF lcd_init_check_bus_result(1) [OF c]]
  have ev: "events s2 = events s @ [Ev_gpio_configure SCL (GPO_opendrain True),
                              Ev_gpio_configure SDA (GPO_opendrain True),
                              Ev_gpio_configure SCL GPI_pull_down,
                              Ev_gpio_configure SDA GPI_pull_down]"
    using lcd_init_unwedge_result(2) [OF u] lcd_init_check_bus_result(2) [OF c]
    by (simp add: s0_def)
  have a2: "i2c_addr s2 = 0"
    using g1(2) g2(2) assms(1) by (simp add: s0_def)
  have inv: "\<not> ok \<and> i2c_addr s' = 0 \<and>
         events s' = events s2 @ [Ev_gpio_configure SCL GPI_pull_up,
                                  Ev_gpio_configure SDA GPI_pull_up]" if "\<not> valid"
  proof -
    from p that have "lcd_init_fail False s2 = (ok, s')" by simp
    from lcd_init_fail_first [OF this] a2 show ?thesis by simp
  qed
  have val: "\<exists>a s3. lcd_init_scan h (lcd_init_standard_mode s2) = Inr (a, s3) \<and>
            (a \<noteq> 0 \<longrightarrow>
               (\<exists>pre post s4. scan_addresses = pre @ a # post \<and>
                    failed_probes h pre (lcd_init_standard_mode s2) = Some s4 \<and>
                    i2c_probe h a s4 = Inr (True, s3)) \<and>
               i2c_addr s' = a) \<and>
            (a = 0 \<longrightarrow>
               (\<exists>pre post. scan_addresses = pre @ post \<and>
                    failed_probes h pre (lcd_init_standard_mode s2) = Some s3 \<and>
                    (post = [] \<or> i2c_dead s3)) \<and>
               \<not> ok \<and> i2c_addr s' = 0) \<and>
            (ok \<longrightarrow> a \<noteq> 0 \<and> (I2C_CCR_FS \<in> i2c_ccr s' \<longleftrightarrow> a = OLED_ADDR))" if valid
  proof -
    from p that obtain a s3 where
      sc: "lcd_init_scan h (lcd_init_standard_mode s2) = Inr (a, s3)"
      and q: "if a = 0 then (ok, s') = lcd_init_fail False s3
               else lcd_init_tail h False
                      (s3\<lparr>i2c_addr := a,
                          text_buf := (\<lambda>i. if i < 32 then CHR '' '' else text_buf s3 i)\<rparr>)
                    = Inr (ok, s')"
      by auto
    from sc have sl: "scan_list h scan_addresses (lcd_init_standard_mode s2) = Inr (a, s3)"
      by (simp add: lcd_init_scan_list)
    note b = bus_rest_fields [OF lcd_init_scan_result [OF sc]]
    have a3: "i2c_addr s3 = 0" "i2c_ccr s3 = {I2C_CCR_CCR 180}"
      using b(2,9) a2 by (simp_all add: lcd_init_standard_mode_fields)
    have found: "(\<exists>pre post s4. scan_addresses = pre @ a # post \<and>
                    failed_probes h pre (lcd_init_standard_mode s2) = Some s4 \<and>
                    i2c_probe h a s4 = Inr (True, s3)) \<and>
               i2c_addr s' = a \<and> (ok \<longrightarrow> (I2C_CCR_FS \<in> i2c_ccr s' \<longleftrightarrow> a = OLED_ADDR))"
      if n: "a \<noteq> 0"
    proof -
      from q n have t: "lcd_init_tail h False
                      (s3\<lparr>i2c_addr := a,
                          text_buf := (\<lambda>i. if i < 32 then CHR '' '' else text_buf s3 i)\<rparr>)
                    = Inr (ok, s')" by simp
      from lcd_init_tail_keeps(2) [OF t] have "i2c_addr s' = a" by simp
      moreover from lcd_init_tail_keeps(3) [OF t] a3(2)
      have "ok \<longrightarrow> (I2C_CCR_FS \<in> i2c_ccr s' \<longleftrightarrow> a = OLED_ADDR)" by simp
      ultimately show ?thesis using scan_list_found [OF sl n] by blast
    qed
    have none: "(\<exists>pre post. scan_addresses = pre @ post \<and>
                    failed_probes h pre (lcd_init_standard_mode s2) = Some s3 \<and>
                    (post = [] \<or> i2c_dead s3)) \<and>
               \<not> ok \<and> i2c_addr s' = 0" if z: "a = 0"
    proof -
      from q z have "lcd_init_fail False s3 = (ok, s')" by simp
      from lcd_init_fail_first [OF this] a3 have "\<not> ok" "i2c_addr s' = 0" by simp_all
      moreover have nz: "0 \<notin> set scan_addresses" by (simp add: scan_addresses_def)
      ultimately show ?thesis using scan_list_none [OF sl [unfolded z] nz] by blast
    qed
    from sc found none show ?thesis by blast
  qed
  from u c ev inv val show ?thesis unfolding s0_def by blast
qed

section \<open>Claims\<close>

subsection \<open>C1: lcd\_sync returns after two refreshes\<close>

text \<open>
  Claim C1. When \<^verbatim>\<open>lcd_sync\<close> returns, the 8-bit refresh counter has advanced by at
  least 2 modulo 256 from the value it had when \<^verbatim>\<open>lcd_sync\<close> was called. The
  difference is the 8-bit one, so the statement holds across the wrap of the counter,
  and it holds whichever controller the interrupt handler serves (the state is
  arbitrary). The closing example runs the character mode from 255 to 1 and the
  bitmap mode from 254 to 0.
\<close>

theorem lcd_sync_advances_by_two:
  "lcd_sync h s = Inr s' \<Longrightarrow> 2 \<le> unat (refresh_count s' - refresh_count s)"
  unfolding lcd_sync_def Let_def by (rule lcd_sync_loop_advanced)

theorem lcd_sync_advances_by_two_witness:
  "(\<exists>s'. lcd_sync (example_platform (Font_8x16 (\<lambda>i. 0))) lcd_sync_char_state = Inr s' \<and>
         refresh_count lcd_sync_char_state = 255 \<and> refresh_count s' = 1 \<and>
         2 \<le> unat (refresh_count s' - refresh_count lcd_sync_char_state)) \<and>
   (\<exists>s'. lcd_sync (example_platform (Font_7x16 (\<lambda>i. 0))) lcd_sync_oled_state = Inr s' \<and>
         refresh_count lcd_sync_oled_state = 254 \<and> refresh_count s' = 0 \<and>
         2 \<le> unat (refresh_count s' - refresh_count lcd_sync_oled_state))"
proof -
  let ?h = "example_platform (Font_8x16 (\<lambda>i. 0))"
  let ?g = "example_platform (Font_7x16 (\<lambda>i. 0))"
  have "\<exists>s'. lcd_sync ?h lcd_sync_char_state = Inr s' \<and> refresh_count s' = 1"
    by (simp add: lcd_sync_def lcd_sync_char_state_def power_on_def Let_def
          IRQ_dma1_ch4_tc_def seq_def lcd_prep_buffer_put dma_start_def
          stk_now_def timer_set_def sizeof_buffer_def OLED_ADDR_def)
  then obtain s1 where a: "lcd_sync ?h lcd_sync_char_state = Inr s1" "refresh_count s1 = 1"
    by blast
  have "\<exists>s'. lcd_sync ?g lcd_sync_oled_state = Inr s' \<and> refresh_count s' = 0"
    by (simp add: lcd_sync_def lcd_sync_oled_state_def power_on_def Let_def
          IRQ_dma1_ch4_tc_def seq_def oled_prep_buffer_def oled_start_i2c_put wait_stop_def
          oled_convert_text_row_put
          dma_start_def stk_now_def timer_set_def sizeof_buffer_def OLED_ADDR_def
          numeral_3_eq_3 del: upt_rec_numeral)
  then obtain s2 where b: "lcd_sync ?g lcd_sync_oled_state = Inr s2" "refresh_count s2 = 0"
    by blast
  have c: "refresh_count lcd_sync_char_state = 255" "refresh_count lcd_sync_oled_state = 254"
    by (simp_all add: lcd_sync_char_state_def lcd_sync_oled_state_def)
  show ?thesis
    using a b c lcd_sync_advances_by_two [OF a(1)] lcd_sync_advances_by_two [OF b(1)]
    by simp
qed

subsection \<open>C2: the bitmap-mode cycle row 0, row 1, re-address\<close>

text \<open>
  Claim C2, as amended. Starting from row cursor 0, the first call of
  \<^verbatim>\<open>oled_prep_buffer\<close> returns 256 with the glyph data of text row 0 in the buffer, the
  second returns 256 with the glyph data of text row 1, and neither changes the
  refresh counter. The third call (cursor 2) increments the refresh counter exactly
  once; if it then sees the byte-transfer-finished flag before any controller-reported
  error, it requests a STOP, which closes the bus transaction, and spins until the
  controller shows the STOP bit cleared; once that is seen it resets the cursor to 0
  and returns the 19 bytes of the re-addressing sequence (addressing mode, columns 0
  to 127, pages 0 to 3, display on or off after the backlight flag, data marker 0x40),
  with a new START requested. The STOP request is the one event added to the trace,
  and the rows before it add none. If the third call sees an error first, it returns
  length 0, requests no STOP and leaves the cursor at 2. In character mode
  \<^verbatim>\<open>lcd_prep_buffer\<close> increments the refresh counter exactly once on every call.

  The claim as stated has no exception for the error path; the second theorem below
  is a third call that returns 0 and leaves the cursor at 2.
\<close>

theorem oled_prep_buffer_cycle:
  assumes "oled_row s = 0"
  shows "\<exists>s1 s2.
     oled_prep_buffer h s = Inr (256, s1) \<and>
     map (buffer s1) [0..<256] = glyph_data (oled_font h) (map (text_buf s) [0..<16]) \<and>
     refresh_count s1 = refresh_count s \<and> oled_row s1 = 1 \<and>
     oled_prep_buffer h s1 = Inr (256, s2) \<and>
     map (buffer s2) [0..<256] = glyph_data (oled_font h) (map (text_buf s) [16..<32]) \<and>
     refresh_count s2 = refresh_count s \<and> oled_row s2 = 2 \<and>
     bl s2 = bl s \<and> sr1_in s2 = sr1_in s \<and> stop_in s2 = stop_in s \<and>
     events s2 = events s \<and>
     (\<forall>rs bs. oled_wait_btf (sr1_in s2) = Inr (True, rs) \<and> wait_stop_loop (stop_in s2) = Inr bs \<longrightarrow>
        (\<exists>s3. oled_prep_buffer h s2 = Inr (19, s3) \<and>
              refresh_count s3 = refresh_count s + 1 \<and> oled_row s3 = 0 \<and>
              map (buffer s3) [0..<19] = readdress_bytes (bl s) \<and>
              sr1_in s3 = rs \<and> stop_in s3 = bs \<and>
              events s3 = events s @ [Ev_stop] \<and>
              I2C_CR1_STOP \<notin> i2c_cr1 s3 \<and> I2C_CR1_START \<in> i2c_cr1 s3 \<and>
              I2C_CR2_ITEVTEN \<in> i2c_cr2 s3)) \<and>
     (\<forall>rs. oled_wait_btf (sr1_in s2) = Inr (False, rs) \<longrightarrow>
        oled_prep_buffer h s2 = Inr (0, s2\<lparr>refresh_count := refresh_count s + 1, sr1_in := rs\<rparr>)) \<and>
     refresh_count (snd (lcd_prep_buffer s)) = refresh_count s + 1"
proof -
  define s1 where "s1 = s\<lparr>buffer := put (buffer s) 0
      (glyph_data (oled_font h) (map (text_buf s) [0..<16])), oled_row := 1\<rparr>"
  define s2 where "s2 = s1\<lparr>buffer := put (buffer s1) 0
      (glyph_data (oled_font h) (map (text_buf s) [16..<32])), oled_row := 2\<rparr>"
  have a: "oled_prep_buffer h s = Inr (256, s1)"
    using oled_prep_buffer_row [of s h] assms by (simp add: s1_def del: upt_rec_numeral)
  have b: "oled_prep_buffer h s1 = Inr (256, s2)"
    using oled_prep_buffer_row [of s1 h]
    by (simp add: s1_def s2_def map_text_row1 del: upt_rec_numeral)
  have r1: "map (buffer s1) [0..<256] = glyph_data (oled_font h) (map (text_buf s) [0..<16])"
    unfolding s1_def by (simp add: put_read0 length_glyph_data del: upt_rec_numeral)
  have r2: "map (buffer s2) [0..<256] = glyph_data (oled_font h) (map (text_buf s) [16..<32])"
    unfolding s2_def by (simp add: put_read0 length_glyph_data del: upt_rec_numeral)
  have f: "refresh_count s1 = refresh_count s" "oled_row s1 = 1"
    "refresh_count s2 = refresh_count s" "oled_row s2 = 2"
     "bl s2 = bl s" "sr1_in s2 = sr1_in s" "stop_in s2 = stop_in s" "events s2 = events s"
    by (simp_all add: s1_def s2_def)
  have l: "length (readdress_bytes (bl s)) = 19"
    by (simp add: readdress_bytes_def)
  have w: "\<exists>s3. oled_prep_buffer h s2 = Inr (19, s3) \<and>
              refresh_count s3 = refresh_count s + 1 \<and> oled_row s3 = 0 \<and>
              map (buffer s3) [0..<19] = readdress_bytes (bl s) \<and>
              sr1_in s3 = rs \<and> stop_in s3 = bs \<and>
              events s3 = events s @ [Ev_stop] \<and>
              I2C_CR1_STOP \<notin> i2c_cr1 s3 \<and> I2C_CR1_START \<in> i2c_cr1 s3 \<and>
              I2C_CR2_ITEVTEN \<in> i2c_cr2 s3"
    if "oled_wait_btf (sr1_in s2) = Inr (True, rs)" "wait_stop_loop (stop_in s2) = Inr bs" for rs bs
    using oled_prep_buffer_wrap [OF f(4) that, of h] f
    by (simp add: put_read0 l del: upt_rec_numeral)
  have e: "oled_prep_buffer h s2 = Inr (0, s2\<lparr>refresh_count := refresh_count s + 1, sr1_in := rs\<rparr>)"
    if "oled_wait_btf (sr1_in s2) = Inr (False, rs)" for rs
    using oled_prep_buffer_error [OF f(4) that, of h] f by simp
  have c: "refresh_count (snd (lcd_prep_buffer s)) = refresh_count s + 1"
    by (simp add: lcd_prep_buffer_put)
  show ?thesis
    using a b r1 r2 f w e c by blast
qed

theorem oled_prep_buffer_cycle_witness:
  "\<exists>s1 s2 s3.
     oled_row oled_cycle_state = 0 \<and>
     oled_prep_buffer example_8x16 oled_cycle_state = Inr (256, s1) \<and>
     oled_prep_buffer example_8x16 s1 = Inr (256, s2) \<and>
     oled_wait_btf (sr1_in s2) = Inr (True, []) \<and>
     wait_stop_loop (stop_in s2) = Inr [] \<and>
     oled_prep_buffer example_8x16 s2 = Inr (19, s3) \<and>
     refresh_count s3 = 1 \<and> oled_row s3 = 0 \<and> events s3 = [Ev_stop] \<and>
     map (buffer s3) [0..<19] =
       [0x80, 0x20, 0x80, 0, 0x80, 0x21, 0x80, 0, 0x80, 127, 0x80, 0x22, 0x80, 0, 0x80, 3,
        0x80, 0xae, 0x40]"
proof -
  have r: "oled_row oled_cycle_state = 0"
    by (simp add: oled_cycle_state_def power_on_def)
  from oled_prep_buffer_cycle [OF r, of example_8x16]
  obtain s1 s2 where
    a: "oled_prep_buffer example_8x16 oled_cycle_state = Inr (256, s1)"
       "oled_prep_buffer example_8x16 s1 = Inr (256, s2)"
       "bl s2 = bl oled_cycle_state" "sr1_in s2 = sr1_in oled_cycle_state"
       "stop_in s2 = stop_in oled_cycle_state"
    and w: "\<And>rs bs. oled_wait_btf (sr1_in s2) = Inr (True, rs) \<Longrightarrow> wait_stop_loop (stop_in s2) = Inr bs \<Longrightarrow>
        (\<exists>s3. oled_prep_buffer example_8x16 s2 = Inr (19, s3) \<and>
              refresh_count s3 = refresh_count oled_cycle_state + 1 \<and> oled_row s3 = 0 \<and>
              events s3 = events oled_cycle_state @ [Ev_stop] \<and>
              map (buffer s3) [0..<19] = readdress_bytes (bl oled_cycle_state))"
    by blast
  have b: "oled_wait_btf (sr1_in s2) = Inr (True, [])"
    by (simp add: a oled_cycle_state_def sr1_has_errors_def)
  have c: "wait_stop_loop (stop_in s2) = Inr []"
    by (simp add: a oled_cycle_state_def)
  from w [OF b c] obtain s3 where
    "oled_prep_buffer example_8x16 s2 = Inr (19, s3)"
    "refresh_count s3 = refresh_count oled_cycle_state + 1" "oled_row s3 = 0"
    "events s3 = events oled_cycle_state @ [Ev_stop]"
    "map (buffer s3) [0..<19] = readdress_bytes (bl oled_cycle_state)"
    by blast
  with r a b c show ?thesis
    by (intro exI [of _ s1] exI [of _ s2] exI [of _ s3])
       (simp add: oled_cycle_state_def power_on_def readdress_bytes_def del: upt_rec_numeral)
qed

theorem oled_prep_buffer_error_counterexample:
  "oled_row oled_err_state = 2 \<and>
   map_sum id fst (oled_prep_buffer example_8x16 oled_err_state) = Inr 0 \<and>
   map_sum id (oled_row \<circ> snd) (oled_prep_buffer example_8x16 oled_err_state) = Inr 2 \<and>
   map_sum id (refresh_count \<circ> snd) (oled_prep_buffer example_8x16 oled_err_state) = Inr 1 \<and>
   map_sum id (i2c_cr1 \<circ> snd) (oled_prep_buffer example_8x16 oled_err_state) = Inr {} \<and>
   map_sum id (events \<circ> snd) (oled_prep_buffer example_8x16 oled_err_state) = Inr []"
  by (simp add: oled_prep_buffer_def oled_err_state_def power_on_def Let_def seq_def
        sr1_has_errors_def)


subsection \<open>C3: the DMA-completion handler\<close>

text \<open>
  Claim C3, as amended. On every DMA-completion event the handler returns, provided
  the row cursor is within 0 to 2, a reading of the clock is available and, in bitmap
  mode at cursor 2, the serializer's status polls end (an error, or the
  byte-transfer-finished flag followed by the STOP bit read as cleared). It has then
  cleared the channel's completion status, called the serializer of the detected
  controller, and called \<^verbatim>\<open>dma_start\<close> with the serializer's result whatever it is:
  the transfer count is set to that length, the channel is enabled and the watchdog
  is rearmed to 200 ms from now. The row cursor is again within 0 to 2. With a
  zero-length result the count programmed is 0 and the watchdog is rearmed all the
  same.

  The claim as stated says that a zero-length result starts nothing and leaves the
  watchdog alone; the last theorem below is a zero-length result after which the
  channel is enabled and the watchdog, unarmed before, is armed.
\<close>

theorem IRQ_dma1_ch4_tc_restarts:
  assumes "now_in s \<noteq> []"
    and "unat (oled_row s) \<le> 2"
    and "i2c_addr s = OLED_ADDR \<and> oled_row s = 2 \<longrightarrow>
           (\<exists>rs. oled_wait_btf (sr1_in s) = Inr (False, rs)) \<or>
           (\<exists>rs bs. oled_wait_btf (sr1_in s) = Inr (True, rs) \<and>
                    wait_stop_loop (stop_in s) = Inr bs)"
  shows "\<exists>n s1 s'.
     (if i2c_addr s = OLED_ADDR
      then oled_prep_buffer h (s\<lparr>dma_ccr := {}, dma_ch4_flags := False\<rparr>)
      else Inr (lcd_prep_buffer (s\<lparr>dma_ccr := {}, dma_ch4_flags := False\<rparr>))) = Inr (n, s1) \<and>
     n \<le> sizeof_buffer \<and>
     IRQ_dma1_ch4_tc h s = Inr s' \<and>
     s' = s1\<lparr>timeout_timer := Some (stk_add h (hd (now_in s)) (DMA_TIMEOUT h)),
             dma_ccr := {DMA_CCR_MSIZE_8BIT, DMA_CCR_PSIZE_16BIT, DMA_CCR_MINC,
                         DMA_CCR_DIR_M2P, DMA_CCR_TCIE, DMA_CCR_EN},
             dma_cndtr := n, dma_cmar := Some Addr_buffer, now_in := tl (now_in s)\<rparr> \<and>
     dma_ch4_flags s' = False \<and> unat (oled_row s') \<le> 2"
proof -
  define s0 where "s0 = s\<lparr>dma_ccr := {}, dma_ch4_flags := False\<rparr>"
  define ser where "ser = (if i2c_addr s = OLED_ADDR then oled_prep_buffer h s0
                           else Inr (lcd_prep_buffer s0))"
  have run: "IRQ_dma1_ch4_tc h s = seq ser (\<lambda>(dma_sz, s). dma_start h dma_sz s)"
    by (simp add: IRQ_dma1_ch4_tc_def Let_def ser_def s0_def)
  have f0: "now_in s0 = now_in s" "oled_row s0 = oled_row s" "sr1_in s0 = sr1_in s"
    "stop_in s0 = stop_in s" "dma_ch4_flags s0 = False"
    by (simp_all add: s0_def)
  have "\<exists>n s1. ser = Inr (n, s1) \<and> n \<le> sizeof_buffer \<and> now_in s1 = now_in s \<and>
          dma_ch4_flags s1 = False \<and> unat (oled_row s1) \<le> 2"
  proof (cases "i2c_addr s = OLED_ADDR")
    case True
    have "\<exists>n s1. oled_prep_buffer h s0 = Inr (n, s1) \<and> n \<le> sizeof_buffer \<and>
           now_in s1 = now_in s0 \<and> dma_ccr s1 = dma_ccr s0 \<and>
           dma_ch4_flags s1 = dma_ch4_flags s0 \<and> unat (oled_row s1) \<le> 2"
      by (rule oled_prep_buffer_returns) (use assms True in \<open>simp_all add: f0\<close>)
    with True show ?thesis unfolding ser_def f0 by auto
  next
    case False
    with assms(2) show ?thesis
      by (simp add: ser_def lcd_prep_buffer_put s0_def sizeof_buffer_def)
  qed
  then obtain n s1 where ser: "ser = Inr (n, s1)" and n: "n \<le> sizeof_buffer"
    and t: "now_in s1 = now_in s" and fl: "dma_ch4_flags s1 = False"
    and row: "unat (oled_row s1) \<le> 2"
    by blast
  define s' where "s' = s1\<lparr>timeout_timer := Some (stk_add h (hd (now_in s)) (DMA_TIMEOUT h)),
             dma_ccr := {DMA_CCR_MSIZE_8BIT, DMA_CCR_PSIZE_16BIT, DMA_CCR_MINC,
                         DMA_CCR_DIR_M2P, DMA_CCR_TCIE, DMA_CCR_EN},
             dma_cndtr := n, dma_cmar := Some Addr_buffer, now_in := tl (now_in s)\<rparr>"
  from assms(1) t have "now_in s1 \<noteq> []" by simp
  from dma_start_returns [OF n this, of h] have "dma_start h n s1 = Inr s'"
    by (simp add: s'_def t)
  with run ser have r: "IRQ_dma1_ch4_tc h s = Inr s'"
    by (simp add: seq_def)
  have "dma_ch4_flags s' = False" "unat (oled_row s') \<le> 2"
    using fl row by (simp_all add: s'_def)
  with ser n r s'_def show ?thesis
    unfolding ser_def s0_def by blast
qed

theorem IRQ_dma1_ch4_tc_restarts_witness:
  "(\<exists>s'. IRQ_dma1_ch4_tc example_8x16 lcd_sync_char_state = Inr s' \<and>
         dma_cndtr s' = 204 \<and> DMA_CCR_EN \<in> dma_ccr s' \<and>
         timeout_timer s' = Some (stk_add example_8x16 700 (DMA_TIMEOUT example_8x16))) \<and>
   (\<exists>s'. IRQ_dma1_ch4_tc example_8x16 oled_row_state = Inr s' \<and>
         dma_cndtr s' = 256 \<and> DMA_CCR_EN \<in> dma_ccr s' \<and> oled_row s' = 1 \<and>
         timeout_timer s' = Some (stk_add example_8x16 5000 (DMA_TIMEOUT example_8x16))) \<and>
   (\<exists>s'. IRQ_dma1_ch4_tc example_8x16 oled_wrap_state = Inr s' \<and>
         dma_cndtr s' = 19 \<and> DMA_CCR_EN \<in> dma_ccr s' \<and> oled_row s' = 0 \<and>
         timeout_timer s' = Some (stk_add example_8x16 5000 (DMA_TIMEOUT example_8x16))) \<and>
   (\<exists>s'. IRQ_dma1_ch4_tc example_8x16 oled_err_state = Inr s' \<and>
         dma_cndtr s' = 0 \<and> DMA_CCR_EN \<in> dma_ccr s' \<and> oled_row s' = 2 \<and>
         timeout_timer s' = Some (stk_add example_8x16 5000 (DMA_TIMEOUT example_8x16)))"
proof -
  have c: "now_in lcd_sync_char_state \<noteq> []" "unat (oled_row lcd_sync_char_state) \<le> 2"
    "i2c_addr lcd_sync_char_state \<noteq> OLED_ADDR" "hd (now_in lcd_sync_char_state) = 700"
    by (simp_all add: lcd_sync_char_state_def power_on_def OLED_ADDR_def)
  have r: "now_in oled_row_state \<noteq> []" "unat (oled_row oled_row_state) < 2"
    "i2c_addr oled_row_state = OLED_ADDR" "oled_row oled_row_state = 0"
    "hd (now_in oled_row_state) = 5000"
    by (simp_all add: oled_row_state_def oled_cycle_state_def power_on_def)
  have w: "now_in oled_wrap_state \<noteq> []" "oled_row oled_wrap_state = 2"
    "i2c_addr oled_wrap_state = OLED_ADDR"
    "oled_wait_btf (sr1_in oled_wrap_state) = Inr (True, [])"
    "wait_stop_loop (stop_in oled_wrap_state) = Inr []"
    "hd (now_in oled_wrap_state) = 5000"
    by (simp_all add: oled_wrap_state_def power_on_def)
  have e: "now_in oled_err_state \<noteq> []" "oled_row oled_err_state = 2"
    "i2c_addr oled_err_state = OLED_ADDR"
    "oled_wait_btf (sr1_in oled_err_state) = Inr (False, [])"
    "hd (now_in oled_err_state) = 5000"
    by (simp_all add: oled_err_state_def power_on_def sr1_has_errors_def)
  have "\<exists>s'. IRQ_dma1_ch4_tc example_8x16 lcd_sync_char_state = Inr s' \<and>
         dma_cndtr s' = 204 \<and> DMA_CCR_EN \<in> dma_ccr s' \<and>
         timeout_timer s' = Some (stk_add example_8x16 700 (DMA_TIMEOUT example_8x16))"
    using IRQ_dma1_ch4_tc_restarts [of lcd_sync_char_state example_8x16] c
    by (auto simp: lcd_prep_buffer_put)
  moreover
  have "\<exists>s'. IRQ_dma1_ch4_tc example_8x16 oled_row_state = Inr s' \<and>
         dma_cndtr s' = 256 \<and> DMA_CCR_EN \<in> dma_ccr s' \<and> oled_row s' = 1 \<and>
         timeout_timer s' = Some (stk_add example_8x16 5000 (DMA_TIMEOUT example_8x16))"
    using IRQ_dma1_ch4_tc_restarts [of oled_row_state example_8x16] r
    by (auto simp: oled_prep_buffer_row simp del: upt_rec_numeral)
  moreover
  have "\<exists>s'. IRQ_dma1_ch4_tc example_8x16 oled_wrap_state = Inr s' \<and>
         dma_cndtr s' = 19 \<and> DMA_CCR_EN \<in> dma_ccr s' \<and> oled_row s' = 0 \<and>
         timeout_timer s' = Some (stk_add example_8x16 5000 (DMA_TIMEOUT example_8x16))"
    using IRQ_dma1_ch4_tc_restarts [of oled_wrap_state example_8x16] w
    by (auto simp: oled_prep_buffer_wrap [where rs = "[]" and bs = "[]"])
  moreover
  have "\<exists>s'. IRQ_dma1_ch4_tc example_8x16 oled_err_state = Inr s' \<and>
         dma_cndtr s' = 0 \<and> DMA_CCR_EN \<in> dma_ccr s' \<and> oled_row s' = 2 \<and>
         timeout_timer s' = Some (stk_add example_8x16 5000 (DMA_TIMEOUT example_8x16))"
    using IRQ_dma1_ch4_tc_restarts [of oled_err_state example_8x16] e
    by (auto simp: oled_prep_buffer_error [where rs = "[]"])
  ultimately show ?thesis by blast
qed

theorem IRQ_dma1_ch4_tc_zero_length_counterexample:
  "map_sum id fst (oled_prep_buffer example_8x16 oled_err_state) = Inr 0 \<and>
   timeout_timer oled_err_state = None \<and>
   dma_ccr oled_err_state = {} \<and>
   map_sum id timeout_timer (IRQ_dma1_ch4_tc example_8x16 oled_err_state) =
     Inr (Some (stk_add example_8x16 5000 (DMA_TIMEOUT example_8x16))) \<and>
   map_sum id dma_ccr (IRQ_dma1_ch4_tc example_8x16 oled_err_state) =
     Inr {DMA_CCR_MSIZE_8BIT, DMA_CCR_PSIZE_16BIT, DMA_CCR_MINC,
          DMA_CCR_DIR_M2P, DMA_CCR_TCIE, DMA_CCR_EN} \<and>
   map_sum id dma_cndtr (IRQ_dma1_ch4_tc example_8x16 oled_err_state) = Inr 0"
  by (simp add: IRQ_dma1_ch4_tc_def oled_prep_buffer_def oled_err_state_def power_on_def
        Let_def seq_def sr1_has_errors_def dma_start_def stk_now_def timer_set_def
        sizeof_buffer_def OLED_ADDR_def)


subsection \<open>C4: the character-mode frame of HELLO\<close>

text \<open>
  Claim C4. For a text buffer holding \<open>HELLO\<close> at row 0, column 0 and spaces everywhere
  else, \<^verbatim>\<open>lcd_prep_buffer\<close> returns 204 and the first 204 bytes of the transfer buffer
  are: the row-0 address-set command 0x80, the 16 characters of row 0 with
  register-select (\<open>H\<close>, \<open>E\<close>, \<open>L\<close>, \<open>L\<close>, \<open>O\<close>, 11 spaces), the row-1 address-set
  command 0x80 | 64, the 16 spaces of row 1; each logical byte as high nibble then low
  nibble, each nibble three times (value, value with enable, value); and the backlight
  flag OR-ed into every one of these bytes. The frame is \<open>wire_frame\<close>, which spells
  this format out.
\<close>

theorem lcd_prep_buffer_hello:
  assumes "map (text_buf s) [0..<32] = ''HELLO'' @ replicate 27 (CHR '' '')"
  shows "fst (lcd_prep_buffer s) = 204 \<and>
         map (buffer (snd (lcd_prep_buffer s))) [0..<204] =
           map (\<lambda>b. b OR bl s) (wire_frame (''HELLO'' @ replicate 11 (CHR '' '')) (replicate 16 (CHR '' '')))"
proof -
  have "map (text_buf s) [0..<16] = take 16 (map (text_buf s) [0..<32])"
    by (simp add: take_map del: upt_rec_numeral)
  moreover have "map (text_buf s) [16..<32] = drop 16 (map (text_buf s) [0..<32])"
    by (simp add: drop_map del: upt_rec_numeral)
  ultimately have rows: "map (text_buf s) [0..<16] = ''HELLO'' @ replicate 11 (CHR '' '')"
       "map (text_buf s) [16..<32] = replicate 16 (CHR '' '')"
    unfolding assms by simp_all
  have len: "length (map (\<lambda>b. b OR bl s)
                  (wire_frame (map (text_buf s) [0..<16]) (map (text_buf s) [16..<32]))) = 204"
    by (simp add: length_wire_frame del: upt_rec_numeral)
  show ?thesis
    using put_read [of "buffer s" 0 "map (\<lambda>b. b OR bl s)
                  (wire_frame (map (text_buf s) [0..<16]) (map (text_buf s) [16..<32]))"]
    unfolding len
    by (simp add: lcd_prep_buffer_put rows del: upt_rec_numeral replicate.simps)
qed

theorem lcd_prep_buffer_hello_witness:
  "map (text_buf hello_state) [0..<32] = ''HELLO'' @ replicate 27 (CHR '' '') \<and>
   fst (lcd_prep_buffer hello_state) = 204 \<and>
   take 18 (map (buffer (snd (lcd_prep_buffer hello_state))) [0..<204]) =
     [0x80, 0x84, 0x80, 0x00, 0x04, 0x00,
      0x41, 0x45, 0x41, 0x81, 0x85, 0x81,
      0x41, 0x45, 0x41, 0x51, 0x55, 0x51]"
proof -
  have h: "map (text_buf hello_state) [0..<32] = ''HELLO'' @ replicate 27 (CHR '' '')"
    by (simp add: hello_state_def upt_32 numeral_eq_Suc)
  have b: "bl hello_state = 0"
    by (simp add: hello_state_def power_on_def)
  show ?thesis
    using h lcd_prep_buffer_hello [OF h]
    by (simp add: b wire_frame_def wire_row_def wire_byte_def wire_nibble_def EN_def RS_def)
qed

subsection \<open>C5: lcd\_write copies, pads and clips\<close>

text \<open>
  Claim C5. For a start column from 0 to 16, a row 0 or 1, any minimum width and a
  NUL-terminated string shorter than 16 minus the start column, \<^verbatim>\<open>lcd_write\<close>
  returns with the grid \<open>lcd_write_spec\<close> describes: the string from \<open>(col, row)\<close>
  on, then spaces until the minimum width is reached or column 16 is, and every
  other cell as it was; in particular no cell before the start cell, at column 16 or
  beyond, or in the other row changes, whatever it held.
\<close>

theorem lcd_write_pads_and_clips:
  assumes "0 \<le> col" and "col \<le> 16" and "row = 0 \<or> row = 1"
    and "CHR 0x00 \<notin> set str" and "int (length str) < 16 - col"
  shows "lcd_write col row minw str s =
           Inr (s\<lparr>text_buf := lcd_write_spec col row minw str (text_buf s)\<rparr>) \<and>
         (\<forall>i. int i < 16 * row + col \<or> 16 * row + 16 \<le> int i \<longrightarrow>
              lcd_write_spec col row minw str (text_buf s) i = text_buf s i)"
proof -
  let ?p = "16 * row + col"
  let ?n = "int (length str)"
  have copy: "lcd_write_copy str col ?p minw (text_buf s) =
     Inr (col + ?n, ?p + ?n, minw - ?n, copied (text_buf s) ?p str)"
    using assms by (intro lcd_write_copy_fits) auto
  obtain c' p' m' where pad:
    "lcd_write_pad (col + ?n) (?p + ?n) (minw - ?n) (copied (text_buf s) ?p str) =
       Inr (c', p', m', padded (copied (text_buf s) ?p str) (?p + ?n)
                          (nat (min (16 - (col + ?n)) (minw - ?n))))"
    using lcd_write_pad_fits [of "?p + ?n" "col + ?n" "minw - ?n" "copied (text_buf s) ?p str"] assms
    by auto
  have eq: "padded (copied (text_buf s) ?p str) (?p + ?n) (nat (min (16 - (col + ?n)) (minw - ?n)))
            = lcd_write_spec col row minw str (text_buf s)"
    using assms(1)
    by (auto simp: padded_def copied_def lcd_write_spec_def fun_eq_iff Let_def algebra_simps)
  have "lcd_write col row minw str s =
           Inr (s\<lparr>text_buf := lcd_write_spec col row minw str (text_buf s)\<rparr>)"
    by (simp add: lcd_write_def Let_def seq_def copy pad eq)
  moreover have "\<forall>i. int i < 16 * row + col \<or> 16 * row + 16 \<le> int i \<longrightarrow>
              lcd_write_spec col row minw str (text_buf s) i = text_buf s i"
    using assms by (auto simp: lcd_write_spec_def Let_def)
  ultimately show ?thesis by blast
qed

theorem lcd_write_pads_and_clips_witness:
  "lcd_write 3 1 8 ''AB'' power_on =
     Inr (power_on\<lparr>text_buf := lcd_write_spec 3 1 8 ''AB'' (text_buf power_on)\<rparr>) \<and>
   map (lcd_write_spec 3 1 8 ''AB'' (text_buf power_on)) [16..<32] =
     [CHR 0x00, CHR 0x00, CHR 0x00, CHR ''A'', CHR ''B'', CHR '' '', CHR '' '', CHR '' '',
      CHR '' '', CHR '' '', CHR '' '', CHR 0x00, CHR 0x00, CHR 0x00, CHR 0x00, CHR 0x00] \<and>
   map (lcd_write_spec 12 0 16 ''XYZ'' (text_buf power_on)) [8..<20] =
     [CHR 0x00, CHR 0x00, CHR 0x00, CHR 0x00, CHR ''X'', CHR ''Y'', CHR ''Z'', CHR '' '',
      CHR 0x00, CHR 0x00, CHR 0x00, CHR 0x00] \<and>
   lcd_write 12 0 16 ''XYZ'' power_on =
     Inr (power_on\<lparr>text_buf := lcd_write_spec 12 0 16 ''XYZ'' (text_buf power_on)\<rparr>)"
  using lcd_write_pads_and_clips [of 3 1 "''AB''" 8 power_on]
    lcd_write_pads_and_clips [of 12 0 "''XYZ''" 16 power_on]
  by (simp add: lcd_write_spec_def power_on_def Let_def)

subsection \<open>C6: the text grid after initialisation\<close>

text \<open>
  Claim C6, as amended. After a successful first initialisation (no address stored
  when \<^verbatim>\<open>lcd_init\<close> is called) every one of the 32 cells of the text grid holds a
  space. A reinitialisation (an address is stored), whether \<^verbatim>\<open>lcd_init\<close> is called
  directly or by the bus-error handler \<^verbatim>\<open>IRQ_i2c_error\<close>, and whether it succeeds or
  not, leaves the text grid exactly as it was: \<^verbatim>\<open>lcd_clear()\<close> is called under
  \<^verbatim>\<open>if (!reinit)\<close> only.

  The claim as stated has every successful initialisation blank the grid, the
  error-triggered one included; the last theorem below is a bus error in bitmap mode
  after which initialisation succeeds and the grid still reads \<open>HELLO\<close>.
\<close>

theorem lcd_init_text_grid:
  "(lcd_init h s = Inr (True, s') \<and> i2c_addr s = 0 \<longrightarrow>
      text_cells s' = replicate 32 (CHR '' '')) \<and>
   (lcd_init h s = Inr (ok, s') \<and> i2c_addr s \<noteq> 0 \<longrightarrow> text_buf s' = text_buf s) \<and>
   (IRQ_i2c_error h s = Inr (ok, s') \<and> i2c_addr s \<noteq> 0 \<longrightarrow> text_buf s' = text_buf s)"
proof -
  have "text_buf s' = text_buf s" if "IRQ_i2c_error h s = Inr (ok, s')" "i2c_addr s \<noteq> 0"
  proof -
    from IRQ_i2c_error_lcd_init [OF that(1)] obtain s0 where
      "lcd_init h s0 = Inr (ok, s')" "i2c_addr s0 = i2c_addr s" "text_buf s0 = text_buf s"
      by blast
    with that(2) lcd_init_reinit_text [of s0 h ok s'] show ?thesis by simp
  qed
  then show ?thesis
    using lcd_init_first_blank [of s h s'] lcd_init_reinit_text [of s h ok s'] by blast
qed

theorem lcd_init_text_grid_witness:
  "(\<exists>s'. lcd_init example_8x16 first_init_state = Inr (True, s') \<and>
         i2c_addr first_init_state = 0 \<and>
         text_cells first_init_state \<noteq> replicate 32 (CHR '' '') \<and>
         text_cells s' = replicate 32 (CHR '' '')) \<and>
   (\<exists>s'. IRQ_i2c_error example_8x16 oled_reinit_state = Inr (True, s') \<and>
         i2c_addr oled_reinit_state \<noteq> 0 \<and>
         text_buf s' = text_buf oled_reinit_state)"
proof -
  from first_init_run obtain s1 where
    a: "lcd_init example_8x16 first_init_state = Inr (True, s1)" by blast
  from oled_reinit_run obtain s2 where
    b: "IRQ_i2c_error example_8x16 oled_reinit_state = Inr (True, s2)" by blast
  have h: "text_cells first_init_state ! 0 = CHR ''H''"
    by (simp add: first_init_state_def hello_state_def text_cells_def del: upt_rec_numeral)
  have n: "text_cells first_init_state \<noteq> replicate 32 (CHR '' '')"
  proof
    assume "text_cells first_init_state = replicate 32 (CHR '' '')"
    with h have "replicate 32 (CHR '' '') ! 0 = CHR ''H''" by simp
    then show False by simp
  qed
  have c: "i2c_addr first_init_state = 0" "i2c_addr oled_reinit_state \<noteq> 0"
    by (simp_all add: first_init_state_def oled_reinit_state_def hello_state_def power_on_def
          OLED_ADDR_def)
  from lcd_init_text_grid [of example_8x16 first_init_state s1 True] a c
  have d: "text_cells s1 = replicate 32 (CHR '' '')" by simp
  from lcd_init_text_grid [of example_8x16 oled_reinit_state s2 True] b c
  have e: "text_buf s2 = text_buf oled_reinit_state" by simp
  from a b c d e n show ?thesis by blast
qed

theorem IRQ_i2c_error_keeps_text_counterexample:
  "i2c_addr oled_reinit_state \<noteq> 0 \<and>
   map_sum id fst (IRQ_i2c_error example_8x16 oled_reinit_state) = Inr True \<and>
   map_sum id (text_cells \<circ> snd) (IRQ_i2c_error example_8x16 oled_reinit_state) =
     Inr [CHR ''H'', CHR ''E'', CHR ''L'', CHR ''L'', CHR ''O'', CHR '' '', CHR '' '', CHR '' '',
          CHR '' '', CHR '' '', CHR '' '', CHR '' '', CHR '' '', CHR '' '', CHR '' '', CHR '' '',
          CHR '' '', CHR '' '', CHR '' '', CHR '' '', CHR '' '', CHR '' '', CHR '' '', CHR '' '',
          CHR '' '', CHR '' '', CHR '' '', CHR '' '', CHR '' '', CHR '' '', CHR '' '', CHR '' '']"
  by (simp add: IRQ_i2c_error_def timer_cancel_def
        lcd_init_def Let_def seq_def lcd_init_unwedge_def gpio_configure_pin_def
        gpio_read_pin_def gpio_write_pin_def lcd_init_standard_mode_def
        lcd_init_tail_def oled_init_def emit_cmds_put oled_start_i2c_put init_cmds_def
        lcd_init_irqs_def IRQx_set_prio_def IRQx_clear_pending_def IRQx_enable_def
        timer_init_def timer_set_def stk_now_def
        dma_start_def sizeof_buffer_def OLED_ADDR_def text_cells_def upt_32
        oled_reinit_state_def hello_state_def power_on_def)

subsection \<open>C7: the floating-bus check and the address scan run on the first call only\<close>

text \<open>
  Claim C7. On a reinitialisation (an address is stored) \<^verbatim>\<open>lcd_init\<close> keeps the stored
  address, and all it does to the pins and the bus is: both pins to open-drain
  outputs, both pins to their alternate function, and then, for a character display
  only, the address byte of the stored address followed by the 4-bit interface
  initialisation (nothing, or the address byte alone, when the bus start fails). No
  pin is configured with a pull-down, no other address is written and no STOP is
  requested: the floating-bus check and the scan are skipped.

  On a first call (no address stored) the pins are configured with pull-downs and
  read. When the check fails, \<^verbatim>\<open>lcd_init\<close> fails with no address stored and
  nothing written to the bus. When it passes, the scan runs over
  \<open>scan_addresses\<close> (0x20 to 0x27, then 0x38 to 0x3f) in this order: an address
  \<open>a\<close> returned is one of the list, every address before it in the list was probed
  and did not acknowledge, \<open>a\<close> did, and \<open>a\<close> is stored; a scan that returns 0 has
  probed a prefix of the list without an acknowledge and has reached the end of the
  list or found the bus dead, and \<^verbatim>\<open>lcd_init\<close> fails with no address stored. After
  success the bus runs in fast mode, as \<^verbatim>\<open>oled_init\<close> sets it, exactly when the
  address found is 0x3c; any other address is initialised as a character display
  in standard mode.
\<close>

theorem lcd_init_check_and_scan:
  "(lcd_init h s = Inr (ok, s') \<and> i2c_addr s \<noteq> 0 \<longrightarrow>
      i2c_addr s' = i2c_addr s \<and>
      (\<exists>ws. events s' =
            events s @ [Ev_gpio_configure SCL (GPO_opendrain True),
                        Ev_gpio_configure SDA (GPO_opendrain True),
                        Ev_gpio_configure SCL AFO_opendrain,
                        Ev_gpio_configure SDA AFO_opendrain] @ map Ev_dr_write ws \<and>
           (if i2c_addr s = OLED_ADDR then ws = []
            else if ok then ws = 2 * unat (i2c_addr s) # hd44780_nibbles
            else ws = [] \<or> ws = [2 * unat (i2c_addr s)]))) \<and>
   (lcd_init h s = Inr (ok, s') \<and> i2c_addr s = 0 \<longrightarrow>
      (\<exists>s1 valid s2.
      lcd_init_unwedge (s\<lparr>rcc_apb1enr := insert RCC_APB1ENR_I2C2EN (rcc_apb1enr s)\<rparr>) = Inr s1 \<and>
      lcd_init_check_bus s1 = Inr (valid, s2) \<and>
      events s2 = events s @ [Ev_gpio_configure SCL (GPO_opendrain True),
                              Ev_gpio_configure SDA (GPO_opendrain True),
                              Ev_gpio_configure SCL GPI_pull_down,
                              Ev_gpio_configure SDA GPI_pull_down] \<and>
      (\<not> valid \<longrightarrow> \<not> ok \<and> i2c_addr s' = 0 \<and>
         events s' = events s2 @ [Ev_gpio_configure SCL GPI_pull_up,
                                  Ev_gpio_configure SDA GPI_pull_up]) \<and>
      (valid \<longrightarrow>
         (\<exists>a s3. lcd_init_scan h (lcd_init_standard_mode s2) = Inr (a, s3) \<and>
            (a \<noteq> 0 \<longrightarrow>
               (\<exists>pre post s4. scan_addresses = pre @ a # post \<and>
                    failed_probes h pre (lcd_init_standard_mode s2) = Some s4 \<and>
                    i2c_probe h a s4 = Inr (True, s3)) \<and>
               i2c_addr s' = a) \<and>
            (a = 0 \<longrightarrow>
               (\<exists>pre post. scan_addresses = pre @ post \<and>
                    failed_probes h pre (lcd_init_standard_mode s2) = Some s3 \<and>
                    (post = [] \<or> i2c_dead s3)) \<and>
               \<not> ok \<and> i2c_addr s' = 0) \<and>
            (ok \<longrightarrow> a \<noteq> 0 \<and> (I2C_CCR_FS \<in> i2c_ccr s' \<longleftrightarrow> a = OLED_ADDR))))))"
  using lcd_init_reinit_events [of s h ok s'] lcd_init_first_scan [of s h ok s']
  by blast

theorem lcd_init_check_and_scan_witness:
  "(\<exists>s'. lcd_init example_8x16 oled_first_state = Inr (True, s') \<and>
         i2c_addr oled_first_state = 0 \<and> i2c_addr s' = OLED_ADDR \<and>
         I2C_CCR_FS \<in> i2c_ccr s' \<and>
         events s' =
       [Ev_gpio_configure SCL (GPO_opendrain True), Ev_gpio_configure SDA (GPO_opendrain True),
        Ev_gpio_configure SCL GPI_pull_down, Ev_gpio_configure SDA GPI_pull_down,
        Ev_gpio_configure SCL AFO_opendrain, Ev_gpio_configure SDA AFO_opendrain,
        Ev_dr_write 0x40, Ev_dr_write 0x42, Ev_dr_write 0x44, Ev_dr_write 0x46,
        Ev_dr_write 0x48, Ev_dr_write 0x4a, Ev_dr_write 0x4c, Ev_dr_write 0x4e,
        Ev_dr_write 0x70, Ev_dr_write 0x72, Ev_dr_write 0x74, Ev_dr_write 0x76,
        Ev_dr_write 0x78, Ev_dr_write 0, Ev_stop]) \<and>
   (\<exists>s'. lcd_init example_8x16 first_init_state = Inr (True, s') \<and>
         i2c_addr first_init_state = 0 \<and> i2c_addr s' = 0x20 \<and>
         I2C_CCR_FS \<notin> i2c_ccr s') \<and>
   (\<exists>s'. lcd_init example_8x16 oled_reinit_state = Inr (True, s') \<and>
         i2c_addr oled_reinit_state = OLED_ADDR \<and> i2c_addr s' = OLED_ADDR \<and>
         events s' = [Ev_gpio_configure SCL (GPO_opendrain True),
                      Ev_gpio_configure SDA (GPO_opendrain True),
                      Ev_gpio_configure SCL AFO_opendrain,
                      Ev_gpio_configure SDA AFO_opendrain])"
proof -
  from oled_first_run obtain s1 where
    a: "lcd_init example_8x16 oled_first_state = Inr (True, s1)" "i2c_addr s1 = 0x3c"
    and a': "events s1 =
       [Ev_gpio_configure SCL (GPO_opendrain True), Ev_gpio_configure SDA (GPO_opendrain True),
        Ev_gpio_configure SCL GPI_pull_down, Ev_gpio_configure SDA GPI_pull_down,
        Ev_gpio_configure SCL AFO_opendrain, Ev_gpio_configure SDA AFO_opendrain,
        Ev_dr_write 0x40, Ev_dr_write 0x42, Ev_dr_write 0x44, Ev_dr_write 0x46,
        Ev_dr_write 0x48, Ev_dr_write 0x4a, Ev_dr_write 0x4c, Ev_dr_write 0x4e,
        Ev_dr_write 0x70, Ev_dr_write 0x72, Ev_dr_write 0x74, Ev_dr_write 0x76,
        Ev_dr_write 0x78, Ev_dr_write 0, Ev_stop]"
    by blast
  from first_init_run obtain s2 where
    b: "lcd_init example_8x16 first_init_state = Inr (True, s2)" "i2c_addr s2 = 0x20" by blast
  from oled_reinit_direct_run obtain s3 where
    c: "lcd_init example_8x16 oled_reinit_state = Inr (True, s3)" by blast
  have z: "i2c_addr oled_first_state = 0" "i2c_addr first_init_state = 0"
    "i2c_addr oled_reinit_state = OLED_ADDR" "OLED_ADDR \<noteq> 0" "events oled_reinit_state = []"
    by (simp_all add: oled_first_state_def first_init_state_def oled_reinit_state_def
          hello_state_def power_on_def OLED_ADDR_def)
  from lcd_init_check_and_scan [of example_8x16 oled_first_state True s1] a z
  have d: "I2C_CCR_FS \<in> i2c_ccr s1"
    by (auto simp: OLED_ADDR_def)
  from lcd_init_check_and_scan [of example_8x16 first_init_state True s2] b z
  have e: "I2C_CCR_FS \<notin> i2c_ccr s2"
    by (auto simp: OLED_ADDR_def)
  from lcd_init_check_and_scan [of example_8x16 oled_reinit_state True s3] c z
  have f: "i2c_addr s3 = OLED_ADDR \<and>
         events s3 = [Ev_gpio_configure SCL (GPO_opendrain True),
                      Ev_gpio_configure SDA (GPO_opendrain True),
                      Ev_gpio_configure SCL AFO_opendrain,
                      Ev_gpio_configure SDA AFO_opendrain]"
    by auto
  from a a' b c z d e f show ?thesis by (simp add: OLED_ADDR_def)
qed

subsection \<open>C8: bounded waits, and the scan stops on a dead bus\<close>



subsection \<open>C9: what a failed initialisation leaves behind\<close>

text \<open>
  Claim C9. When \<^verbatim>\<open>lcd_init\<close> returns failure on a first call (no address stored),
  the bus-error and DMA interrupts are disabled, the I2C peripheral is disabled
  (\<^verbatim>\<open>PE\<close> clear) and so is its clock, and both bus pins are inputs with weak
  pull-ups. When it returns failure on a reinitialisation (an address is stored),
  the state returned is the state at the failed bus start, with nothing undone: the
  event, error and DMA interrupts are enabled, the peripheral and its clock are on
  with error interrupts enabled, the pins are in their alternate function, the
  watchdog is armed and the stored address is kept, so that the next bus error or
  time-out runs \<^verbatim>\<open>lcd_init\<close> again.
\<close>

theorem lcd_init_failure_teardown:
  "(lcd_init h s = Inr (False, s') \<and> i2c_addr s = 0 \<longrightarrow>
      I2C_ERROR_IRQ \<notin> irq_enabled s' \<and> DMA1_CH4_IRQ \<notin> irq_enabled s' \<and>
      I2C_CR1_PE \<notin> i2c_cr1 s' \<and> RCC_APB1ENR_I2C2EN \<notin> rcc_apb1enr s' \<and>
      pin_cfg s' SCL = Some GPI_pull_up \<and> pin_cfg s' SDA = Some GPI_pull_up) \<and>
   (lcd_init h s = Inr (False, s') \<and> i2c_addr s \<noteq> 0 \<longrightarrow>
      (\<exists>s1 s2.
         lcd_init_unwedge (s\<lparr>rcc_apb1enr := insert RCC_APB1ENR_I2C2EN (rcc_apb1enr s)\<rparr>)
           = Inr s1 \<and>
         lcd_init_irqs h (lcd_init_standard_mode s1) = Inr s2 \<and>
         i2c_start h (i2c_addr s) s2 = Inr (False, s')) \<and>
      I2C_EVENT_IRQ \<in> irq_enabled s' \<and> I2C_ERROR_IRQ \<in> irq_enabled s' \<and>
      DMA1_CH4_IRQ \<in> irq_enabled s' \<and>
      I2C_CR1_PE \<in> i2c_cr1 s' \<and> I2C_CR2_ITERREN \<in> i2c_cr2 s' \<and>
      RCC_APB1ENR_I2C2EN \<in> rcc_apb1enr s' \<and>
      pin_cfg s' SCL = Some AFO_opendrain \<and> pin_cfg s' SDA = Some AFO_opendrain \<and>
      timeout_timer s' \<noteq> None \<and> i2c_addr s' = i2c_addr s)"
proof -
  have first: "I2C_ERROR_IRQ \<notin> irq_enabled s' \<and> DMA1_CH4_IRQ \<notin> irq_enabled s' \<and>
      I2C_CR1_PE \<notin> i2c_cr1 s' \<and> RCC_APB1ENR_I2C2EN \<notin> rcc_apb1enr s' \<and>
      pin_cfg s' SCL = Some GPI_pull_up \<and> pin_cfg s' SDA = Some GPI_pull_up"
    if "lcd_init h s = Inr (False, s')" "i2c_addr s = 0"
  proof -
    from lcd_init_first_fail [OF that(2,1)] obtain s2 where
      "lcd_init_fail False s2 = (False, s')" by metis
    from lcd_init_fail_first [OF this] show ?thesis by simp
  qed
  have re: "(\<exists>s1 s2.
         lcd_init_unwedge (s\<lparr>rcc_apb1enr := insert RCC_APB1ENR_I2C2EN (rcc_apb1enr s)\<rparr>)
           = Inr s1 \<and>
         lcd_init_irqs h (lcd_init_standard_mode s1) = Inr s2 \<and>
         i2c_start h (i2c_addr s) s2 = Inr (False, s')) \<and>
      I2C_EVENT_IRQ \<in> irq_enabled s' \<and> I2C_ERROR_IRQ \<in> irq_enabled s' \<and>
      DMA1_CH4_IRQ \<in> irq_enabled s' \<and>
      I2C_CR1_PE \<in> i2c_cr1 s' \<and> I2C_CR2_ITERREN \<in> i2c_cr2 s' \<and>
      RCC_APB1ENR_I2C2EN \<in> rcc_apb1enr s' \<and>
      pin_cfg s' SCL = Some AFO_opendrain \<and> pin_cfg s' SDA = Some AFO_opendrain \<and>
      timeout_timer s' \<noteq> None \<and> i2c_addr s' = i2c_addr s"
    if "lcd_init h s = Inr (False, s')" "i2c_addr s \<noteq> 0"
  proof -
    from lcd_init_reinit_fail [OF that(2,1)] obtain s1 s2 where
      u: "lcd_init_unwedge (s\<lparr>rcc_apb1enr := insert RCC_APB1ENR_I2C2EN (rcc_apb1enr s)\<rparr>)
           = Inr s1"
      and i: "lcd_init_irqs h (lcd_init_standard_mode s1) = Inr s2"
      and st: "i2c_start h (i2c_addr s) s2 = Inr (False, s')"
      by blast
    note g = gpio_rest_fields [OF lcd_init_unwedge_result(1) [OF u]]
    note m = lcd_init_standard_mode_fields [of s1]
    note q = lcd_init_irqs_result [OF i]
    from i2c_start_result [OF st]
    have b: "bus_rest s' = bus_rest s2" and c: "i2c_cr1 s' = insert I2C_CR1_START (i2c_cr1 s2)"
      by blast+
    note f = bus_rest_fields [OF b]
    have "I2C_EVENT_IRQ \<in> irq_enabled s'" "I2C_ERROR_IRQ \<in> irq_enabled s'"
      "DMA1_CH4_IRQ \<in> irq_enabled s'"
      by (simp_all add: f(17) q(9))
    moreover have "I2C_CR1_PE \<in> i2c_cr1 s'" by (simp add: c q(7) m(7))
    moreover have "I2C_CR2_ITERREN \<in> i2c_cr2 s'" by (simp add: f(8) q(10))
    moreover have "RCC_APB1ENR_I2C2EN \<in> rcc_apb1enr s'" by (simp add: f(16) q(4) m(10) g(5))
    moreover have "pin_cfg s' SCL = Some AFO_opendrain" "pin_cfg s' SDA = Some AFO_opendrain"
      by (simp_all add: f(20) q(5) m(3))
    moreover have "timeout_timer s' \<noteq> None" by (simp add: f(7) q(11))
    moreover have "i2c_addr s' = i2c_addr s" by (simp add: f(2) q(2) m(5) g(2))
    ultimately show ?thesis using u i st by blast
  qed
  from first re show ?thesis by blast
qed

theorem lcd_init_failure_teardown_witness:
  "(\<exists>s'. lcd_init example_8x16 dead_bus_state = Inr (False, s') \<and>
         i2c_addr dead_bus_state = 0 \<and>
         I2C_ERROR_IRQ \<notin> irq_enabled s' \<and> DMA1_CH4_IRQ \<notin> irq_enabled s' \<and>
         I2C_CR1_PE \<notin> i2c_cr1 s' \<and> RCC_APB1ENR_I2C2EN \<notin> rcc_apb1enr s' \<and>
         pin_cfg s' SCL = Some GPI_pull_up \<and> pin_cfg s' SDA = Some GPI_pull_up) \<and>
   (\<exists>s'. lcd_init example_8x16 reinit_fail_state = Inr (False, s') \<and>
         i2c_addr reinit_fail_state \<noteq> 0 \<and>
         I2C_ERROR_IRQ \<in> irq_enabled s' \<and> DMA1_CH4_IRQ \<in> irq_enabled s' \<and>
         I2C_CR1_PE \<in> i2c_cr1 s' \<and> I2C_CR2_ITERREN \<in> i2c_cr2 s' \<and>
         RCC_APB1ENR_I2C2EN \<in> rcc_apb1enr s' \<and>
         pin_cfg s' SCL = Some AFO_opendrain \<and> pin_cfg s' SDA = Some AFO_opendrain \<and>
         timeout_timer s' \<noteq> None \<and> i2c_addr s' = 0x27)"
proof -
  from dead_bus_run obtain s1 where
    a: "lcd_init example_8x16 dead_bus_state = Inr (False, s1)" by blast
  from reinit_fail_run obtain s2 where
    b: "lcd_init example_8x16 reinit_fail_state = Inr (False, s2)" by blast
  have c: "i2c_addr dead_bus_state = 0" "i2c_addr reinit_fail_state \<noteq> 0"
    "i2c_addr reinit_fail_state = 0x27"
    by (simp_all add: dead_bus_state_def reinit_fail_state_def power_on_def)
  from lcd_init_failure_teardown [of example_8x16 dead_bus_state s1] a c
  have d: "I2C_ERROR_IRQ \<notin> irq_enabled s1 \<and> DMA1_CH4_IRQ \<notin> irq_enabled s1 \<and>
         I2C_CR1_PE \<notin> i2c_cr1 s1 \<and> RCC_APB1ENR_I2C2EN \<notin> rcc_apb1enr s1 \<and>
         pin_cfg s1 SCL = Some GPI_pull_up \<and> pin_cfg s1 SDA = Some GPI_pull_up"
    by simp
  from lcd_init_failure_teardown [of example_8x16 reinit_fail_state s2] b c
  have e: "I2C_ERROR_IRQ \<in> irq_enabled s2 \<and> DMA1_CH4_IRQ \<in> irq_enabled s2 \<and>
         I2C_CR1_PE \<in> i2c_cr1 s2 \<and> I2C_CR2_ITERREN \<in> i2c_cr2 s2 \<and>
         RCC_APB1ENR_I2C2EN \<in> rcc_apb1enr s2 \<and>
         pin_cfg s2 SCL = Some AFO_opendrain \<and> pin_cfg s2 SDA = Some AFO_opendrain \<and>
         timeout_timer s2 \<noteq> None \<and> i2c_addr s2 = 0x27"
    by simp
  from a b c d e show ?thesis by blast
qed

subsection \<open>C10: every length passed to dma\_start fits the buffer\<close>

text \<open>
  Claim C10. \<^verbatim>\<open>lcd_prep_buffer\<close> always returns 204; \<^verbatim>\<open>oled_prep_buffer\<close> returns
  0, 19 or 256 whenever it returns; \<^verbatim>\<open>oled_init\<close> passes 63 bytes and the character
  controller's initialisation 24 bytes to \<^verbatim>\<open>dma_start\<close>; the assertion of
  \<^verbatim>\<open>dma_start\<close> fails exactly for a size above 256; and so no run of the
  DMA-completion handler, of \<^verbatim>\<open>lcd_init\<close> or of the bus-error handler (the callers
  of \<^verbatim>\<open>dma_start\<close>) ends in a failed assertion.
\<close>

theorem dma_start_size_fits:
  "fst (lcd_prep_buffer s) = 204 \<and>
   (\<forall>n s'. oled_prep_buffer h s = Inr (n, s') \<longrightarrow> n = 0 \<or> n = 19 \<or> n = 256) \<and>
   (\<forall>s'. oled_init h s = Inr s' \<longrightarrow> dma_cndtr s' = 63) \<and>
   (\<forall>s'. lcd_init_hd44780 h True s = Inr (True, s') \<longrightarrow> dma_cndtr s' = 24) \<and>
   (\<forall>sz. dma_start h sz s = Inl Assert_failed \<longleftrightarrow> sizeof_buffer < sz) \<and>
   IRQ_dma1_ch4_tc h s \<noteq> Inl Assert_failed \<and>
   lcd_init h s \<noteq> Inl Assert_failed \<and>
   IRQ_i2c_error h s \<noteq> Inl Assert_failed"
  using no_assert_IRQ_dma1_ch4_tc [of h s] no_assert_lcd_init [of h s]
    no_assert_IRQ_i2c_error [of h s] oled_prep_buffer_size [of h s]
    oled_init_cndtr [of h s] lcd_init_hd44780_cndtr [of h s] dma_start_assert [of h _ s]
  by (simp add: lcd_prep_buffer_put no_assert_def sizeof_buffer_def)

theorem dma_start_size_fits_witness:
  "(\<exists>s'. oled_prep_buffer (example_platform (Font_8x16 (\<lambda>i. 0))) oled_wrap_state = Inr (19, s')) \<and>
   (\<exists>s'. IRQ_dma1_ch4_tc (example_platform (Font_8x16 (\<lambda>i. 0))) oled_wrap_state = Inr s' \<and>
         dma_cndtr s' = 19) \<and>
   dma_start (example_platform (Font_8x16 (\<lambda>i. 0))) 257 oled_wrap_state = Inl Assert_failed \<and>
   lcd_init (example_platform (Font_8x16 (\<lambda>i. 0))) oled_wrap_state \<noteq> Inl Assert_failed"
proof -
  let ?h = "example_platform (Font_8x16 (\<lambda>i. 0))"
  have a: "oled_prep_buffer ?h oled_wrap_state = Inr (oled_start_i2c 0
     (oled_wrap_state\<lparr>refresh_count := 1, i2c_cr1 := {}, events := [Ev_stop],
                        sr1_in := [], stop_in := []\<rparr>))"
    by (simp add: oled_prep_buffer_def oled_wrap_state_def power_on_def Let_def seq_def
          wait_stop_def)
  have b: "\<exists>s'. IRQ_dma1_ch4_tc ?h oled_wrap_state = Inr s' \<and> dma_cndtr s' = 19"
    by (simp add: IRQ_dma1_ch4_tc_def oled_prep_buffer_def oled_wrap_state_def power_on_def
          Let_def seq_def wait_stop_def oled_start_i2c_put dma_start_def stk_now_def
          timer_set_def sizeof_buffer_def OLED_ADDR_def)
  from a have c: "\<exists>s'. oled_prep_buffer ?h oled_wrap_state = Inr (19, s')"
    by (simp add: oled_start_i2c_put)
  show ?thesis
    using b c dma_start_size_fits [of oled_wrap_state ?h]
    by (simp add: sizeof_buffer_def)
qed

end
